theory Spec2Isabelle
  imports Complex_Main "HOL-Library.Monad_Syntax"
begin

section \<open>Buffers, loops and undefined behaviour\<close>

text \<open>
  The element type \<open>T\<close> of the C++ templates is a type variable \<open>'a\<close>. Sizes and indices
  are \<open>size_t\<close>; they are modelled as \<open>nat\<close>, since every index computed below is bounded by
  the length of a buffer that exists in memory. A C++ operation whose behaviour is undefined
  (a read or write outside a buffer, a read of an indeterminate value) returns \<open>None\<close>.
\<close>

definition rd :: "'a list \<Rightarrow> nat \<Rightarrow> 'a option" where
  "rd xs i = (if i < length xs then Some (xs ! i) else None)"

definition wr :: "'a list \<Rightarrow> nat \<Rightarrow> 'a \<Rightarrow> 'a list option" where
  "wr xs i v = (if i < length xs then Some (xs[i := v]) else None)"

definition rd2 :: "'a list list \<Rightarrow> nat \<Rightarrow> nat \<Rightarrow> 'a option" where
  "rd2 xss i k = do { row \<leftarrow> rd xss i; rd row k }"

text \<open>
  \<open>for(size_t i = i0; i < n; i += inc) body\<close>. The loop need not end (\<open>inc = 0\<close>):
  not returning is the value \<open>None\<close>, as is undefined behaviour in the body.
\<close>

partial_function (option) for_step ::
  "nat \<Rightarrow> nat \<Rightarrow> nat \<Rightarrow> (nat \<Rightarrow> 's \<Rightarrow> 's option) \<Rightarrow> 's \<Rightarrow> 's option" where
  "for_step i n inc body s =
     (if i < n then (case body i s of None \<Rightarrow> None | Some s' \<Rightarrow> for_step (i + inc) n inc body s')
      else Some s)"

declare for_step.simps [code]

section \<open>Dense layer (STL backend): one output unit\<close>

text \<open>
  \<open>Dense1\<close> owns a heap array \<open>weights\<close> of \<open>in_size\<close> elements and a member \<open>bias\<close>.
  A cell of type \<open>T\<close> that has not been written holds an indeterminate value: \<open>None\<close>.
  Reading such a cell is undefined behaviour.
\<close>

record 'a Dense1 =
  in_size :: nat
  bias :: "'a option"
  weights :: "'a option list"

definition ld :: "'a option list \<Rightarrow> nat \<Rightarrow> 'a option" where
  "ld cells i = do { c \<leftarrow> rd cells i; c }"

text \<open>The constructor: \<open>weights = new T[in_size]\<close>, and no initialiser for \<open>bias\<close>.\<close>

definition Dense1 :: "nat \<Rightarrow> 'a Dense1" where
  "Dense1 in_sz = \<lparr>in_size = in_sz, bias = None, weights = replicate in_sz None\<rparr>"

text \<open>
  \<open>std::inner_product(first1, first1 + n, first2, init)\<close>: from left to right,
  \<open>init = init + *first1 * *first2\<close>.
\<close>

definition inner_product :: "'a option list \<Rightarrow> nat \<Rightarrow> 'a list \<Rightarrow> 'a::{plus,times} \<Rightarrow> 'a option" where
  "inner_product first1 n first2 init =
     for_step 0 n 1 (\<lambda>j acc. do { a \<leftarrow> ld first1 j; b \<leftarrow> rd first2 j; Some (acc + a * b) }) init"

definition Dense1_forward :: "'a::{zero,plus,times} Dense1 \<Rightarrow> 'a list \<Rightarrow> 'a option" where
  "Dense1_forward d input = do {
     s \<leftarrow> inner_product (weights d) (in_size d) input 0;
     b \<leftarrow> bias d;
     Some (s + b)
   }"

definition Dense1_setWeights :: "'a Dense1 \<Rightarrow> 'a list \<Rightarrow> 'a Dense1 option" where
  "Dense1_setWeights d newWeights =
     for_step 0 (in_size d) 1
       (\<lambda>i d. do {
          v \<leftarrow> rd newWeights i;
          ws \<leftarrow> wr (weights d) i (Some v);
          Some (d\<lparr>weights := ws\<rparr>)
        }) d"

definition Dense1_setBias :: "'a Dense1 \<Rightarrow> 'a \<Rightarrow> 'a Dense1" where
  "Dense1_setBias d b = d\<lparr>bias := Some b\<rparr>"

definition Dense1_getWeight :: "'a Dense1 \<Rightarrow> nat \<Rightarrow> 'a option" where
  "Dense1_getWeight d i = ld (weights d) i"

definition Dense1_getBias :: "'a Dense1 \<Rightarrow> 'a option" where
  "Dense1_getBias d = bias d"

text \<open>The array \<open>weights\<close> has the \<open>in_size\<close> cells the constructor allocates.\<close>

definition Dense1_ok :: "nat \<Rightarrow> 'a Dense1 \<Rightarrow> bool" where
  "Dense1_ok n d = (in_size d = n \<and> length (weights d) = n)"

section \<open>Eigen matrices\<close>

text \<open>
  A dynamic \<open>Eigen::Matrix\<close>: its dimensions and its coefficients in Eigen's default
  column-major storage order, so that coefficient \<open>(r, c)\<close> is at \<open>data[c * rows + r]\<close>.
  An index outside the matrix is undefined behaviour.
\<close>

record 'a Matrix =
  rows :: nat
  cols :: nat
  data :: "'a list"

definition Matrix_Zero :: "nat \<Rightarrow> nat \<Rightarrow> 'a::zero Matrix" where
  "Matrix_Zero r c = \<lparr>rows = r, cols = c, data = replicate (r * c) 0\<rparr>"

definition Matrix_Ones :: "nat \<Rightarrow> nat \<Rightarrow> 'a::one Matrix" where
  "Matrix_Ones r c = \<lparr>rows = r, cols = c, data = replicate (r * c) 1\<rparr>"

definition coeff :: "'a Matrix \<Rightarrow> nat \<Rightarrow> nat \<Rightarrow> 'a option" where
  "coeff m r c = (if r < rows m \<and> c < cols m then rd (data m) (c * rows m + r) else None)"

definition coeff_assign :: "'a Matrix \<Rightarrow> nat \<Rightarrow> nat \<Rightarrow> 'a \<Rightarrow> 'a Matrix option" where
  "coeff_assign m r c v =
     (if r < rows m \<and> c < cols m
      then do { d \<leftarrow> wr (data m) (c * rows m + r) v; Some (m\<lparr>data := d\<rparr>) }
      else None)"

text \<open>The one-index access \<open>m(k)\<close>: the coefficient at position \<open>k\<close> of the storage.\<close>

definition coeff_lin :: "'a Matrix \<Rightarrow> nat \<Rightarrow> 'a option" where
  "coeff_lin m k = (if k < rows m * cols m then rd (data m) k else None)"

definition coeff_lin_assign :: "'a Matrix \<Rightarrow> nat \<Rightarrow> 'a \<Rightarrow> 'a Matrix option" where
  "coeff_lin_assign m k v =
     (if k < rows m * cols m
      then do { d \<leftarrow> wr (data m) k v; Some (m\<lparr>data := d\<rparr>) }
      else None)"

text \<open>A matrix with the given dimensions and a storage of the matching length.\<close>

definition Matrix_ok :: "nat \<Rightarrow> nat \<Rightarrow> 'a Matrix \<Rightarrow> bool" where
  "Matrix_ok r c m = (rows m = r \<and> cols m = c \<and> length (data m) = r * c)"

section \<open>The layer base class\<close>

record Layer =
  in_size :: nat
  out_size :: nat

section \<open>Dense layer (STL backend)\<close>

text \<open>
  \<open>subLayers\<close> is an array of \<open>out_size\<close> pointers, each to a \<open>Dense1\<close> of its own that
  the constructor allocates: a list of \<open>Dense1\<close> values.
\<close>

record 'a Dense = Layer +
  subLayers :: "'a Dense1 list"

definition Dense :: "nat \<Rightarrow> nat \<Rightarrow> 'a Dense" where
  "Dense in_sz out_sz =
     \<lparr>in_size = in_sz, out_size = out_sz, subLayers = map (\<lambda>i. Dense1 in_sz) [0..<out_sz]\<rparr>"

text \<open>The copy constructor delegates to the constructor with the sizes of \<open>other\<close>.\<close>

definition Dense_copy :: "'a Dense \<Rightarrow> 'a Dense" where
  "Dense_copy other = Dense (in_size other) (out_size other)"

text \<open>
  \<open>Dense& operator=(const Dense& other) { return *this = Dense(other); }\<close>. The class
  declares a copy assignment operator and so has no move assignment operator: the
  assignment of the temporary in the body is a call of this same operator.
\<close>

partial_function (option) Dense_assign :: "'a Dense \<Rightarrow> 'a Dense \<Rightarrow> 'a Dense option" where
  "Dense_assign self other = Dense_assign self (Dense_copy other)"

definition Dense_forward :: "'a::{zero,plus,times} Dense \<Rightarrow> 'a list \<Rightarrow> 'a list \<Rightarrow> 'a list option" where
  "Dense_forward d input out =
     for_step 0 (out_size d) 1
       (\<lambda>i out. do {
          s \<leftarrow> rd (subLayers d) i;
          y \<leftarrow> Dense1_forward s input;
          wr out i y
        }) out"

text \<open>
  \<open>setWeights\<close> has an overload for \<open>std::vector\<close>s and one for \<open>T**\<close>, with the same body.
  A sublayer is updated in place through its pointer.
\<close>

definition Dense_setWeights :: "'a Dense \<Rightarrow> 'a list list \<Rightarrow> 'a Dense option" where
  "Dense_setWeights d newWeights =
     for_step 0 (out_size d) 1
       (\<lambda>i d. do {
          s \<leftarrow> rd (subLayers d) i;
          row \<leftarrow> rd newWeights i;
          s' \<leftarrow> Dense1_setWeights s row;
          sl \<leftarrow> wr (subLayers d) i s';
          Some (d\<lparr>subLayers := sl\<rparr>)
        }) d"

definition Dense_setBias :: "'a Dense \<Rightarrow> 'a list \<Rightarrow> 'a Dense option" where
  "Dense_setBias d b =
     for_step 0 (out_size d) 1
       (\<lambda>i d. do {
          s \<leftarrow> rd (subLayers d) i;
          v \<leftarrow> rd b i;
          sl \<leftarrow> wr (subLayers d) i (Dense1_setBias s v);
          Some (d\<lparr>subLayers := sl\<rparr>)
        }) d"

definition Dense_getWeight :: "'a Dense \<Rightarrow> nat \<Rightarrow> nat \<Rightarrow> 'a option" where
  "Dense_getWeight d i k = do { s \<leftarrow> rd (subLayers d) i; Dense1_getWeight s k }"

definition Dense_getBias :: "'a Dense \<Rightarrow> nat \<Rightarrow> 'a option" where
  "Dense_getBias d i = do { s \<leftarrow> rd (subLayers d) i; Dense1_getBias s }"

text \<open>The shape the constructor gives a dense layer.\<close>

definition Dense_ok :: "'a Dense \<Rightarrow> bool" where
  "Dense_ok d =
     (length (subLayers d) = out_size d \<and> list_all (Dense1_ok (in_size d)) (subLayers d))"

section \<open>LSTM layer (Eigen backend)\<close>

record 'a LSTMLayer = Layer +
  Wf :: "'a Matrix"
  Wi :: "'a Matrix"
  Wo :: "'a Matrix"
  Wc :: "'a Matrix"
  Uf :: "'a Matrix"
  Ui :: "'a Matrix"
  Uo :: "'a Matrix"
  Uc :: "'a Matrix"
  bf :: "'a Matrix"
  bi :: "'a Matrix"
  bo :: "'a Matrix"
  bc :: "'a Matrix"
  fVec :: "'a Matrix"
  iVec :: "'a Matrix"
  oVec :: "'a Matrix"
  ctVec :: "'a Matrix"
  cVec :: "'a Matrix"
  inVec :: "'a Matrix"
  ht1 :: "'a Matrix"
  ct1 :: "'a Matrix"

definition LSTMLayer :: "nat \<Rightarrow> nat \<Rightarrow> 'a::zero LSTMLayer" where
  "LSTMLayer in_sz out_sz =
     \<lparr>in_size = in_sz, out_size = out_sz,
      Wf = Matrix_Zero out_sz in_sz, Wi = Matrix_Zero out_sz in_sz,
      Wo = Matrix_Zero out_sz in_sz, Wc = Matrix_Zero out_sz in_sz,
      Uf = Matrix_Zero out_sz out_sz, Ui = Matrix_Zero out_sz out_sz,
      Uo = Matrix_Zero out_sz out_sz, Uc = Matrix_Zero out_sz out_sz,
      bf = Matrix_Zero out_sz 1, bi = Matrix_Zero out_sz 1,
      bo = Matrix_Zero out_sz 1, bc = Matrix_Zero out_sz 1,
      fVec = Matrix_Zero out_sz 1, iVec = Matrix_Zero out_sz 1,
      oVec = Matrix_Zero out_sz 1, ctVec = Matrix_Zero out_sz 1,
      cVec = Matrix_Zero out_sz 1,
      inVec = Matrix_Zero out_sz 1, ht1 = Matrix_Zero out_sz 1, ct1 = Matrix_Zero out_sz 1\<rparr>"

text \<open>The copy constructor delegates to the constructor with the sizes of \<open>other\<close>.\<close>

definition LSTM_copy :: "'a::zero LSTMLayer \<Rightarrow> 'a LSTMLayer" where
  "LSTM_copy other = LSTMLayer (in_size other) (out_size other)"

text \<open>
  \<open>operator=\<close> is \<open>return *this = LSTMLayer<T>(other);\<close>: as for the dense layer, the
  assignment in the body is a call of the operator itself.
\<close>

partial_function (option) LSTM_assign ::
  "'a::zero LSTMLayer \<Rightarrow> 'a LSTMLayer \<Rightarrow> 'a LSTMLayer option" where
  "LSTM_assign self other = LSTM_assign self (LSTM_copy other)"

text \<open>\<open>std::fill(first, last, value)\<close> on the cells \<open>lo\<close> to \<open>hi - 1\<close> of a buffer.\<close>

definition fill :: "'a list \<Rightarrow> nat \<Rightarrow> nat \<Rightarrow> 'a \<Rightarrow> 'a list option" where
  "fill xs lo hi v = for_step lo hi 1 (\<lambda>k xs. wr xs k v) xs"

definition LSTM_reset :: "'a::zero LSTMLayer \<Rightarrow> 'a LSTMLayer option" where
  "LSTM_reset l = do {
     h \<leftarrow> fill (data (ht1 l)) 0 (out_size l) 0;
     let l = l\<lparr>ht1 := (ht1 l)\<lparr>data := h\<rparr>\<rparr>;
     c \<leftarrow> fill (data (ct1 l)) 0 (out_size l) 0;
     Some (l\<lparr>ct1 := (ct1 l)\<lparr>data := c\<rparr>\<rparr>)
   }"

definition LSTM_setWVals_body ::
  "'a list list \<Rightarrow> nat \<Rightarrow> nat \<Rightarrow> 'a LSTMLayer \<Rightarrow> 'a LSTMLayer option" where
  "LSTM_setWVals_body wVals i k l = do {
     v \<leftarrow> rd2 wVals i k;
     m \<leftarrow> coeff_assign (Wi l) k i v;
     let l = l\<lparr>Wi := m\<rparr>;
     v \<leftarrow> rd2 wVals i (k + out_size l);
     m \<leftarrow> coeff_assign (Wf l) k i v;
     let l = l\<lparr>Wf := m\<rparr>;
     v \<leftarrow> rd2 wVals i (k + out_size l * 2);
     m \<leftarrow> coeff_assign (Wc l) k i v;
     let l = l\<lparr>Wc := m\<rparr>;
     v \<leftarrow> rd2 wVals i (k + out_size l * 3);
     m \<leftarrow> coeff_assign (Wo l) k i v;
     Some (l\<lparr>Wo := m\<rparr>)
   }"

definition LSTM_setWVals :: "'a LSTMLayer \<Rightarrow> 'a list list \<Rightarrow> 'a LSTMLayer option" where
  "LSTM_setWVals l wVals =
     for_step 0 (in_size l) 1
       (\<lambda>i. for_step 0 (out_size l) 1 (LSTM_setWVals_body wVals i)) l"

definition LSTM_setUVals_body ::
  "'a list list \<Rightarrow> nat \<Rightarrow> nat \<Rightarrow> 'a LSTMLayer \<Rightarrow> 'a LSTMLayer option" where
  "LSTM_setUVals_body uVals i k l = do {
     v \<leftarrow> rd2 uVals i k;
     m \<leftarrow> coeff_assign (Ui l) k i v;
     let l = l\<lparr>Ui := m\<rparr>;
     v \<leftarrow> rd2 uVals i (k + out_size l);
     m \<leftarrow> coeff_assign (Uf l) k i v;
     let l = l\<lparr>Uf := m\<rparr>;
     v \<leftarrow> rd2 uVals i (k + out_size l * 2);
     m \<leftarrow> coeff_assign (Uc l) k i v;
     let l = l\<lparr>Uc := m\<rparr>;
     v \<leftarrow> rd2 uVals i (k + out_size l * 3);
     m \<leftarrow> coeff_assign (Uo l) k i v;
     Some (l\<lparr>Uo := m\<rparr>)
   }"

definition LSTM_setUVals :: "'a LSTMLayer \<Rightarrow> 'a list list \<Rightarrow> 'a LSTMLayer option" where
  "LSTM_setUVals l uVals =
     for_step 0 (out_size l) 1
       (\<lambda>i. for_step 0 (out_size l) 1 (LSTM_setUVals_body uVals i)) l"

definition LSTM_setBVals_body :: "'a list \<Rightarrow> nat \<Rightarrow> 'a LSTMLayer \<Rightarrow> 'a LSTMLayer option" where
  "LSTM_setBVals_body bVals k l = do {
     v \<leftarrow> rd bVals k;
     m \<leftarrow> coeff_lin_assign (bi l) k v;
     let l = l\<lparr>bi := m\<rparr>;
     v \<leftarrow> rd bVals (k + out_size l);
     m \<leftarrow> coeff_lin_assign (bf l) k v;
     let l = l\<lparr>bf := m\<rparr>;
     v \<leftarrow> rd bVals (k + out_size l * 2);
     m \<leftarrow> coeff_lin_assign (bc l) k v;
     let l = l\<lparr>bc := m\<rparr>;
     v \<leftarrow> rd bVals (k + out_size l * 3);
     m \<leftarrow> coeff_lin_assign (bo l) k v;
     Some (l\<lparr>bo := m\<rparr>)
   }"

definition LSTM_setBVals :: "'a LSTMLayer \<Rightarrow> 'a list \<Rightarrow> 'a LSTMLayer option" where
  "LSTM_setBVals l bVals = for_step 0 (out_size l) 1 (LSTM_setBVals_body bVals) l"

text \<open>The dimensions the constructor gives the weight and state matrices of an LSTM layer.\<close>

definition LSTM_ok :: "'a LSTMLayer \<Rightarrow> bool" where
  "LSTM_ok l =
     (Matrix_ok (out_size l) (in_size l) (Wf l) \<and> Matrix_ok (out_size l) (in_size l) (Wi l) \<and>
      Matrix_ok (out_size l) (in_size l) (Wo l) \<and> Matrix_ok (out_size l) (in_size l) (Wc l) \<and>
      Matrix_ok (out_size l) (out_size l) (Uf l) \<and> Matrix_ok (out_size l) (out_size l) (Ui l) \<and>
      Matrix_ok (out_size l) (out_size l) (Uo l) \<and> Matrix_ok (out_size l) (out_size l) (Uc l) \<and>
      Matrix_ok (out_size l) 1 (bf l) \<and> Matrix_ok (out_size l) 1 (bi l) \<and>
      Matrix_ok (out_size l) 1 (bo l) \<and> Matrix_ok (out_size l) 1 (bc l) \<and>
      Matrix_ok (out_size l) 1 (ht1 l) \<and> Matrix_ok (out_size l) 1 (ct1 l))"

text \<open>
  Modelled from the spec: the forward pass of the LSTM layer. \<open>LSTMLayer<T>::forward\<close> is
  declared and defined in \<open>lstm_eigen.h\<close>, which is not among the sources. The model follows
  the per-step update of the specification,
  \<open>i = sigmoid(W_i x + U_i h_prev + b_i)\<close>, \<open>f = sigmoid(W_f x + U_f h_prev + b_f)\<close>,
  \<open>o = sigmoid(W_o x + U_o h_prev + b_o)\<close>, \<open>c~ = tanh(W_c x + U_c h_prev + b_c)\<close>,
  \<open>c = f * c_prev + i * c~\<close>, \<open>h = o * tanh(c)\<close>, and returns \<open>h\<close>, both as the output and as
  the new persisted state. The two nonlinearities are the parameters \<open>sg\<close> and \<open>th\<close>.
  A layer whose matrices do not have the constructor's dimensions, or an input whose length
  is not \<open>in_size\<close>, is a contract violation: \<open>None\<close>.
\<close>

definition entry :: "'a Matrix \<Rightarrow> nat \<Rightarrow> nat \<Rightarrow> 'a" where
  "entry m r c = data m ! (c * rows m + r)"

definition gate_affine ::
  "'a::semiring_0 Matrix \<Rightarrow> 'a list \<Rightarrow> 'a Matrix \<Rightarrow> 'a list \<Rightarrow> 'a Matrix \<Rightarrow> nat \<Rightarrow> 'a" where
  "gate_affine W x U h b k =
     (\<Sum>j\<leftarrow>[0..<cols W]. entry W k j * x ! j) + (\<Sum>j\<leftarrow>[0..<cols U]. entry U k j * h ! j) + data b ! k"

definition LSTM_step ::
  "('a \<Rightarrow> 'a) \<Rightarrow> ('a \<Rightarrow> 'a) \<Rightarrow> 'a::semiring_0 LSTMLayer \<Rightarrow> 'a list \<Rightarrow> 'a list \<times> 'a list" where
  "LSTM_step sg th l x =
     (let h_prev = data (ht1 l);
          c_prev = data (ct1 l);
          units = [0..<out_size l];
          ig = map (\<lambda>k. sg (gate_affine (Wi l) x (Ui l) h_prev (bi l) k)) units;
          fg = map (\<lambda>k. sg (gate_affine (Wf l) x (Uf l) h_prev (bf l) k)) units;
          og = map (\<lambda>k. sg (gate_affine (Wo l) x (Uo l) h_prev (bo l) k)) units;
          cg = map (\<lambda>k. th (gate_affine (Wc l) x (Uc l) h_prev (bc l) k)) units;
          c = map (\<lambda>k. fg ! k * c_prev ! k + ig ! k * cg ! k) units;
          h = map (\<lambda>k. og ! k * th (c ! k)) units
      in (h, c))"

definition LSTM_forward ::
  "('a \<Rightarrow> 'a) \<Rightarrow> ('a \<Rightarrow> 'a) \<Rightarrow> 'a::semiring_0 LSTMLayer \<Rightarrow> 'a list \<Rightarrow> ('a LSTMLayer \<times> 'a list) option" where
  "LSTM_forward sg th l x =
     (if LSTM_ok l \<and> length x = in_size l then
        let (h, c) = LSTM_step sg th l x
        in Some (l\<lparr>ht1 := (ht1 l)\<lparr>data := h\<rparr>, ct1 := (ct1 l)\<lparr>data := c\<rparr>\<rparr>, h)
      else None)"

text \<open>
  A history of calls on one layer. A fresh layer that is configured identically receives
  the same setter calls and no other call.
\<close>

datatype 'a LSTM_call =
  SetWVals "'a list list"
  | SetUVals "'a list list"
  | SetBVals "'a list"
  | Forward "'a list"
  | Reset

fun LSTM_do ::
  "('a \<Rightarrow> 'a) \<Rightarrow> ('a \<Rightarrow> 'a) \<Rightarrow> 'a::semiring_0 LSTMLayer \<Rightarrow> 'a LSTM_call \<Rightarrow> 'a LSTMLayer option" where
  "LSTM_do sg th l (SetWVals w) = LSTM_setWVals l w"
| "LSTM_do sg th l (SetUVals u) = LSTM_setUVals l u"
| "LSTM_do sg th l (SetBVals b) = LSTM_setBVals l b"
| "LSTM_do sg th l (Forward x) = map_option fst (LSTM_forward sg th l x)"
| "LSTM_do sg th l Reset = LSTM_reset l"

fun LSTM_history ::
  "('a \<Rightarrow> 'a) \<Rightarrow> ('a \<Rightarrow> 'a) \<Rightarrow> 'a::semiring_0 LSTMLayer \<Rightarrow> 'a LSTM_call list \<Rightarrow> 'a LSTMLayer option" where
  "LSTM_history sg th l [] = Some l"
| "LSTM_history sg th l (c # cs) =
     (case LSTM_do sg th l c of None \<Rightarrow> None | Some l' \<Rightarrow> LSTM_history sg th l' cs)"

fun is_setter :: "'a LSTM_call \<Rightarrow> bool" where
  "is_setter (Forward x) = False"
| "is_setter Reset = False"
| "is_setter c = True"

text \<open>The configuration of a layer: its sizes and its twelve weight and bias matrices.\<close>

definition LSTM_config :: "'a LSTMLayer \<Rightarrow> (nat \<times> nat) \<times> 'a Matrix list" where
  "LSTM_config l =
     ((in_size l, out_size l),
      [Wf l, Wi l, Wo l, Wc l, Uf l, Ui l, Uo l, Uc l, bf l, bi l, bo l, bc l])"

section \<open>GRU layer (Eigen backend)\<close>

record 'a GRULayer = Layer +
  wVec_z :: "'a Matrix"
  wVec_r :: "'a Matrix"
  wVec_c :: "'a Matrix"
  uVec_z :: "'a Matrix"
  uVec_r :: "'a Matrix"
  uVec_c :: "'a Matrix"
  bVec_z :: "'a Matrix"
  bVec_r :: "'a Matrix"
  bVec_c :: "'a Matrix"
  ht1 :: "'a Matrix"
  zVec :: "'a Matrix"
  rVec :: "'a Matrix"
  cVec :: "'a Matrix"
  inVec :: "'a Matrix"
  ones :: "'a Matrix"

definition GRULayer :: "nat \<Rightarrow> nat \<Rightarrow> 'a::{zero,one} GRULayer" where
  "GRULayer in_sz out_sz =
     \<lparr>in_size = in_sz, out_size = out_sz,
      wVec_z = Matrix_Zero out_sz in_sz, wVec_r = Matrix_Zero out_sz in_sz,
      wVec_c = Matrix_Zero out_sz in_sz,
      uVec_z = Matrix_Zero out_sz out_sz, uVec_r = Matrix_Zero out_sz out_sz,
      uVec_c = Matrix_Zero out_sz out_sz,
      bVec_z = Matrix_Zero out_sz 2, bVec_r = Matrix_Zero out_sz 2,
      bVec_c = Matrix_Zero out_sz 2,
      ht1 = Matrix_Zero out_sz 1, zVec = Matrix_Zero out_sz 1, rVec = Matrix_Zero out_sz 1,
      cVec = Matrix_Zero out_sz 1,
      inVec = Matrix_Zero in_sz 1, ones = Matrix_Ones out_sz 1\<rparr>"

text \<open>The copy constructor delegates to the constructor with the sizes of \<open>other\<close>.\<close>

definition GRU_copy :: "'a::{zero,one} GRULayer \<Rightarrow> 'a GRULayer" where
  "GRU_copy other = GRULayer (in_size other) (out_size other)"

text \<open>\<open>operator=\<close> is \<open>return *this = GRULayer<T>(other);\<close>, a call of the operator itself.\<close>

partial_function (option) GRU_assign ::
  "'a::{zero,one} GRULayer \<Rightarrow> 'a GRULayer \<Rightarrow> 'a GRULayer option" where
  "GRU_assign self other = GRU_assign self (GRU_copy other)"

text \<open>
  The setters have two overloads each, one taking \<open>std::vector\<close>s and one taking \<open>T**\<close>,
  with the same body; one model serves both.
\<close>

definition GRU_setWVals_body ::
  "'a list list \<Rightarrow> nat \<Rightarrow> nat \<Rightarrow> 'a GRULayer \<Rightarrow> 'a GRULayer option" where
  "GRU_setWVals_body wVals i k l = do {
     v \<leftarrow> rd2 wVals i k;
     m \<leftarrow> coeff_assign (wVec_z l) k i v;
     let l = l\<lparr>wVec_z := m\<rparr>;
     v \<leftarrow> rd2 wVals i (k + out_size l);
     m \<leftarrow> coeff_assign (wVec_r l) k i v;
     let l = l\<lparr>wVec_r := m\<rparr>;
     v \<leftarrow> rd2 wVals i (k + out_size l * 2);
     m \<leftarrow> coeff_assign (wVec_c l) k i v;
     Some (l\<lparr>wVec_c := m\<rparr>)
   }"

definition GRU_setWVals :: "'a GRULayer \<Rightarrow> 'a list list \<Rightarrow> 'a GRULayer option" where
  "GRU_setWVals l wVals =
     for_step 0 (in_size l) 1
       (\<lambda>i. for_step 0 (out_size l) 1 (GRU_setWVals_body wVals i)) l"

definition GRU_setUVals_body ::
  "'a list list \<Rightarrow> nat \<Rightarrow> nat \<Rightarrow> 'a GRULayer \<Rightarrow> 'a GRULayer option" where
  "GRU_setUVals_body uVals i k l = do {
     v \<leftarrow> rd2 uVals i k;
     m \<leftarrow> coeff_assign (uVec_z l) k i v;
     let l = l\<lparr>uVec_z := m\<rparr>;
     v \<leftarrow> rd2 uVals i (k + out_size l);
     m \<leftarrow> coeff_assign (uVec_r l) k i v;
     let l = l\<lparr>uVec_r := m\<rparr>;
     v \<leftarrow> rd2 uVals i (k + out_size l * 2);
     m \<leftarrow> coeff_assign (uVec_c l) k i v;
     Some (l\<lparr>uVec_c := m\<rparr>)
   }"

definition GRU_setUVals :: "'a GRULayer \<Rightarrow> 'a list list \<Rightarrow> 'a GRULayer option" where
  "GRU_setUVals l uVals =
     for_step 0 (out_size l) 1
       (\<lambda>i. for_step 0 (out_size l) 1 (GRU_setUVals_body uVals i)) l"

definition GRU_setBVals_body ::
  "'a list list \<Rightarrow> nat \<Rightarrow> nat \<Rightarrow> 'a GRULayer \<Rightarrow> 'a GRULayer option" where
  "GRU_setBVals_body bVals i k l = do {
     v \<leftarrow> rd2 bVals i k;
     m \<leftarrow> coeff_assign (bVec_z l) k i v;
     let l = l\<lparr>bVec_z := m\<rparr>;
     v \<leftarrow> rd2 bVals i (k + out_size l);
     m \<leftarrow> coeff_assign (bVec_r l) k i v;
     let l = l\<lparr>bVec_r := m\<rparr>;
     v \<leftarrow> rd2 bVals i (k + out_size l * 2);
     m \<leftarrow> coeff_assign (bVec_c l) k i v;
     Some (l\<lparr>bVec_c := m\<rparr>)
   }"

definition GRU_setBVals :: "'a GRULayer \<Rightarrow> 'a list list \<Rightarrow> 'a GRULayer option" where
  "GRU_setBVals l bVals =
     for_step 0 2 1
       (\<lambda>i. for_step 0 (out_size l) 1 (GRU_setBVals_body bVals i)) l"

text \<open>
  The getters take the flat column index \<open>k\<close> of the combined buffer. \<open>k % out_size\<close> with
  \<open>out_size = 0\<close> is undefined behaviour.
\<close>

definition GRU_getWVal :: "'a GRULayer \<Rightarrow> nat \<Rightarrow> nat \<Rightarrow> 'a option" where
  "GRU_getWVal l i k =
     (let set = (if k > 2 * out_size l then wVec_c l
                 else if k > out_size l then wVec_r l
                 else wVec_z l)
      in if out_size l = 0 then None else coeff set (k mod out_size l) i)"

definition GRU_getUVal :: "'a GRULayer \<Rightarrow> nat \<Rightarrow> nat \<Rightarrow> 'a option" where
  "GRU_getUVal l i k =
     (let set = (if k > 2 * out_size l then uVec_c l
                 else if k > out_size l then uVec_r l
                 else uVec_z l)
      in if out_size l = 0 then None else coeff set (k mod out_size l) i)"

definition GRU_getBVal :: "'a GRULayer \<Rightarrow> nat \<Rightarrow> nat \<Rightarrow> 'a option" where
  "GRU_getBVal l i k =
     (let set = (if k > 2 * out_size l then bVec_c l
                 else if k > out_size l then bVec_r l
                 else bVec_z l)
      in if out_size l = 0 then None else coeff set (k mod out_size l) i)"

text \<open>The dimensions the constructor gives the weight matrices of a GRU layer.\<close>

definition GRU_ok :: "'a GRULayer \<Rightarrow> bool" where
  "GRU_ok l =
     (Matrix_ok (out_size l) (in_size l) (wVec_z l) \<and> Matrix_ok (out_size l) (in_size l) (wVec_r l) \<and>
      Matrix_ok (out_size l) (in_size l) (wVec_c l) \<and>
      Matrix_ok (out_size l) (out_size l) (uVec_z l) \<and> Matrix_ok (out_size l) (out_size l) (uVec_r l) \<and>
      Matrix_ok (out_size l) (out_size l) (uVec_c l) \<and>
      Matrix_ok (out_size l) 2 (bVec_z l) \<and> Matrix_ok (out_size l) 2 (bVec_r l) \<and>
      Matrix_ok (out_size l) 2 (bVec_c l))"

section \<open>Vector kernels: softmax\<close>

text \<open>
  \<open>input\<close> and \<open>out\<close> are two buffers that do not overlap, and a function returns the
  contents of \<open>out\<close>. The additions and divisions are those of the element type, of which no
  law is assumed: on \<open>float\<close> and \<open>double\<close> they round, and addition is not associative.
\<close>

text \<open>
  STL backend; \<open>sz\<close> is the parameter \<open>size\<close> of the source and \<open>ex\<close> is \<open>std::exp\<close>.
  \<open>softmax_stl_exp_loop\<close> is the first loop of the function, which returns the buffer and
  \<open>exp_sum\<close>; \<open>softmax_stl\<close> is the function.
\<close>

definition softmax_stl_exp_loop ::
  "('a \<Rightarrow> 'a) \<Rightarrow> 'a::{zero,plus} list \<Rightarrow> 'a list \<Rightarrow> nat \<Rightarrow> ('a list \<times> 'a) option" where
  "softmax_stl_exp_loop ex input out sz =
     for_step 0 sz 1
       (\<lambda>i (out, exp_sum). do {
          x \<leftarrow> rd input i;
          out \<leftarrow> wr out i (ex x);
          y \<leftarrow> rd out i;
          Some (out, exp_sum + y)
        }) (out, 0 :: 'a)"

definition softmax_stl ::
  "('a \<Rightarrow> 'a) \<Rightarrow> 'a::{zero,plus,inverse} list \<Rightarrow> 'a list \<Rightarrow> nat \<Rightarrow> 'a list option" where
  "softmax_stl ex input out sz = do {
     (out :: 'a list, exp_sum :: 'a) \<leftarrow> softmax_stl_exp_loop ex input out sz;
     for_step 0 sz 1 (\<lambda>i out. do { y \<leftarrow> rd out i; wr out i (y / exp_sum) }) out
   }"

text \<open>
  xsimd backend. A batch \<open>b_type\<close> is a list of \<open>inc = b_type::size\<close> lanes.
  \<open>load_aligned(&xs[i])\<close> reads the lanes \<open>xs[i], \<dots>, xs[i + inc - 1]\<close> and
  \<open>store_aligned(&xs[i], v)\<close> writes them. The xsimd library is not among the sources: the
  width \<open>inc\<close>, the horizontal sum \<open>hadd\<close> of the lanes of a batch and the function \<open>exv\<close>
  that \<open>xsimd::exp\<close> applies to each lane are parameters; \<open>ex\<close> is \<open>std::exp\<close>, used for
  the remainder. A batch divided by a scalar is divided lane by lane. \<open>dim % inc\<close> with
  \<open>inc = 0\<close> is undefined behaviour; \<open>dm\<close> is the parameter \<open>dim\<close> of the source.
\<close>

definition load_aligned :: "'a list \<Rightarrow> nat \<Rightarrow> nat \<Rightarrow> 'a list option" where
  "load_aligned xs i inc = (if i + inc \<le> length xs then Some (take inc (drop i xs)) else None)"

definition store_aligned :: "'a list \<Rightarrow> nat \<Rightarrow> 'a list \<Rightarrow> 'a list option" where
  "store_aligned xs i v =
     (if i + length v \<le> length xs then Some (take i xs @ v @ drop (i + length v) xs) else None)"

text \<open>
  \<open>softmax_xsimd_exp_loops\<close> is the first two loops of the function, over the full batches
  and over the remainder, which return the buffer and \<open>exp_sum\<close>; \<open>softmax_xsimd\<close> is the
  function.
\<close>

definition softmax_xsimd_exp_loops ::
  "nat \<Rightarrow> ('a list \<Rightarrow> 'a) \<Rightarrow> ('a \<Rightarrow> 'a) \<Rightarrow> ('a \<Rightarrow> 'a) \<Rightarrow>
   'a::{zero,plus} list \<Rightarrow> 'a list \<Rightarrow> nat \<Rightarrow> ('a list \<times> 'a) option" where
  "softmax_xsimd_exp_loops inc hadd exv ex input out dm = do {
     let vec_size = dm - dm mod inc;
     (out :: 'a list, exp_sum :: 'a) \<leftarrow>
       for_step 0 vec_size inc
         (\<lambda>i (out, exp_sum). do {
            x_vec \<leftarrow> load_aligned input i inc;
            let y_vec = map exv x_vec;
            let exp_sum = exp_sum + hadd y_vec;
            out \<leftarrow> store_aligned out i y_vec;
            Some (out, exp_sum)
          }) (out, 0 :: 'a);
     for_step vec_size dm 1
       (\<lambda>i (out, exp_sum). do {
          x \<leftarrow> rd input i;
          out \<leftarrow> wr out i (ex x);
          y \<leftarrow> rd out i;
          Some (out, exp_sum + y)
        }) (out, exp_sum)
   }"

definition softmax_xsimd ::
  "nat \<Rightarrow> ('a list \<Rightarrow> 'a) \<Rightarrow> ('a \<Rightarrow> 'a) \<Rightarrow> ('a \<Rightarrow> 'a) \<Rightarrow>
   'a::{zero,plus,inverse} list \<Rightarrow> 'a list \<Rightarrow> nat \<Rightarrow> 'a list option" where
  "softmax_xsimd inc hadd exv ex input out dm =
     (if inc = 0 then None
      else do {
        let vec_size = dm - dm mod inc;
        (out :: 'a list, exp_sum :: 'a) \<leftarrow>
          softmax_xsimd_exp_loops inc hadd exv ex input out dm;
        out \<leftarrow>
          for_step 0 vec_size inc
            (\<lambda>i out. do {
               x_vec \<leftarrow> load_aligned out i inc;
               let y_vec = map (\<lambda>x. x / exp_sum) x_vec;
               store_aligned out i y_vec
             }) out;
        for_step vec_size dm 1 (\<lambda>i out. do { y \<leftarrow> rd out i; wr out i (y / exp_sum) }) out
      })"

text \<open>
  The sum that each backend divides by, in the order in which its loops add: the STL
  backend adds the exponentials from left to right, starting from 0; the xsimd backend adds
  to 0 the horizontal sum of each full batch, batch after batch, and then the exponentials
  of the remainder, one by one.
\<close>

definition stl_exp_sum :: "('a \<Rightarrow> 'a) \<Rightarrow> 'a::{zero,plus} list \<Rightarrow> nat \<Rightarrow> 'a" where
  "stl_exp_sum ex input n = foldl (\<lambda>s j. s + ex (input ! j)) 0 [0..<n]"

definition xsimd_exp_sum ::
  "nat \<Rightarrow> ('a list \<Rightarrow> 'a) \<Rightarrow> ('a \<Rightarrow> 'a) \<Rightarrow> ('a \<Rightarrow> 'a) \<Rightarrow> 'a::{zero,plus} list \<Rightarrow> nat \<Rightarrow> 'a" where
  "xsimd_exp_sum inc hadd exv ex input n =
     foldl (\<lambda>s j. s + ex (input ! j))
       (foldl (\<lambda>s b. s + hadd (map exv (take inc (drop (b * inc) input)))) 0 [0..<n div inc])
       [n - n mod inc..<n]"

section \<open>The test runner\<close>

text \<open>
  \<open>runTest\<close> is a template in the element type \<open>T\<close>; \<open>main\<close> calls it with
  \<open>TestType = double\<close>, the type of \<open>threshold\<close> too. The element type is the type variable
  \<open>'a\<close>, with its own subtraction, absolute value and comparison, of which no law is
  assumed: on \<open>double\<close> a comparison with a NaN is false.
\<close>

record 'a TestConfig =
  name :: string
  model_file :: string
  x_data_file :: string
  y_data_file :: string
  threshold :: 'a

text \<open>
  The table \<open>tests\<close>, a \<open>std::map\<close> from the name of a test to its configuration. The
  thresholds are written as decimal literals; \<open>lit\<close> is the conversion of the value of a
  literal to the element type.
\<close>

definition tests :: "(rat \<Rightarrow> 'a) \<Rightarrow> (string \<times> 'a TestConfig) list" where
  "tests lit =
     [(''conv1d'',
       \<lparr>name = ''CONV1D'', model_file = ''models/conv.json'',
        x_data_file = ''test_data/conv_x_python.csv'',
        y_data_file = ''test_data/conv_y_python.csv'', threshold = lit (1 / 10 ^ 6)\<rparr>),
      (''dense'',
       \<lparr>name = ''DENSE'', model_file = ''models/dense.json'',
        x_data_file = ''test_data/dense_x_python.csv'',
        y_data_file = ''test_data/dense_y_python.csv'', threshold = lit (2 / 10 ^ 8)\<rparr>),
      (''gru'',
       \<lparr>name = ''GRU'', model_file = ''models/gru.json'',
        x_data_file = ''test_data/gru_x_python.csv'',
        y_data_file = ''test_data/gru_y_python.csv'', threshold = lit (5 / 10 ^ 6)\<rparr>),
      (''lstm'',
       \<lparr>name = ''LSTM'', model_file = ''models/lstm.json'',
        x_data_file = ''test_data/lstm_x_python.csv'',
        y_data_file = ''test_data/lstm_y_python.csv'', threshold = lit (1 / 10 ^ 6)\<rparr>)]"

text \<open>
  What \<open>runTest\<close> calls and the sources do not contain: the parser of the model file, the
  model's \<open>reset\<close> and \<open>forward\<close> (which changes the model and returns one sample), and the
  loader of a CSV file. They are parameters.
\<close>

record ('m, 'a) Env =
  parseJson :: "string \<Rightarrow> 'm"
  model_reset :: "'m \<Rightarrow> 'm"
  model_forward :: "'m \<Rightarrow> 'a list \<Rightarrow> 'a \<times> 'm"
  loadFile :: "string \<Rightarrow> 'a list"

text \<open>The lines written to \<open>std::cout\<close>.\<close>

datatype 'a message = TESTING string | FAIL nat | MaximumError 'a | SUCCESS

text \<open>\<open>std::max(a, b)\<close> is \<open>(a < b) ? b : a\<close>.\<close>

definition std_max :: "'a::ord \<Rightarrow> 'a \<Rightarrow> 'a" where
  "std_max a b = (if a < b then b else a)"

definition runTest ::
  "('m, 'a::{zero,minus,abs,ord}) Env \<Rightarrow> 'a TestConfig \<Rightarrow> ('a message list \<times> int) option" where
  "runTest env test = do {
     let cout = [TESTING (name test)];
     let model = parseJson env (model_file test);
     let model = model_reset env model;
     let xData = loadFile env (x_data_file test);
     let yRefData = loadFile env (y_data_file test);
     let yData = replicate (length xData) (0 :: 'a);
     (model :: 'm, yData :: 'a list) \<leftarrow>
       for_step 0 (length xData) 1
         (\<lambda>n (model, yData). do {
            x \<leftarrow> rd xData n;
            let (y, model) = model_forward env model [x];
            yData \<leftarrow> wr yData n y;
            Some (model, yData)
          }) (model, yData);
     (nErrs :: nat, max_error :: 'a) \<leftarrow>
       for_step 0 (length xData) 1
         (\<lambda>n (nErrs, max_error). do {
            y \<leftarrow> rd yData n;
            yRef \<leftarrow> rd yRefData n;
            let err = \<bar>y - yRef\<bar>;
            Some (if err > threshold test then (nErrs + 1, std_max err max_error)
                  else (nErrs, max_error))
          }) (0, 0);
     Some (if nErrs > 0 then (cout @ [FAIL nErrs, MaximumError max_error], 1)
           else (cout @ [SUCCESS], 0))
   }"

text \<open>
  The words of the claim about \<open>runTest\<close>: the model output for an input sequence is the
  sequence of the samples that successive calls of \<open>forward\<close> return, from the model that
  was parsed and reset; the reference output is the contents of the second data file.
\<close>

fun model_output :: "('m \<Rightarrow> 'a list \<Rightarrow> 'a \<times> 'm) \<Rightarrow> 'm \<Rightarrow> 'a list \<Rightarrow> 'a list" where
  "model_output fwd m [] = []"
| "model_output fwd m (x # xs) = (case fwd m [x] of (y, m') \<Rightarrow> y # model_output fwd m' xs)"

definition test_input :: "('m, 'a) Env \<Rightarrow> 'a TestConfig \<Rightarrow> 'a list" where
  "test_input env test = loadFile env (x_data_file test)"

definition test_reference :: "('m, 'a) Env \<Rightarrow> 'a TestConfig \<Rightarrow> 'a list" where
  "test_reference env test = loadFile env (y_data_file test)"

definition test_output :: "('m, 'a) Env \<Rightarrow> 'a TestConfig \<Rightarrow> 'a list" where
  "test_output env test =
     model_output (model_forward env) (model_reset env (parseJson env (model_file test)))
       (test_input env test)"

section \<open>A model of \<open>double\<close>\<close>

text \<open>
  The values of IEEE 754 binary64 that the examples below compute with: the finite numbers,
  as the rationals they denote, the two infinities and NaN. An operation on finite numbers
  rounds its exact result to the nearest number with a significand of 53 bits, a tie to the
  one whose significand is even; an operation on a NaN gives a NaN, and a comparison with a
  NaN is false. The model leaves out the sign of zero and the bounds of the exponent
  (overflow, subnormal numbers); the examples stay away from both.
\<close>

text \<open>The number of bits of a positive integer.\<close>

function bits :: "int \<Rightarrow> int" where
  "bits n = (if n \<le> 0 then 0 else 1 + bits (n div 2))"
  by auto
termination
  by (relation "measure nat") auto

declare bits.simps [simp del]

definition pow2 :: "int \<Rightarrow> rat" where
  "pow2 e = (if 0 \<le> e then 2 ^ nat e else 1 / 2 ^ nat (- e))"

text \<open>The exponent \<open>e\<close> of a number other than 0: \<open>2 ^ e \<le> \<bar>x\<bar> < 2 ^ (e + 1)\<close>.\<close>

definition ilog2 :: "rat \<Rightarrow> int" where
  "ilog2 x =
     (let a = \<bar>x\<bar>
      in if 1 \<le> a then bits \<lfloor>a\<rfloor> - 1
         else let e = 1 - bits \<lfloor>1 / a\<rfloor>
              in if pow2 e \<le> a then e else e - 1)"

definition round_even :: "rat \<Rightarrow> int" where
  "round_even y =
     (let f = \<lfloor>y\<rfloor>; d = y - of_int f
      in if d < 1 / 2 then f else if 1 / 2 < d then f + 1 else if even f then f else f + 1)"

definition rnd :: "rat \<Rightarrow> rat" where
  "rnd x = (if x = 0 then 0 else let u = pow2 (ilog2 x - 52) in of_int (round_even (x / u)) * u)"

datatype double = Finite rat | PInf | NInf | NaN

instantiation double :: "{zero,plus,minus,times,inverse,abs,ord}"
begin

definition zero_double :: double where
  "zero_double = Finite 0"

fun plus_double :: "double \<Rightarrow> double \<Rightarrow> double" where
  "plus_double NaN y = NaN"
| "plus_double x NaN = NaN"
| "plus_double PInf NInf = NaN"
| "plus_double NInf PInf = NaN"
| "plus_double PInf y = PInf"
| "plus_double x PInf = PInf"
| "plus_double NInf y = NInf"
| "plus_double x NInf = NInf"
| "plus_double (Finite a) (Finite b) = Finite (rnd (a + b))"

fun minus_double :: "double \<Rightarrow> double \<Rightarrow> double" where
  "minus_double NaN y = NaN"
| "minus_double x NaN = NaN"
| "minus_double PInf PInf = NaN"
| "minus_double NInf NInf = NaN"
| "minus_double PInf y = PInf"
| "minus_double x PInf = NInf"
| "minus_double NInf y = NInf"
| "minus_double x NInf = PInf"
| "minus_double (Finite a) (Finite b) = Finite (rnd (a - b))"

fun times_double :: "double \<Rightarrow> double \<Rightarrow> double" where
  "times_double NaN y = NaN"
| "times_double x NaN = NaN"
| "times_double (Finite a) (Finite b) = Finite (rnd (a * b))"
| "times_double (Finite a) PInf = (if a = 0 then NaN else if a < 0 then NInf else PInf)"
| "times_double (Finite a) NInf = (if a = 0 then NaN else if a < 0 then PInf else NInf)"
| "times_double PInf (Finite b) = (if b = 0 then NaN else if b < 0 then NInf else PInf)"
| "times_double NInf (Finite b) = (if b = 0 then NaN else if b < 0 then PInf else NInf)"
| "times_double PInf PInf = PInf"
| "times_double PInf NInf = NInf"
| "times_double NInf PInf = NInf"
| "times_double NInf NInf = PInf"

fun divide_double :: "double \<Rightarrow> double \<Rightarrow> double" where
  "divide_double NaN y = NaN"
| "divide_double x NaN = NaN"
| "divide_double PInf (Finite b) = (if b < 0 then NInf else PInf)"
| "divide_double NInf (Finite b) = (if b < 0 then PInf else NInf)"
| "divide_double PInf y = NaN"
| "divide_double NInf y = NaN"
| "divide_double (Finite a) (Finite b) =
     (if b = 0 then (if a = 0 then NaN else if 0 < a then PInf else NInf)
      else Finite (rnd (a / b)))"
| "divide_double (Finite a) y = Finite 0"

fun inverse_double :: "double \<Rightarrow> double" where
  "inverse_double NaN = NaN"
| "inverse_double (Finite b) = (if b = 0 then PInf else Finite (rnd (1 / b)))"
| "inverse_double y = Finite 0"

fun abs_double :: "double \<Rightarrow> double" where
  "abs_double (Finite a) = Finite \<bar>a\<bar>"
| "abs_double PInf = PInf"
| "abs_double NInf = PInf"
| "abs_double NaN = NaN"

fun less_double :: "double \<Rightarrow> double \<Rightarrow> bool" where
  "less_double NaN y = False"
| "less_double x NaN = False"
| "less_double (Finite a) (Finite b) = (a < b)"
| "less_double x NInf = False"
| "less_double PInf y = False"
| "less_double x y = True"

fun less_eq_double :: "double \<Rightarrow> double \<Rightarrow> bool" where
  "less_eq_double NaN y = False"
| "less_eq_double x NaN = False"
| "less_eq_double (Finite a) (Finite b) = (a \<le> b)"
| "less_eq_double NInf y = True"
| "less_eq_double x PInf = True"
| "less_eq_double x y = False"

instance ..

end

text \<open>The \<open>double\<close> that a decimal literal denotes: the nearest one.\<close>

definition dbl :: "rat \<Rightarrow> double" where
  "dbl r = Finite (rnd r)"

section \<open>Inputs of the examples on \<open>double\<close>\<close>

text \<open>
  The values of the exponential at the two inputs the softmax example uses: \<open>exp(0) = 1\<close>,
  and \<open>exp(37)\<close>, which rounds to the \<open>double\<close> 11719142372802612. The same values stand
  for \<open>std::exp\<close> and for the lanes of \<open>xsimd::exp\<close>.
\<close>

definition exp_at_37_0 :: "double \<Rightarrow> double" where
  "exp_at_37_0 x = (if x = Finite 37 then Finite 11719142372802612 else Finite 1)"

text \<open>
  Two horizontal sums of a batch of four lanes: lane after lane, and by pairs.
\<close>

definition hadd_lanes :: "double list \<Rightarrow> double" where
  "hadd_lanes v = ((v ! 0 + v ! 1) + v ! 2) + v ! 3"

definition hadd_pairs :: "double list \<Rightarrow> double" where
  "hadd_pairs v = (v ! 0 + v ! 1) + (v ! 2 + v ! 3)"

text \<open>
  The configuration that \<open>main\<close> passes to \<open>runTest\<close> for the argument \<open>lstm\<close>,
  \<open>tests.at("lstm")\<close>, with the threshold read as a \<open>double\<close>.
\<close>

definition lstm_test :: "double TestConfig" where
  "lstm_test = the (map_of (tests dbl) ''lstm'')"

text \<open>
  Two environments for \<open>runTest\<close> on \<open>double\<close>. In the first the model returns the running
  sum of its inputs, the input file holds \<open>1, 2, 3\<close> and the reference file \<open>1, nan, 6.5\<close>.
  In the second the model returns NaN for every input, and both files hold the one
  sample 0.
\<close>

definition sum_env :: "(double, double) Env" where
  "sum_env =
     \<lparr>parseJson = (\<lambda>f. Finite 0), model_reset = (\<lambda>m. Finite 0),
      model_forward = (\<lambda>m xs. (m + hd xs, m + hd xs)),
      loadFile = (\<lambda>f. if f = ''test_data/lstm_x_python.csv''
                       then [Finite 1, Finite 2, Finite 3]
                       else [Finite 1, NaN, Finite (13 / 2)])\<rparr>"

definition nan_env :: "(double, double) Env" where
  "nan_env =
     \<lparr>parseJson = (\<lambda>f. Finite 0), model_reset = (\<lambda>m. Finite 0),
      model_forward = (\<lambda>m xs. (NaN, m)),
      loadFile = (\<lambda>f. [Finite 0])\<rparr>"

section \<open>Loop rules and matrix lemmas\<close>

lemma for_step_rule:
  assumes inc: "0 < inc"
    and init: "I i s"
    and step: "\<And>j t. j < n \<Longrightarrow> I j t \<Longrightarrow> \<exists>t'. body j t = Some t' \<and> I (j + inc) t'"
  shows "\<exists>j s'. for_step i n inc body s = Some s' \<and> n \<le> j \<and> I j s'"
  using init
proof (induction "n - i" arbitrary: i s rule: less_induct)
  case less
  show ?case
  proof (cases "i < n")
    case True
    from step[OF True less.prems] obtain t where t: "body i s = Some t" "I (i + inc) t"
      by blast
    have "n - (i + inc) < n - i"
      using True inc by arith
    from less.hyps[OF this t(2)] obtain j s' where
      "for_step (i + inc) n inc body t = Some s'" "n \<le> j" "I j s'"
      by blast
    then show ?thesis
      using True t(1) by (subst for_step.simps) auto
  next
    case False
    then have "for_step i n inc body s = Some s"
      by (subst for_step.simps) simp
    moreover have "n \<le> i"
      using False by simp
    ultimately show ?thesis
      using less.prems by blast
  qed
qed

lemma for_loop_rule:
  assumes init: "I 0 s"
    and step: "\<And>j t. j < n \<Longrightarrow> I j t \<Longrightarrow> \<exists>t'. body j t = Some t' \<and> I (Suc j) t'"
  shows "\<exists>s'. for_step 0 n 1 body s = Some s' \<and> I n s'"
proof -
  let ?J = "\<lambda>j t. j \<le> n \<and> I j t"
  have "\<exists>j s'. for_step 0 n 1 body s = Some s' \<and> n \<le> j \<and> ?J j s'"
  proof (rule for_step_rule)
    show "0 < (1::nat)" by simp
    show "?J 0 s" using init by simp
    fix j t assume "j < n" "?J j t"
    then show "\<exists>t'. body j t = Some t' \<and> ?J (j + 1) t'"
      using step[of j t] by auto
  qed
  then show ?thesis by (metis le_antisym)
qed

lemma for_fill:
  assumes init: "ok s"
    and step: "\<And>k t. k < m \<Longrightarrow> ok t \<Longrightarrow>
      \<exists>t'. body k t = Some t' \<and> ok t' \<and> Q k t' \<and> (\<forall>k'. Q k' t \<longrightarrow> Q k' t')"
  shows "\<exists>s'. for_step 0 m 1 body s = Some s' \<and> ok s' \<and> (\<forall>k<m. Q k s')"
proof -
  let ?I = "\<lambda>j t. ok t \<and> (\<forall>k<j. Q k t)"
  have "\<exists>s'. for_step 0 m 1 body s = Some s' \<and> ?I m s'"
  proof (rule for_loop_rule)
    show "?I 0 s" using init by simp
    fix j t assume j: "j < m" and I: "?I j t"
    from step[OF j] I obtain t' where
      t': "body j t = Some t'" "ok t'" "Q j t'" "\<forall>k'. Q k' t \<longrightarrow> Q k' t'"
      by blast
    have "\<forall>k<Suc j. Q k t'"
      using t'(3,4) I by (auto simp: less_Suc_eq)
    then show "\<exists>t'. body j t = Some t' \<and> ?I (Suc j) t'"
      using t'(1,2) by blast
  qed
  then show ?thesis by blast
qed

lemma for_fill2:
  assumes init: "ok s"
    and step: "\<And>i k t. i < n \<Longrightarrow> k < m \<Longrightarrow> ok t \<Longrightarrow>
      \<exists>t'. body i k t = Some t' \<and> ok t' \<and> Q i k t' \<and> (\<forall>i' k'. Q i' k' t \<longrightarrow> Q i' k' t')"
  shows "\<exists>s'. for_step 0 n 1 (\<lambda>i. for_step 0 m 1 (body i)) s = Some s' \<and> ok s' \<and>
           (\<forall>i<n. \<forall>k<m. Q i k s')"
proof -
  let ?R = "\<lambda>i t. \<forall>k<m. Q i k t"
  show ?thesis
  proof (rule for_fill[where ok = ok and Q = ?R])
    show "ok s" by (rule init)
    fix i t assume i: "i < n" and t: "ok t"
    let ?ok' = "\<lambda>u. ok u \<and> (\<forall>i'. ?R i' t \<longrightarrow> ?R i' u)"
    have "\<exists>t'. for_step 0 m 1 (body i) t = Some t' \<and> ?ok' t' \<and> (\<forall>k<m. Q i k t')"
    proof (rule for_fill[where ok = ?ok' and Q = "Q i"])
      show "?ok' t" using t by simp
      fix k u assume k: "k < m" and u: "?ok' u"
      from step[OF i k] u obtain u' where
        u': "body i k u = Some u'" "ok u'" "Q i k u'" "\<forall>i' k'. Q i' k' u \<longrightarrow> Q i' k' u'"
        by blast
      then show "\<exists>t'. body i k u = Some t' \<and> ?ok' t' \<and> Q i k t' \<and> (\<forall>k'. Q i k' u \<longrightarrow> Q i k' t')"
        using u by auto
    qed
    then show "\<exists>t'. for_step 0 m 1 (body i) t = Some t' \<and> ok t' \<and> ?R i t' \<and> (\<forall>i'. ?R i' t \<longrightarrow> ?R i' t')"
      by blast
  qed
qed

lemma colmajor_inj:
  fixes r c r' c' R :: nat
  assumes "r < R" "r' < R"
  shows "c * R + r = c' * R + r' \<longleftrightarrow> c = c' \<and> r = r'"
proof
  assume e: "c * R + r = c' * R + r'"
  have "(c * R + r) div R = c" "(c' * R + r') div R = c'"
    using assms by simp_all
  then have "c = c'" using e by simp
  then show "c = c' \<and> r = r'" using e by simp
qed simp

lemma colmajor_bound:
  fixes r c R C :: nat
  assumes "r < R" "c < C"
  shows "c * R + r < R * C"
proof -
  have "c * R + r < c * R + R" using assms by simp
  also have "\<dots> = Suc c * R" by simp
  also have "\<dots> \<le> C * R" using assms by (intro mult_le_mono1) simp
  finally show ?thesis by (simp add: mult.commute)
qed

lemma coeff_assign_ok:
  assumes "Matrix_ok R C m" "r < R" "c < C"
  shows "\<exists>m'. coeff_assign m r c v = Some m' \<and> Matrix_ok R C m' \<and>
           (\<forall>r' c'. coeff m' r' c' = (if r' = r \<and> c' = c then Some v else coeff m r' c'))"
proof -
  have b: "c * R + r < length (data m)"
    using assms colmajor_bound[of r R c C] by (simp add: Matrix_ok_def)
  let ?m' = "m\<lparr>data := (data m)[c * R + r := v]\<rparr>"
  have 1: "coeff_assign m r c v = Some ?m'"
    using assms b by (simp add: coeff_assign_def wr_def Matrix_ok_def)
  have 2: "Matrix_ok R C ?m'"
    using assms by (simp add: Matrix_ok_def)
  have 3: "coeff ?m' r' c' = (if r' = r \<and> c' = c then Some v else coeff m r' c')" for r' c'
  proof (cases "r' < R \<and> c' < C")
    case True
    then have b': "c' * R + r' < length (data m)"
      using assms colmajor_bound[of r' R c' C] by (simp add: Matrix_ok_def)
    show ?thesis
      using True assms b b' colmajor_inj[of r R r' c c']
      by (auto simp: coeff_def rd_def Matrix_ok_def)
  next
    case False
    then show ?thesis using assms by (auto simp: coeff_def Matrix_ok_def)
  qed
  show ?thesis using 1 2 3 by blast
qed

lemma coeff_lin_assign_ok:
  assumes "Matrix_ok R C m" "k < R * C"
  shows "\<exists>m'. coeff_lin_assign m k v = Some m' \<and> Matrix_ok R C m' \<and>
           (\<forall>k'. coeff_lin m' k' = (if k' = k then Some v else coeff_lin m k'))"
  using assms by (auto simp: coeff_lin_assign_def coeff_lin_def wr_def rd_def Matrix_ok_def)

lemma Matrix_Zero_ok: "Matrix_ok r c (Matrix_Zero r c)"
  by (simp add: Matrix_ok_def Matrix_Zero_def)

lemma rd2_Some: "i < length xss \<Longrightarrow> k < length (xss ! i) \<Longrightarrow> rd2 xss i k = Some (xss ! i ! k)"
  by (simp add: rd2_def rd_def)

section \<open>LSTM weight loading\<close>

lemma LSTMLayer_sizes [simp]: "in_size (LSTMLayer n m) = n" "out_size (LSTMLayer n m) = m"
  by (simp_all add: LSTMLayer_def)

lemma LSTMLayer_ok: "LSTM_ok (LSTMLayer n m)"
  by (simp add: LSTM_ok_def LSTMLayer_def Matrix_Zero_ok)

lemma LSTM_setWVals_body_ok:
  assumes ok: "LSTM_ok l" and i: "i < in_size l" and k: "k < out_size l"
    and len: "i < length wVals" "4 * out_size l \<le> length (wVals ! i)"
  shows "\<exists>l'. LSTM_setWVals_body wVals i k l = Some l' \<and> LSTM_ok l' \<and>
           in_size l' = in_size l \<and> out_size l' = out_size l \<and>
           (\<forall>r c. coeff (Wi l') r c =
              (if r = k \<and> c = i then Some (wVals ! i ! k) else coeff (Wi l) r c)) \<and>
           (\<forall>r c. coeff (Wf l') r c =
              (if r = k \<and> c = i then Some (wVals ! i ! (k + out_size l)) else coeff (Wf l) r c)) \<and>
           (\<forall>r c. coeff (Wc l') r c =
              (if r = k \<and> c = i then Some (wVals ! i ! (k + out_size l * 2)) else coeff (Wc l) r c)) \<and>
           (\<forall>r c. coeff (Wo l') r c =
              (if r = k \<and> c = i then Some (wVals ! i ! (k + out_size l * 3)) else coeff (Wo l) r c))"
proof -
  let ?m = "out_size l"
  have rd: "rd2 wVals i k = Some (wVals ! i ! k)"
    "rd2 wVals i (k + ?m) = Some (wVals ! i ! (k + ?m))"
    "rd2 wVals i (k + ?m * 2) = Some (wVals ! i ! (k + ?m * 2))"
    "rd2 wVals i (k + ?m * 3) = Some (wVals ! i ! (k + ?m * 3))"
    using k len by (simp_all add: rd2_Some)
  have mk: "Matrix_ok ?m (in_size l) (Wi l)" "Matrix_ok ?m (in_size l) (Wf l)"
    "Matrix_ok ?m (in_size l) (Wc l)" "Matrix_ok ?m (in_size l) (Wo l)"
    using ok by (simp_all add: LSTM_ok_def)
  from coeff_assign_ok[OF mk(1) k i, of "wVals ! i ! k"] obtain m1 where m1:
    "coeff_assign (Wi l) k i (wVals ! i ! k) = Some m1" "Matrix_ok ?m (in_size l) m1"
    "\<forall>r c. coeff m1 r c = (if r = k \<and> c = i then Some (wVals ! i ! k) else coeff (Wi l) r c)"
    by blast
  from coeff_assign_ok[OF mk(2) k i, of "wVals ! i ! (k + ?m)"] obtain m2 where m2:
    "coeff_assign (Wf l) k i (wVals ! i ! (k + ?m)) = Some m2" "Matrix_ok ?m (in_size l) m2"
    "\<forall>r c. coeff m2 r c = (if r = k \<and> c = i then Some (wVals ! i ! (k + ?m)) else coeff (Wf l) r c)"
    by blast
  from coeff_assign_ok[OF mk(3) k i, of "wVals ! i ! (k + ?m * 2)"] obtain m3 where m3:
    "coeff_assign (Wc l) k i (wVals ! i ! (k + ?m * 2)) = Some m3" "Matrix_ok ?m (in_size l) m3"
    "\<forall>r c. coeff m3 r c = (if r = k \<and> c = i then Some (wVals ! i ! (k + ?m * 2)) else coeff (Wc l) r c)"
    by blast
  from coeff_assign_ok[OF mk(4) k i, of "wVals ! i ! (k + ?m * 3)"] obtain m4 where m4:
    "coeff_assign (Wo l) k i (wVals ! i ! (k + ?m * 3)) = Some m4" "Matrix_ok ?m (in_size l) m4"
    "\<forall>r c. coeff m4 r c = (if r = k \<and> c = i then Some (wVals ! i ! (k + ?m * 3)) else coeff (Wo l) r c)"
    by blast
  let ?l' = "l\<lparr>Wi := m1, Wf := m2, Wc := m3, Wo := m4\<rparr>"
  have run: "LSTM_setWVals_body wVals i k l = Some ?l'"
    by (simp add: LSTM_setWVals_body_def rd m1(1) m2(1) m3(1) m4(1))
  have ok': "LSTM_ok ?l'"
    using ok m1(2) m2(2) m3(2) m4(2) by (simp add: LSTM_ok_def)
  show ?thesis
    using run ok' m1(3) m2(3) m3(3) m4(3) by simp
qed

lemma LSTM_setUVals_body_ok:
  assumes ok: "LSTM_ok l" and i: "i < out_size l" and k: "k < out_size l"
    and len: "i < length uVals" "4 * out_size l \<le> length (uVals ! i)"
  shows "\<exists>l'. LSTM_setUVals_body uVals i k l = Some l' \<and> LSTM_ok l' \<and>
           in_size l' = in_size l \<and> out_size l' = out_size l \<and>
           (\<forall>r c. coeff (Ui l') r c =
              (if r = k \<and> c = i then Some (uVals ! i ! k) else coeff (Ui l) r c)) \<and>
           (\<forall>r c. coeff (Uf l') r c =
              (if r = k \<and> c = i then Some (uVals ! i ! (k + out_size l)) else coeff (Uf l) r c)) \<and>
           (\<forall>r c. coeff (Uc l') r c =
              (if r = k \<and> c = i then Some (uVals ! i ! (k + out_size l * 2)) else coeff (Uc l) r c)) \<and>
           (\<forall>r c. coeff (Uo l') r c =
              (if r = k \<and> c = i then Some (uVals ! i ! (k + out_size l * 3)) else coeff (Uo l) r c))"
proof -
  let ?m = "out_size l"
  have rd: "rd2 uVals i k = Some (uVals ! i ! k)"
    "rd2 uVals i (k + ?m) = Some (uVals ! i ! (k + ?m))"
    "rd2 uVals i (k + ?m * 2) = Some (uVals ! i ! (k + ?m * 2))"
    "rd2 uVals i (k + ?m * 3) = Some (uVals ! i ! (k + ?m * 3))"
    using k len by (simp_all add: rd2_Some)
  have mk: "Matrix_ok ?m ?m (Ui l)" "Matrix_ok ?m ?m (Uf l)"
    "Matrix_ok ?m ?m (Uc l)" "Matrix_ok ?m ?m (Uo l)"
    using ok by (simp_all add: LSTM_ok_def)
  from coeff_assign_ok[OF mk(1) k i, of "uVals ! i ! k"] obtain m1 where m1:
    "coeff_assign (Ui l) k i (uVals ! i ! k) = Some m1" "Matrix_ok ?m ?m m1"
    "\<forall>r c. coeff m1 r c = (if r = k \<and> c = i then Some (uVals ! i ! k) else coeff (Ui l) r c)"
    by blast
  from coeff_assign_ok[OF mk(2) k i, of "uVals ! i ! (k + ?m)"] obtain m2 where m2:
    "coeff_assign (Uf l) k i (uVals ! i ! (k + ?m)) = Some m2" "Matrix_ok ?m ?m m2"
    "\<forall>r c. coeff m2 r c = (if r = k \<and> c = i then Some (uVals ! i ! (k + ?m)) else coeff (Uf l) r c)"
    by blast
  from coeff_assign_ok[OF mk(3) k i, of "uVals ! i ! (k + ?m * 2)"] obtain m3 where m3:
    "coeff_assign (Uc l) k i (uVals ! i ! (k + ?m * 2)) = Some m3" "Matrix_ok ?m ?m m3"
    "\<forall>r c. coeff m3 r c = (if r = k \<and> c = i then Some (uVals ! i ! (k + ?m * 2)) else coeff (Uc l) r c)"
    by blast
  from coeff_assign_ok[OF mk(4) k i, of "uVals ! i ! (k + ?m * 3)"] obtain m4 where m4:
    "coeff_assign (Uo l) k i (uVals ! i ! (k + ?m * 3)) = Some m4" "Matrix_ok ?m ?m m4"
    "\<forall>r c. coeff m4 r c = (if r = k \<and> c = i then Some (uVals ! i ! (k + ?m * 3)) else coeff (Uo l) r c)"
    by blast
  let ?l' = "l\<lparr>Ui := m1, Uf := m2, Uc := m3, Uo := m4\<rparr>"
  have run: "LSTM_setUVals_body uVals i k l = Some ?l'"
    by (simp add: LSTM_setUVals_body_def rd m1(1) m2(1) m3(1) m4(1))
  have ok': "LSTM_ok ?l'"
    using ok m1(2) m2(2) m3(2) m4(2) by (simp add: LSTM_ok_def)
  show ?thesis
    using run ok' m1(3) m2(3) m3(3) m4(3) by simp
qed


lemma LSTM_setBVals_body_ok:
  assumes ok: "LSTM_ok l" and k: "k < out_size l"
    and len: "4 * out_size l \<le> length bVals"
  shows "\<exists>l'. LSTM_setBVals_body bVals k l = Some l' \<and> LSTM_ok l' \<and>
           in_size l' = in_size l \<and> out_size l' = out_size l \<and>
           (\<forall>j. coeff_lin (bi l') j = (if j = k then Some (bVals ! k) else coeff_lin (bi l) j)) \<and>
           (\<forall>j. coeff_lin (bf l') j =
              (if j = k then Some (bVals ! (k + out_size l)) else coeff_lin (bf l) j)) \<and>
           (\<forall>j. coeff_lin (bc l') j =
              (if j = k then Some (bVals ! (k + out_size l * 2)) else coeff_lin (bc l) j)) \<and>
           (\<forall>j. coeff_lin (bo l') j =
              (if j = k then Some (bVals ! (k + out_size l * 3)) else coeff_lin (bo l) j))"
proof -
  let ?m = "out_size l"
  have rd: "rd bVals k = Some (bVals ! k)"
    "rd bVals (k + ?m) = Some (bVals ! (k + ?m))"
    "rd bVals (k + ?m * 2) = Some (bVals ! (k + ?m * 2))"
    "rd bVals (k + ?m * 3) = Some (bVals ! (k + ?m * 3))"
    using k len by (simp_all add: rd_def)
  have mk: "Matrix_ok ?m 1 (bi l)" "Matrix_ok ?m 1 (bf l)"
    "Matrix_ok ?m 1 (bc l)" "Matrix_ok ?m 1 (bo l)"
    using ok by (simp_all add: LSTM_ok_def)
  have k1: "k < ?m * 1" using k by simp
  from coeff_lin_assign_ok[OF mk(1) k1, of "bVals ! k"] obtain m1 where m1:
    "coeff_lin_assign (bi l) k (bVals ! k) = Some m1" "Matrix_ok ?m 1 m1"
    "\<forall>j. coeff_lin m1 j = (if j = k then Some (bVals ! k) else coeff_lin (bi l) j)"
    by blast
  from coeff_lin_assign_ok[OF mk(2) k1, of "bVals ! (k + ?m)"] obtain m2 where m2:
    "coeff_lin_assign (bf l) k (bVals ! (k + ?m)) = Some m2" "Matrix_ok ?m 1 m2"
    "\<forall>j. coeff_lin m2 j = (if j = k then Some (bVals ! (k + ?m)) else coeff_lin (bf l) j)"
    by blast
  from coeff_lin_assign_ok[OF mk(3) k1, of "bVals ! (k + ?m * 2)"] obtain m3 where m3:
    "coeff_lin_assign (bc l) k (bVals ! (k + ?m * 2)) = Some m3" "Matrix_ok ?m 1 m3"
    "\<forall>j. coeff_lin m3 j = (if j = k then Some (bVals ! (k + ?m * 2)) else coeff_lin (bc l) j)"
    by blast
  from coeff_lin_assign_ok[OF mk(4) k1, of "bVals ! (k + ?m * 3)"] obtain m4 where m4:
    "coeff_lin_assign (bo l) k (bVals ! (k + ?m * 3)) = Some m4" "Matrix_ok ?m 1 m4"
    "\<forall>j. coeff_lin m4 j = (if j = k then Some (bVals ! (k + ?m * 3)) else coeff_lin (bo l) j)"
    by blast
  let ?l' = "l\<lparr>bi := m1, bf := m2, bc := m3, bo := m4\<rparr>"
  have run: "LSTM_setBVals_body bVals k l = Some ?l'"
    by (simp add: LSTM_setBVals_body_def rd m1(1) m2(1) m3(1) m4(1))
  have ok': "LSTM_ok ?l'"
    using ok m1(2) m2(2) m3(2) m4(2) by (simp add: LSTM_ok_def)
  show ?thesis
    using run ok' m1(3) m2(3) m3(3) m4(3) by simp
qed

lemma LSTM_setWVals_ok:
  fixes l :: "'a LSTMLayer"
  assumes ok: "LSTM_ok l"
    and len: "in_size l \<le> length wVals" "\<forall>i<in_size l. 4 * out_size l \<le> length (wVals ! i)"
  shows "\<exists>l'. LSTM_setWVals l wVals = Some l' \<and> LSTM_ok l' \<and>
           (\<forall>i<in_size l. \<forall>k<out_size l.
              coeff (Wi l') k i = Some (wVals ! i ! k) \<and>
              coeff (Wf l') k i = Some (wVals ! i ! (k + out_size l)) \<and>
              coeff (Wc l') k i = Some (wVals ! i ! (k + out_size l * 2)) \<and>
              coeff (Wo l') k i = Some (wVals ! i ! (k + out_size l * 3)))"
proof -
  let ?n = "in_size l" and ?m = "out_size l"
  let ?ok = "\<lambda>t. LSTM_ok t \<and> in_size t = ?n \<and> out_size t = ?m"
  let ?Q = "\<lambda>i k t. coeff (Wi t) k i = Some (wVals ! i ! k) \<and>
              coeff (Wf t) k i = Some (wVals ! i ! (k + ?m)) \<and>
              coeff (Wc t) k i = Some (wVals ! i ! (k + ?m * 2)) \<and>
              coeff (Wo t) k i = Some (wVals ! i ! (k + ?m * 3))"
  have "\<exists>s'. for_step 0 ?n 1 (\<lambda>i. for_step 0 ?m 1 (LSTM_setWVals_body wVals i)) l = Some s' \<and>
          ?ok s' \<and> (\<forall>i<?n. \<forall>k<?m. ?Q i k s')"
  proof (rule for_fill2[where ok = ?ok and Q = ?Q])
    show "?ok l" using ok by simp
    fix i k and t :: "'a LSTMLayer"
    assume i: "i < ?n" and k: "k < ?m" and t: "?ok t"
    have h: "LSTM_ok t" "i < in_size t" "k < out_size t" "i < length wVals"
      "4 * out_size t \<le> length (wVals ! i)"
      using i k t len by auto
    from LSTM_setWVals_body_ok[OF h] t obtain t' where
      "LSTM_setWVals_body wVals i k t = Some t'" "?ok t'"
      "\<forall>r c. coeff (Wi t') r c = (if r = k \<and> c = i then Some (wVals ! i ! k) else coeff (Wi t) r c)"
      "\<forall>r c. coeff (Wf t') r c =
         (if r = k \<and> c = i then Some (wVals ! i ! (k + ?m)) else coeff (Wf t) r c)"
      "\<forall>r c. coeff (Wc t') r c =
         (if r = k \<and> c = i then Some (wVals ! i ! (k + ?m * 2)) else coeff (Wc t) r c)"
      "\<forall>r c. coeff (Wo t') r c =
         (if r = k \<and> c = i then Some (wVals ! i ! (k + ?m * 3)) else coeff (Wo t) r c)"
      by auto
    then show "\<exists>t'. LSTM_setWVals_body wVals i k t = Some t' \<and> ?ok t' \<and> ?Q i k t' \<and>
                 (\<forall>i' k'. ?Q i' k' t \<longrightarrow> ?Q i' k' t')"
      by simp
  qed
  then show ?thesis
    by (auto simp: LSTM_setWVals_def)
qed
lemma LSTM_setUVals_ok:
  fixes l :: "'a LSTMLayer"
  assumes ok: "LSTM_ok l"
    and len: "out_size l \<le> length uVals" "\<forall>i<out_size l. 4 * out_size l \<le> length (uVals ! i)"
  shows "\<exists>l'. LSTM_setUVals l uVals = Some l' \<and> LSTM_ok l' \<and>
           (\<forall>i<out_size l. \<forall>k<out_size l.
              coeff (Ui l') k i = Some (uVals ! i ! k) \<and>
              coeff (Uf l') k i = Some (uVals ! i ! (k + out_size l)) \<and>
              coeff (Uc l') k i = Some (uVals ! i ! (k + out_size l * 2)) \<and>
              coeff (Uo l') k i = Some (uVals ! i ! (k + out_size l * 3)))"
proof -
  let ?n = "out_size l" and ?m = "out_size l"
  let ?ok = "\<lambda>t. LSTM_ok t \<and> in_size t = in_size l \<and> out_size t = ?m"
  let ?Q = "\<lambda>i k t. coeff (Ui t) k i = Some (uVals ! i ! k) \<and>
              coeff (Uf t) k i = Some (uVals ! i ! (k + ?m)) \<and>
              coeff (Uc t) k i = Some (uVals ! i ! (k + ?m * 2)) \<and>
              coeff (Uo t) k i = Some (uVals ! i ! (k + ?m * 3))"
  have "\<exists>s'. for_step 0 ?n 1 (\<lambda>i. for_step 0 ?m 1 (LSTM_setUVals_body uVals i)) l = Some s' \<and>
          ?ok s' \<and> (\<forall>i<?n. \<forall>k<?m. ?Q i k s')"
  proof (rule for_fill2[where ok = ?ok and Q = ?Q])
    show "?ok l" using ok by simp
    fix i k and t :: "'a LSTMLayer"
    assume i: "i < ?n" and k: "k < ?m" and t: "?ok t"
    have h: "LSTM_ok t" "i < out_size t" "k < out_size t" "i < length uVals"
      "4 * out_size t \<le> length (uVals ! i)"
      using i k t len by auto
    from LSTM_setUVals_body_ok[OF h] t obtain t' where
      "LSTM_setUVals_body uVals i k t = Some t'" "?ok t'"
      "\<forall>r c. coeff (Ui t') r c = (if r = k \<and> c = i then Some (uVals ! i ! k) else coeff (Ui t) r c)"
      "\<forall>r c. coeff (Uf t') r c =
         (if r = k \<and> c = i then Some (uVals ! i ! (k + ?m)) else coeff (Uf t) r c)"
      "\<forall>r c. coeff (Uc t') r c =
         (if r = k \<and> c = i then Some (uVals ! i ! (k + ?m * 2)) else coeff (Uc t) r c)"
      "\<forall>r c. coeff (Uo t') r c =
         (if r = k \<and> c = i then Some (uVals ! i ! (k + ?m * 3)) else coeff (Uo t) r c)"
      by auto
    then show "\<exists>t'. LSTM_setUVals_body uVals i k t = Some t' \<and> ?ok t' \<and> ?Q i k t' \<and>
                 (\<forall>i' k'. ?Q i' k' t \<longrightarrow> ?Q i' k' t')"
      by simp
  qed
  then show ?thesis
    by (auto simp: LSTM_setUVals_def)
qed

lemma LSTM_setBVals_ok:
  fixes l :: "'a LSTMLayer"
  assumes ok: "LSTM_ok l" and len: "4 * out_size l \<le> length bVals"
  shows "\<exists>l'. LSTM_setBVals l bVals = Some l' \<and> LSTM_ok l' \<and>
           (\<forall>k<out_size l.
              coeff_lin (bi l') k = Some (bVals ! k) \<and>
              coeff_lin (bf l') k = Some (bVals ! (k + out_size l)) \<and>
              coeff_lin (bc l') k = Some (bVals ! (k + out_size l * 2)) \<and>
              coeff_lin (bo l') k = Some (bVals ! (k + out_size l * 3)))"
proof -
  let ?m = "out_size l"
  let ?ok = "\<lambda>t. LSTM_ok t \<and> in_size t = in_size l \<and> out_size t = ?m"
  let ?Q = "\<lambda>k t. coeff_lin (bi t) k = Some (bVals ! k) \<and>
              coeff_lin (bf t) k = Some (bVals ! (k + ?m)) \<and>
              coeff_lin (bc t) k = Some (bVals ! (k + ?m * 2)) \<and>
              coeff_lin (bo t) k = Some (bVals ! (k + ?m * 3))"
  have "\<exists>s'. for_step 0 ?m 1 (LSTM_setBVals_body bVals) l = Some s' \<and> ?ok s' \<and> (\<forall>k<?m. ?Q k s')"
  proof (rule for_fill[where ok = ?ok and Q = ?Q])
    show "?ok l" using ok by simp
    fix k and t :: "'a LSTMLayer"
    assume k: "k < ?m" and t: "?ok t"
    have h: "LSTM_ok t" "k < out_size t" "4 * out_size t \<le> length bVals"
      using k t len by auto
    from LSTM_setBVals_body_ok[OF h] t obtain t' where
      "LSTM_setBVals_body bVals k t = Some t'" "?ok t'"
      "\<forall>j. coeff_lin (bi t') j = (if j = k then Some (bVals ! k) else coeff_lin (bi t) j)"
      "\<forall>j. coeff_lin (bf t') j = (if j = k then Some (bVals ! (k + ?m)) else coeff_lin (bf t) j)"
      "\<forall>j. coeff_lin (bc t') j = (if j = k then Some (bVals ! (k + ?m * 2)) else coeff_lin (bc t) j)"
      "\<forall>j. coeff_lin (bo t') j = (if j = k then Some (bVals ! (k + ?m * 3)) else coeff_lin (bo t) j)"
      by auto
    then show "\<exists>t'. LSTM_setBVals_body bVals k t = Some t' \<and> ?ok t' \<and> ?Q k t' \<and>
                 (\<forall>k'. ?Q k' t \<longrightarrow> ?Q k' t')"
      by simp
  qed
  then show ?thesis
    by (auto simp: LSTM_setBVals_def)
qed

text \<open>
  Claim C1. On an LSTM layer whose matrices have the dimensions the constructor gives them,
  and for buffers large enough for every read of the loops, the three setters return, and
  they slice the combined buffer in the gate order input, forget, cell, output: for every
  \<open>i < in_size\<close> and \<open>k < out_size\<close>, \<open>setWVals\<close> stores \<open>wVals[i][k]\<close> in \<open>Wi(k, i)\<close>,
  \<open>wVals[i][k + out_size]\<close> in \<open>Wf(k, i)\<close>, \<open>wVals[i][k + 2 * out_size]\<close> in \<open>Wc(k, i)\<close> and
  \<open>wVals[i][k + 3 * out_size]\<close> in \<open>Wo(k, i)\<close>; \<open>setUVals\<close> (rows \<open>i < out_size\<close>) and
  \<open>setBVals\<close> use the same four offsets.
\<close>

theorem LSTM_setters_gate_order:
  assumes "LSTM_ok l"
    and "in_size l \<le> length wVals" "\<forall>i<in_size l. 4 * out_size l \<le> length (wVals ! i)"
    and "out_size l \<le> length uVals" "\<forall>i<out_size l. 4 * out_size l \<le> length (uVals ! i)"
    and "4 * out_size l \<le> length bVals"
  shows "\<exists>lw lu lb.
           LSTM_setWVals l wVals = Some lw \<and> LSTM_setUVals l uVals = Some lu \<and>
           LSTM_setBVals l bVals = Some lb \<and>
           (\<forall>i<in_size l. \<forall>k<out_size l.
              coeff (Wi lw) k i = Some (wVals ! i ! k) \<and>
              coeff (Wf lw) k i = Some (wVals ! i ! (k + out_size l)) \<and>
              coeff (Wc lw) k i = Some (wVals ! i ! (k + out_size l * 2)) \<and>
              coeff (Wo lw) k i = Some (wVals ! i ! (k + out_size l * 3))) \<and>
           (\<forall>i<out_size l. \<forall>k<out_size l.
              coeff (Ui lu) k i = Some (uVals ! i ! k) \<and>
              coeff (Uf lu) k i = Some (uVals ! i ! (k + out_size l)) \<and>
              coeff (Uc lu) k i = Some (uVals ! i ! (k + out_size l * 2)) \<and>
              coeff (Uo lu) k i = Some (uVals ! i ! (k + out_size l * 3))) \<and>
           (\<forall>k<out_size l.
              coeff_lin (bi lb) k = Some (bVals ! k) \<and>
              coeff_lin (bf lb) k = Some (bVals ! (k + out_size l)) \<and>
              coeff_lin (bc lb) k = Some (bVals ! (k + out_size l * 2)) \<and>
              coeff_lin (bo lb) k = Some (bVals ! (k + out_size l * 3)))"
proof -
  from LSTM_setWVals_ok[OF assms(1,2,3)] obtain lw where
    "LSTM_setWVals l wVals = Some lw"
    "\<forall>i<in_size l. \<forall>k<out_size l.
       coeff (Wi lw) k i = Some (wVals ! i ! k) \<and>
       coeff (Wf lw) k i = Some (wVals ! i ! (k + out_size l)) \<and>
       coeff (Wc lw) k i = Some (wVals ! i ! (k + out_size l * 2)) \<and>
       coeff (Wo lw) k i = Some (wVals ! i ! (k + out_size l * 3))"
    by blast
  moreover from LSTM_setUVals_ok[OF assms(1,4,5)] obtain lu where
    "LSTM_setUVals l uVals = Some lu"
    "\<forall>i<out_size l. \<forall>k<out_size l.
       coeff (Ui lu) k i = Some (uVals ! i ! k) \<and>
       coeff (Uf lu) k i = Some (uVals ! i ! (k + out_size l)) \<and>
       coeff (Uc lu) k i = Some (uVals ! i ! (k + out_size l * 2)) \<and>
       coeff (Uo lu) k i = Some (uVals ! i ! (k + out_size l * 3))"
    by blast
  moreover from LSTM_setBVals_ok[OF assms(1,6)] obtain lb where
    "LSTM_setBVals l bVals = Some lb"
    "\<forall>k<out_size l.
       coeff_lin (bi lb) k = Some (bVals ! k) \<and>
       coeff_lin (bf lb) k = Some (bVals ! (k + out_size l)) \<and>
       coeff_lin (bc lb) k = Some (bVals ! (k + out_size l * 2)) \<and>
       coeff_lin (bo lb) k = Some (bVals ! (k + out_size l * 3))"
    by blast
  ultimately show ?thesis by blast
qed

text \<open>
  The theorem at a layer with one input and two outputs: the second unit of each gate
  receives the entries at the offsets 1, 3, 5 and 7 of the combined row.
\<close>

theorem LSTM_setters_gate_order_witness:
  "\<exists>lw lu lb.
     LSTM_setWVals (LSTMLayer 1 2) [[1, 2, 3, 4, 5, 6, 7, 8 :: int]] = Some lw \<and>
     LSTM_setUVals (LSTMLayer 1 2)
       [[11, 12, 13, 14, 15, 16, 17, 18], [21, 22, 23, 24, 25, 26, 27, 28 :: int]] = Some lu \<and>
     LSTM_setBVals (LSTMLayer 1 2) [31, 32, 33, 34, 35, 36, 37, 38 :: int] = Some lb \<and>
     coeff (Wi lw) 1 0 = Some 2 \<and> coeff (Wf lw) 1 0 = Some 4 \<and>
     coeff (Wc lw) 1 0 = Some 6 \<and> coeff (Wo lw) 1 0 = Some 8 \<and>
     coeff (Ui lu) 0 1 = Some 21 \<and> coeff (Uf lu) 0 1 = Some 23 \<and>
     coeff (Uc lu) 0 1 = Some 25 \<and> coeff (Uo lu) 0 1 = Some 27 \<and>
     coeff_lin (bi lb) 1 = Some 32 \<and> coeff_lin (bf lb) 1 = Some 34 \<and>
     coeff_lin (bc lb) 1 = Some 36 \<and> coeff_lin (bo lb) 1 = Some 38"
proof -
  let ?l = "LSTMLayer 1 2 :: int LSTMLayer"
  let ?w = "[[1, 2, 3, 4, 5, 6, 7, 8 :: int]]"
  let ?u = "[[11, 12, 13, 14, 15, 16, 17, 18], [21, 22, 23, 24, 25, 26, 27, 28 :: int]]"
  let ?b = "[31, 32, 33, 34, 35, 36, 37, 38 :: int]"
  have h: "LSTM_ok ?l" "in_size ?l \<le> length ?w" "\<forall>i<in_size ?l. 4 * out_size ?l \<le> length (?w ! i)"
    "out_size ?l \<le> length ?u" "\<forall>i<out_size ?l. 4 * out_size ?l \<le> length (?u ! i)"
    "4 * out_size ?l \<le> length ?b"
    by (simp_all add: LSTMLayer_ok less_Suc_eq numeral_2_eq_2)
  from LSTM_setters_gate_order[OF h] obtain lw lu lb where r:
    "LSTM_setWVals ?l ?w = Some lw" "LSTM_setUVals ?l ?u = Some lu" "LSTM_setBVals ?l ?b = Some lb"
    "\<forall>i<in_size ?l. \<forall>k<out_size ?l.
       coeff (Wi lw) k i = Some (?w ! i ! k) \<and>
       coeff (Wf lw) k i = Some (?w ! i ! (k + out_size ?l)) \<and>
       coeff (Wc lw) k i = Some (?w ! i ! (k + out_size ?l * 2)) \<and>
       coeff (Wo lw) k i = Some (?w ! i ! (k + out_size ?l * 3))"
    "\<forall>i<out_size ?l. \<forall>k<out_size ?l.
       coeff (Ui lu) k i = Some (?u ! i ! k) \<and>
       coeff (Uf lu) k i = Some (?u ! i ! (k + out_size ?l)) \<and>
       coeff (Uc lu) k i = Some (?u ! i ! (k + out_size ?l * 2)) \<and>
       coeff (Uo lu) k i = Some (?u ! i ! (k + out_size ?l * 3))"
    "\<forall>k<out_size ?l.
       coeff_lin (bi lb) k = Some (?b ! k) \<and>
       coeff_lin (bf lb) k = Some (?b ! (k + out_size ?l)) \<and>
       coeff_lin (bc lb) k = Some (?b ! (k + out_size ?l * 2)) \<and>
       coeff_lin (bo lb) k = Some (?b ! (k + out_size ?l * 3))"
    by blast
  have "coeff (Wi lw) 1 0 = Some 2 \<and> coeff (Wf lw) 1 0 = Some 4 \<and>
     coeff (Wc lw) 1 0 = Some 6 \<and> coeff (Wo lw) 1 0 = Some 8"
    using r(4)[rule_format, of 0 1] by simp
  moreover have "coeff (Ui lu) 0 1 = Some 21 \<and> coeff (Uf lu) 0 1 = Some 23 \<and>
     coeff (Uc lu) 0 1 = Some 25 \<and> coeff (Uo lu) 0 1 = Some 27"
    using r(5)[rule_format, of 1 0] by simp
  moreover have "coeff_lin (bi lb) 1 = Some 32 \<and> coeff_lin (bf lb) 1 = Some 34 \<and>
     coeff_lin (bc lb) 1 = Some 36 \<and> coeff_lin (bo lb) 1 = Some 38"
    using r(6)[rule_format, of 1] by simp
  ultimately show ?thesis
    using r(1,2,3) by blast
qed

section \<open>GRU weight loading\<close>

lemma GRULayer_sizes [simp]: "in_size (GRULayer n m) = n" "out_size (GRULayer n m) = m"
  by (simp_all add: GRULayer_def)

lemma GRULayer_ok: "GRU_ok (GRULayer n m)"
  by (simp add: GRU_ok_def GRULayer_def Matrix_Zero_ok)

lemma GRU_setWVals_body_ok:
  assumes ok: "GRU_ok l" and i: "i < in_size l" and k: "k < out_size l"
    and len: "i < length wVals" "3 * out_size l \<le> length (wVals ! i)"
  shows "\<exists>l'. GRU_setWVals_body wVals i k l = Some l' \<and> GRU_ok l' \<and>
           in_size l' = in_size l \<and> out_size l' = out_size l \<and>
           (\<forall>r c. coeff (wVec_z l') r c =
              (if r = k \<and> c = i then Some (wVals ! i ! k) else coeff (wVec_z l) r c)) \<and>
           (\<forall>r c. coeff (wVec_r l') r c =
              (if r = k \<and> c = i then Some (wVals ! i ! (k + out_size l)) else coeff (wVec_r l) r c)) \<and>
           (\<forall>r c. coeff (wVec_c l') r c =
              (if r = k \<and> c = i then Some (wVals ! i ! (k + out_size l * 2)) else coeff (wVec_c l) r c))"
proof -
  let ?m = "out_size l"
  have rd: "rd2 wVals i k = Some (wVals ! i ! k)"
    "rd2 wVals i (k + ?m) = Some (wVals ! i ! (k + ?m))"
    "rd2 wVals i (k + ?m * 2) = Some (wVals ! i ! (k + ?m * 2))"
    using k len by (simp_all add: rd2_Some)
  have mk: "Matrix_ok ?m (in_size l) (wVec_z l)" "Matrix_ok ?m (in_size l) (wVec_r l)"
    "Matrix_ok ?m (in_size l) (wVec_c l)"
    using ok by (simp_all add: GRU_ok_def)
  from coeff_assign_ok[OF mk(1) k i, of "wVals ! i ! k"] obtain m1 where m1:
    "coeff_assign (wVec_z l) k i (wVals ! i ! k) = Some m1" "Matrix_ok ?m (in_size l) m1"
    "\<forall>r c. coeff m1 r c = (if r = k \<and> c = i then Some (wVals ! i ! k) else coeff (wVec_z l) r c)"
    by blast
  from coeff_assign_ok[OF mk(2) k i, of "wVals ! i ! (k + ?m)"] obtain m2 where m2:
    "coeff_assign (wVec_r l) k i (wVals ! i ! (k + ?m)) = Some m2" "Matrix_ok ?m (in_size l) m2"
    "\<forall>r c. coeff m2 r c = (if r = k \<and> c = i then Some (wVals ! i ! (k + ?m)) else coeff (wVec_r l) r c)"
    by blast
  from coeff_assign_ok[OF mk(3) k i, of "wVals ! i ! (k + ?m * 2)"] obtain m3 where m3:
    "coeff_assign (wVec_c l) k i (wVals ! i ! (k + ?m * 2)) = Some m3" "Matrix_ok ?m (in_size l) m3"
    "\<forall>r c. coeff m3 r c =
       (if r = k \<and> c = i then Some (wVals ! i ! (k + ?m * 2)) else coeff (wVec_c l) r c)"
    by blast
  let ?l' = "l\<lparr>wVec_z := m1, wVec_r := m2, wVec_c := m3\<rparr>"
  have run: "GRU_setWVals_body wVals i k l = Some ?l'"
    by (simp add: GRU_setWVals_body_def rd m1(1) m2(1) m3(1))
  have ok': "GRU_ok ?l'"
    using ok m1(2) m2(2) m3(2) by (simp add: GRU_ok_def)
  show ?thesis
    using run ok' m1(3) m2(3) m3(3) by simp
qed

lemma GRU_setWVals_ok:
  fixes l :: "'a GRULayer"
  assumes ok: "GRU_ok l"
    and len: "in_size l \<le> length wVals" "\<forall>i<in_size l. 3 * out_size l \<le> length (wVals ! i)"
  shows "\<exists>l'. GRU_setWVals l wVals = Some l' \<and> GRU_ok l' \<and>
           in_size l' = in_size l \<and> out_size l' = out_size l \<and>
           (\<forall>i<in_size l. \<forall>k<out_size l.
              coeff (wVec_z l') k i = Some (wVals ! i ! k) \<and>
              coeff (wVec_r l') k i = Some (wVals ! i ! (k + out_size l)) \<and>
              coeff (wVec_c l') k i = Some (wVals ! i ! (k + out_size l * 2)))"
proof -
  let ?m = "out_size l"
  let ?ok = "\<lambda>t. GRU_ok t \<and> in_size t = in_size l \<and> out_size t = ?m"
  let ?Q = "\<lambda>i k t. coeff (wVec_z t) k i = Some (wVals ! i ! k) \<and>
              coeff (wVec_r t) k i = Some (wVals ! i ! (k + ?m)) \<and>
              coeff (wVec_c t) k i = Some (wVals ! i ! (k + ?m * 2))"
  have "\<exists>s'. for_step 0 (in_size l) 1 (\<lambda>i. for_step 0 ?m 1 (GRU_setWVals_body wVals i)) l = Some s' \<and>
          ?ok s' \<and> (\<forall>i<in_size l. \<forall>k<?m. ?Q i k s')"
  proof (rule for_fill2[where ok = ?ok and Q = ?Q])
    show "?ok l" using ok by simp
    fix i k and t :: "'a GRULayer"
    assume i: "i < in_size l" and k: "k < ?m" and t: "?ok t"
    have h: "GRU_ok t" "i < in_size t" "k < out_size t" "i < length wVals"
      "3 * out_size t \<le> length (wVals ! i)"
      using i k t len by auto
    from GRU_setWVals_body_ok[OF h] t obtain t' where
      "GRU_setWVals_body wVals i k t = Some t'" "?ok t'"
      "\<forall>r c. coeff (wVec_z t') r c = (if r = k \<and> c = i then Some (wVals ! i ! k) else coeff (wVec_z t) r c)"
      "\<forall>r c. coeff (wVec_r t') r c =
         (if r = k \<and> c = i then Some (wVals ! i ! (k + ?m)) else coeff (wVec_r t) r c)"
      "\<forall>r c. coeff (wVec_c t') r c =
         (if r = k \<and> c = i then Some (wVals ! i ! (k + ?m * 2)) else coeff (wVec_c t) r c)"
      by auto
    then show "\<exists>t'. GRU_setWVals_body wVals i k t = Some t' \<and> ?ok t' \<and> ?Q i k t' \<and>
                 (\<forall>i' k'. ?Q i' k' t \<longrightarrow> ?Q i' k' t')"
      by simp
  qed
  then show ?thesis
    by (auto simp: GRU_setWVals_def)
qed

lemma GRU_setUVals_body_ok:
  assumes ok: "GRU_ok l" and i: "i < out_size l" and k: "k < out_size l"
    and len: "i < length uVals" "3 * out_size l \<le> length (uVals ! i)"
  shows "\<exists>l'. GRU_setUVals_body uVals i k l = Some l' \<and> GRU_ok l' \<and>
           in_size l' = in_size l \<and> out_size l' = out_size l \<and>
           (\<forall>r c. coeff (uVec_z l') r c =
              (if r = k \<and> c = i then Some (uVals ! i ! k) else coeff (uVec_z l) r c)) \<and>
           (\<forall>r c. coeff (uVec_r l') r c =
              (if r = k \<and> c = i then Some (uVals ! i ! (k + out_size l)) else coeff (uVec_r l) r c)) \<and>
           (\<forall>r c. coeff (uVec_c l') r c =
              (if r = k \<and> c = i then Some (uVals ! i ! (k + out_size l * 2)) else coeff (uVec_c l) r c))"
proof -
  let ?m = "out_size l"
  have rd: "rd2 uVals i k = Some (uVals ! i ! k)"
    "rd2 uVals i (k + ?m) = Some (uVals ! i ! (k + ?m))"
    "rd2 uVals i (k + ?m * 2) = Some (uVals ! i ! (k + ?m * 2))"
    using k len by (simp_all add: rd2_Some)
  have mk: "Matrix_ok ?m (out_size l) (uVec_z l)" "Matrix_ok ?m (out_size l) (uVec_r l)"
    "Matrix_ok ?m (out_size l) (uVec_c l)"
    using ok by (simp_all add: GRU_ok_def)
  from coeff_assign_ok[OF mk(1) k i, of "uVals ! i ! k"] obtain m1 where m1:
    "coeff_assign (uVec_z l) k i (uVals ! i ! k) = Some m1" "Matrix_ok ?m (out_size l) m1"
    "\<forall>r c. coeff m1 r c = (if r = k \<and> c = i then Some (uVals ! i ! k) else coeff (uVec_z l) r c)"
    by blast
  from coeff_assign_ok[OF mk(2) k i, of "uVals ! i ! (k + ?m)"] obtain m2 where m2:
    "coeff_assign (uVec_r l) k i (uVals ! i ! (k + ?m)) = Some m2" "Matrix_ok ?m (out_size l) m2"
    "\<forall>r c. coeff m2 r c = (if r = k \<and> c = i then Some (uVals ! i ! (k + ?m)) else coeff (uVec_r l) r c)"
    by blast
  from coeff_assign_ok[OF mk(3) k i, of "uVals ! i ! (k + ?m * 2)"] obtain m3 where m3:
    "coeff_assign (uVec_c l) k i (uVals ! i ! (k + ?m * 2)) = Some m3" "Matrix_ok ?m (out_size l) m3"
    "\<forall>r c. coeff m3 r c =
       (if r = k \<and> c = i then Some (uVals ! i ! (k + ?m * 2)) else coeff (uVec_c l) r c)"
    by blast
  let ?l' = "l\<lparr>uVec_z := m1, uVec_r := m2, uVec_c := m3\<rparr>"
  have run: "GRU_setUVals_body uVals i k l = Some ?l'"
    by (simp add: GRU_setUVals_body_def rd m1(1) m2(1) m3(1))
  have ok': "GRU_ok ?l'"
    using ok m1(2) m2(2) m3(2) by (simp add: GRU_ok_def)
  show ?thesis
    using run ok' m1(3) m2(3) m3(3) by simp
qed

lemma GRU_setUVals_ok:
  fixes l :: "'a GRULayer"
  assumes ok: "GRU_ok l"
    and len: "out_size l \<le> length uVals" "\<forall>i<out_size l. 3 * out_size l \<le> length (uVals ! i)"
  shows "\<exists>l'. GRU_setUVals l uVals = Some l' \<and> GRU_ok l' \<and>
           in_size l' = in_size l \<and> out_size l' = out_size l \<and>
           (\<forall>i<out_size l. \<forall>k<out_size l.
              coeff (uVec_z l') k i = Some (uVals ! i ! k) \<and>
              coeff (uVec_r l') k i = Some (uVals ! i ! (k + out_size l)) \<and>
              coeff (uVec_c l') k i = Some (uVals ! i ! (k + out_size l * 2)))"
proof -
  let ?m = "out_size l"
  let ?ok = "\<lambda>t. GRU_ok t \<and> in_size t = in_size l \<and> out_size t = ?m"
  let ?Q = "\<lambda>i k t. coeff (uVec_z t) k i = Some (uVals ! i ! k) \<and>
              coeff (uVec_r t) k i = Some (uVals ! i ! (k + ?m)) \<and>
              coeff (uVec_c t) k i = Some (uVals ! i ! (k + ?m * 2))"
  have "\<exists>s'. for_step 0 (out_size l) 1 (\<lambda>i. for_step 0 ?m 1 (GRU_setUVals_body uVals i)) l = Some s' \<and>
          ?ok s' \<and> (\<forall>i<out_size l. \<forall>k<?m. ?Q i k s')"
  proof (rule for_fill2[where ok = ?ok and Q = ?Q])
    show "?ok l" using ok by simp
    fix i k and t :: "'a GRULayer"
    assume i: "i < out_size l" and k: "k < ?m" and t: "?ok t"
    have h: "GRU_ok t" "i < out_size t" "k < out_size t" "i < length uVals"
      "3 * out_size t \<le> length (uVals ! i)"
      using i k t len by auto
    from GRU_setUVals_body_ok[OF h] t obtain t' where
      "GRU_setUVals_body uVals i k t = Some t'" "?ok t'"
      "\<forall>r c. coeff (uVec_z t') r c = (if r = k \<and> c = i then Some (uVals ! i ! k) else coeff (uVec_z t) r c)"
      "\<forall>r c. coeff (uVec_r t') r c =
         (if r = k \<and> c = i then Some (uVals ! i ! (k + ?m)) else coeff (uVec_r t) r c)"
      "\<forall>r c. coeff (uVec_c t') r c =
         (if r = k \<and> c = i then Some (uVals ! i ! (k + ?m * 2)) else coeff (uVec_c t) r c)"
      by auto
    then show "\<exists>t'. GRU_setUVals_body uVals i k t = Some t' \<and> ?ok t' \<and> ?Q i k t' \<and>
                 (\<forall>i' k'. ?Q i' k' t \<longrightarrow> ?Q i' k' t')"
      by simp
  qed
  then show ?thesis
    by (auto simp: GRU_setUVals_def)
qed

lemma GRU_setBVals_body_ok:
  assumes ok: "GRU_ok l" and i: "i < (2::nat)" and k: "k < out_size l"
    and len: "i < length bVals" "3 * out_size l \<le> length (bVals ! i)"
  shows "\<exists>l'. GRU_setBVals_body bVals i k l = Some l' \<and> GRU_ok l' \<and>
           in_size l' = in_size l \<and> out_size l' = out_size l \<and>
           (\<forall>r c. coeff (bVec_z l') r c =
              (if r = k \<and> c = i then Some (bVals ! i ! k) else coeff (bVec_z l) r c)) \<and>
           (\<forall>r c. coeff (bVec_r l') r c =
              (if r = k \<and> c = i then Some (bVals ! i ! (k + out_size l)) else coeff (bVec_r l) r c)) \<and>
           (\<forall>r c. coeff (bVec_c l') r c =
              (if r = k \<and> c = i then Some (bVals ! i ! (k + out_size l * 2)) else coeff (bVec_c l) r c))"
proof -
  let ?m = "out_size l"
  have rd: "rd2 bVals i k = Some (bVals ! i ! k)"
    "rd2 bVals i (k + ?m) = Some (bVals ! i ! (k + ?m))"
    "rd2 bVals i (k + ?m * 2) = Some (bVals ! i ! (k + ?m * 2))"
    using k len by (simp_all add: rd2_Some)
  have mk: "Matrix_ok ?m 2 (bVec_z l)" "Matrix_ok ?m 2 (bVec_r l)"
    "Matrix_ok ?m 2 (bVec_c l)"
    using ok by (simp_all add: GRU_ok_def)
  from coeff_assign_ok[OF mk(1) k i, of "bVals ! i ! k"] obtain m1 where m1:
    "coeff_assign (bVec_z l) k i (bVals ! i ! k) = Some m1" "Matrix_ok ?m 2 m1"
    "\<forall>r c. coeff m1 r c = (if r = k \<and> c = i then Some (bVals ! i ! k) else coeff (bVec_z l) r c)"
    by blast
  from coeff_assign_ok[OF mk(2) k i, of "bVals ! i ! (k + ?m)"] obtain m2 where m2:
    "coeff_assign (bVec_r l) k i (bVals ! i ! (k + ?m)) = Some m2" "Matrix_ok ?m 2 m2"
    "\<forall>r c. coeff m2 r c = (if r = k \<and> c = i then Some (bVals ! i ! (k + ?m)) else coeff (bVec_r l) r c)"
    by blast
  from coeff_assign_ok[OF mk(3) k i, of "bVals ! i ! (k + ?m * 2)"] obtain m3 where m3:
    "coeff_assign (bVec_c l) k i (bVals ! i ! (k + ?m * 2)) = Some m3" "Matrix_ok ?m 2 m3"
    "\<forall>r c. coeff m3 r c =
       (if r = k \<and> c = i then Some (bVals ! i ! (k + ?m * 2)) else coeff (bVec_c l) r c)"
    by blast
  let ?l' = "l\<lparr>bVec_z := m1, bVec_r := m2, bVec_c := m3\<rparr>"
  have run: "GRU_setBVals_body bVals i k l = Some ?l'"
    by (simp add: GRU_setBVals_body_def rd m1(1) m2(1) m3(1))
  have ok': "GRU_ok ?l'"
    using ok m1(2) m2(2) m3(2) by (simp add: GRU_ok_def)
  show ?thesis
    using run ok' m1(3) m2(3) m3(3) by simp
qed

lemma GRU_setBVals_ok:
  fixes l :: "'a GRULayer"
  assumes ok: "GRU_ok l"
    and len: "2 \<le> length bVals" "\<forall>i<2. 3 * out_size l \<le> length (bVals ! i)"
  shows "\<exists>l'. GRU_setBVals l bVals = Some l' \<and> GRU_ok l' \<and>
           in_size l' = in_size l \<and> out_size l' = out_size l \<and>
           (\<forall>i<2. \<forall>k<out_size l.
              coeff (bVec_z l') k i = Some (bVals ! i ! k) \<and>
              coeff (bVec_r l') k i = Some (bVals ! i ! (k + out_size l)) \<and>
              coeff (bVec_c l') k i = Some (bVals ! i ! (k + out_size l * 2)))"
proof -
  let ?m = "out_size l"
  let ?ok = "\<lambda>t. GRU_ok t \<and> in_size t = in_size l \<and> out_size t = ?m"
  let ?Q = "\<lambda>i k t. coeff (bVec_z t) k i = Some (bVals ! i ! k) \<and>
              coeff (bVec_r t) k i = Some (bVals ! i ! (k + ?m)) \<and>
              coeff (bVec_c t) k i = Some (bVals ! i ! (k + ?m * 2))"
  have "\<exists>s'. for_step 0 2 1 (\<lambda>i. for_step 0 ?m 1 (GRU_setBVals_body bVals i)) l = Some s' \<and>
          ?ok s' \<and> (\<forall>i<2. \<forall>k<?m. ?Q i k s')"
  proof (rule for_fill2[where ok = ?ok and Q = ?Q])
    show "?ok l" using ok by simp
    fix i k and t :: "'a GRULayer"
    assume i: "i < (2::nat)" and k: "k < ?m" and t: "?ok t"
    have h: "GRU_ok t" "i < (2::nat)" "k < out_size t" "i < length bVals"
      "3 * out_size t \<le> length (bVals ! i)"
      using i k t len by auto
    from GRU_setBVals_body_ok[OF h] t obtain t' where
      "GRU_setBVals_body bVals i k t = Some t'" "?ok t'"
      "\<forall>r c. coeff (bVec_z t') r c = (if r = k \<and> c = i then Some (bVals ! i ! k) else coeff (bVec_z t) r c)"
      "\<forall>r c. coeff (bVec_r t') r c =
         (if r = k \<and> c = i then Some (bVals ! i ! (k + ?m)) else coeff (bVec_r t) r c)"
      "\<forall>r c. coeff (bVec_c t') r c =
         (if r = k \<and> c = i then Some (bVals ! i ! (k + ?m * 2)) else coeff (bVec_c t) r c)"
      by auto
    then show "\<exists>t'. GRU_setBVals_body bVals i k t = Some t' \<and> ?ok t' \<and> ?Q i k t' \<and>
                 (\<forall>i' k'. ?Q i' k' t \<longrightarrow> ?Q i' k' t')"
      by simp
  qed
  then show ?thesis
    by (auto simp: GRU_setBVals_def)
qed

text \<open>
  Claim C2. On a GRU layer whose matrices have the dimensions the constructor gives them,
  and for buffers large enough for every read of the loops, the three setters return, and
  they slice the combined buffer in the gate order update, reset, candidate: for every row
  \<open>i\<close> and every \<open>k < out_size\<close>, \<open>setWVals\<close> stores \<open>wVals[i][k]\<close> in \<open>wVec_z(k, i)\<close>,
  \<open>wVals[i][k + out_size]\<close> in \<open>wVec_r(k, i)\<close> and \<open>wVals[i][k + 2 * out_size]\<close> in
  \<open>wVec_c(k, i)\<close>; \<open>setUVals\<close> (rows \<open>i < out_size\<close>) and \<open>setBVals\<close> (rows \<open>i < 2\<close>) use
  the same three offsets.
\<close>

theorem GRU_setters_gate_order:
  assumes "GRU_ok l"
    and "in_size l \<le> length wVals" "\<forall>i<in_size l. 3 * out_size l \<le> length (wVals ! i)"
    and "out_size l \<le> length uVals" "\<forall>i<out_size l. 3 * out_size l \<le> length (uVals ! i)"
    and "2 \<le> length bVals" "\<forall>i<2. 3 * out_size l \<le> length (bVals ! i)"
  shows "\<exists>lw lu lb.
           GRU_setWVals l wVals = Some lw \<and> GRU_setUVals l uVals = Some lu \<and>
           GRU_setBVals l bVals = Some lb \<and>
           (\<forall>i<in_size l. \<forall>k<out_size l.
              coeff (wVec_z lw) k i = Some (wVals ! i ! k) \<and>
              coeff (wVec_r lw) k i = Some (wVals ! i ! (k + out_size l)) \<and>
              coeff (wVec_c lw) k i = Some (wVals ! i ! (k + out_size l * 2))) \<and>
           (\<forall>i<out_size l. \<forall>k<out_size l.
              coeff (uVec_z lu) k i = Some (uVals ! i ! k) \<and>
              coeff (uVec_r lu) k i = Some (uVals ! i ! (k + out_size l)) \<and>
              coeff (uVec_c lu) k i = Some (uVals ! i ! (k + out_size l * 2))) \<and>
           (\<forall>i<2. \<forall>k<out_size l.
              coeff (bVec_z lb) k i = Some (bVals ! i ! k) \<and>
              coeff (bVec_r lb) k i = Some (bVals ! i ! (k + out_size l)) \<and>
              coeff (bVec_c lb) k i = Some (bVals ! i ! (k + out_size l * 2)))"
proof -
  from GRU_setWVals_ok[OF assms(1,2,3)] obtain lw where
    "GRU_setWVals l wVals = Some lw"
    "\<forall>i<in_size l. \<forall>k<out_size l.
       coeff (wVec_z lw) k i = Some (wVals ! i ! k) \<and>
       coeff (wVec_r lw) k i = Some (wVals ! i ! (k + out_size l)) \<and>
       coeff (wVec_c lw) k i = Some (wVals ! i ! (k + out_size l * 2))"
    by blast
  moreover from GRU_setUVals_ok[OF assms(1,4,5)] obtain lu where
    "GRU_setUVals l uVals = Some lu"
    "\<forall>i<out_size l. \<forall>k<out_size l.
       coeff (uVec_z lu) k i = Some (uVals ! i ! k) \<and>
       coeff (uVec_r lu) k i = Some (uVals ! i ! (k + out_size l)) \<and>
       coeff (uVec_c lu) k i = Some (uVals ! i ! (k + out_size l * 2))"
    by blast
  moreover from GRU_setBVals_ok[OF assms(1,6,7)] obtain lb where
    "GRU_setBVals l bVals = Some lb"
    "\<forall>i<2. \<forall>k<out_size l.
       coeff (bVec_z lb) k i = Some (bVals ! i ! k) \<and>
       coeff (bVec_r lb) k i = Some (bVals ! i ! (k + out_size l)) \<and>
       coeff (bVec_c lb) k i = Some (bVals ! i ! (k + out_size l * 2))"
    by blast
  ultimately show ?thesis by blast
qed

text \<open>
  The theorem at a layer with one input and two outputs: the second unit of each gate
  receives the entries at the offsets 1, 3 and 5 of the combined row.
\<close>

theorem GRU_setters_gate_order_witness:
  "\<exists>lw lu lb.
     GRU_setWVals (GRULayer 1 2) [[1, 2, 3, 4, 5, 6 :: int]] = Some lw \<and>
     GRU_setUVals (GRULayer 1 2)
       [[11, 12, 13, 14, 15, 16], [21, 22, 23, 24, 25, 26 :: int]] = Some lu \<and>
     GRU_setBVals (GRULayer 1 2)
       [[31, 32, 33, 34, 35, 36], [41, 42, 43, 44, 45, 46 :: int]] = Some lb \<and>
     coeff (wVec_z lw) 1 0 = Some 2 \<and> coeff (wVec_r lw) 1 0 = Some 4 \<and>
     coeff (wVec_c lw) 1 0 = Some 6 \<and>
     coeff (uVec_z lu) 0 1 = Some 21 \<and> coeff (uVec_r lu) 0 1 = Some 23 \<and>
     coeff (uVec_c lu) 0 1 = Some 25 \<and>
     coeff (bVec_z lb) 1 1 = Some 42 \<and> coeff (bVec_r lb) 1 1 = Some 44 \<and>
     coeff (bVec_c lb) 1 1 = Some 46"
proof -
  let ?l = "GRULayer 1 2 :: int GRULayer"
  let ?w = "[[1, 2, 3, 4, 5, 6 :: int]]"
  let ?u = "[[11, 12, 13, 14, 15, 16], [21, 22, 23, 24, 25, 26 :: int]]"
  let ?b = "[[31, 32, 33, 34, 35, 36], [41, 42, 43, 44, 45, 46 :: int]]"
  have h: "GRU_ok ?l" "in_size ?l \<le> length ?w" "\<forall>i<in_size ?l. 3 * out_size ?l \<le> length (?w ! i)"
    "out_size ?l \<le> length ?u" "\<forall>i<out_size ?l. 3 * out_size ?l \<le> length (?u ! i)"
    "2 \<le> length ?b" "\<forall>i<2. 3 * out_size ?l \<le> length (?b ! i)"
    by (simp_all add: GRULayer_ok less_Suc_eq numeral_2_eq_2)
  from GRU_setters_gate_order[OF h] obtain lw lu lb where r:
    "GRU_setWVals ?l ?w = Some lw" "GRU_setUVals ?l ?u = Some lu" "GRU_setBVals ?l ?b = Some lb"
    "\<forall>i<in_size ?l. \<forall>k<out_size ?l.
       coeff (wVec_z lw) k i = Some (?w ! i ! k) \<and>
       coeff (wVec_r lw) k i = Some (?w ! i ! (k + out_size ?l)) \<and>
       coeff (wVec_c lw) k i = Some (?w ! i ! (k + out_size ?l * 2))"
    "\<forall>i<out_size ?l. \<forall>k<out_size ?l.
       coeff (uVec_z lu) k i = Some (?u ! i ! k) \<and>
       coeff (uVec_r lu) k i = Some (?u ! i ! (k + out_size ?l)) \<and>
       coeff (uVec_c lu) k i = Some (?u ! i ! (k + out_size ?l * 2))"
    "\<forall>i<2. \<forall>k<out_size ?l.
       coeff (bVec_z lb) k i = Some (?b ! i ! k) \<and>
       coeff (bVec_r lb) k i = Some (?b ! i ! (k + out_size ?l)) \<and>
       coeff (bVec_c lb) k i = Some (?b ! i ! (k + out_size ?l * 2))"
    by blast
  have "coeff (wVec_z lw) 1 0 = Some 2 \<and> coeff (wVec_r lw) 1 0 = Some 4 \<and>
     coeff (wVec_c lw) 1 0 = Some 6"
    using r(4)[rule_format, of 0 1] by simp
  moreover have "coeff (uVec_z lu) 0 1 = Some 21 \<and> coeff (uVec_r lu) 0 1 = Some 23 \<and>
     coeff (uVec_c lu) 0 1 = Some 25"
    using r(5)[rule_format, of 1 0] by simp
  moreover have "coeff (bVec_z lb) 1 1 = Some 42 \<and> coeff (bVec_r lb) 1 1 = Some 44 \<and>
     coeff (bVec_c lb) 1 1 = Some 46"
    using r(6)[rule_format, of 1 1] by simp
  ultimately show ?thesis
    using r(1,2,3) by blast
qed

text \<open>
  What \<open>getWVal\<close> returns at the two gate boundaries, on a layer of any size with at least
  one unit: the first column of the gate before.
\<close>

lemma GRU_getWVal_boundary:
  fixes l :: "'a GRULayer"
  assumes ok: "GRU_ok l" and pos: "0 < out_size l" and i: "i < in_size l"
    and len: "in_size l \<le> length wVals" "\<forall>i<in_size l. 3 * out_size l \<le> length (wVals ! i)"
  shows "\<exists>l'. GRU_setWVals l wVals = Some l' \<and>
           GRU_getWVal l' i (out_size l) = Some (wVals ! i ! 0) \<and>
           GRU_getWVal l' i (2 * out_size l) = Some (wVals ! i ! out_size l)"
proof -
  from GRU_setWVals_ok[OF ok len] obtain l' where l': "GRU_setWVals l wVals = Some l'"
    "in_size l' = in_size l" "out_size l' = out_size l"
    "\<forall>i<in_size l. \<forall>k<out_size l.
       coeff (wVec_z l') k i = Some (wVals ! i ! k) \<and>
       coeff (wVec_r l') k i = Some (wVals ! i ! (k + out_size l)) \<and>
       coeff (wVec_c l') k i = Some (wVals ! i ! (k + out_size l * 2))"
    by blast
  from l'(4) i pos have
    "coeff (wVec_z l') 0 i = Some (wVals ! i ! 0)"
    "coeff (wVec_r l') 0 i = Some (wVals ! i ! out_size l)"
    by force+
  then show ?thesis
    using l'(1,3) pos by (simp add: GRU_getWVal_def)
qed

text \<open>
  Claim C9. The getters select the gate with \<open>k > out_size\<close> and \<open>k > 2 * out_size\<close>, so the
  flat indices \<open>out_size\<close> and \<open>2 * out_size\<close>, the first column of the reset and of the
  candidate gate, fall into the gate before. On a layer with one input and two outputs
  loaded with the row \<open>1, 2, 3, 4, 5, 6\<close>, \<open>getWVal(0, 2)\<close> returns 1 where the setter was
  given 3, and \<open>getWVal(0, 4)\<close> returns 3 where the setter was given 5; \<open>getUVal\<close> and
  \<open>getBVal\<close> do the same.
\<close>

theorem GRU_getters_gate_boundary:
  "(GRU_setWVals (GRULayer 1 2) [[1, 2, 3, 4, 5, 6 :: int]] \<bind> (\<lambda>l. GRU_getWVal l 0 2)) = Some 1 \<and>
   (GRU_setWVals (GRULayer 1 2) [[1, 2, 3, 4, 5, 6 :: int]] \<bind> (\<lambda>l. GRU_getWVal l 0 4)) = Some 3 \<and>
   (GRU_setUVals (GRULayer 1 2)
      [[11, 12, 13, 14, 15, 16], [21, 22, 23, 24, 25, 26 :: int]] \<bind> (\<lambda>l. GRU_getUVal l 1 2)) = Some 21 \<and>
   (GRU_setBVals (GRULayer 1 2)
      [[31, 32, 33, 34, 35, 36], [41, 42, 43, 44, 45, 46 :: int]] \<bind> (\<lambda>l. GRU_getBVal l 1 4)) = Some 43"
  by code_simp

section \<open>Dense layer\<close>

lemma ld_map_Some: "j < n \<Longrightarrow> n \<le> length row \<Longrightarrow> ld (map Some (take n row)) j = Some (row ! j)"
  by (simp add: ld_def rd_def)

lemma Dense1_setWeights_ok:
  fixes s :: "'a Dense1"
  assumes ok: "Dense1_ok n s" and len: "n \<le> length row"
  shows "\<exists>s'. Dense1_setWeights s row = Some s' \<and> Dense1_ok n s' \<and> bias s' = bias s \<and>
           weights s' = map Some (take n row)"
proof -
  let ?ok = "\<lambda>t. Dense1_ok n t \<and> bias t = bias s"
  let ?Q = "\<lambda>k t. weights t ! k = Some (row ! k)"
  let ?body = "\<lambda>i d. do {
          v \<leftarrow> rd row i;
          ws \<leftarrow> wr (weights d) i (Some v);
          Some (d\<lparr>weights := ws\<rparr>)
        }"
  have "\<exists>s'. for_step 0 n 1 ?body s = Some s' \<and> ?ok s' \<and> (\<forall>k<n. ?Q k s')"
  proof (rule for_fill[where ok = ?ok and Q = ?Q])
    show "?ok s" using ok by simp
    fix k and t :: "'a Dense1"
    assume k: "k < n" and t: "?ok t"
    then show "\<exists>t'. ?body k t = Some t' \<and> ?ok t' \<and> ?Q k t' \<and> (\<forall>k'. ?Q k' t \<longrightarrow> ?Q k' t')"
      using len by (auto simp: rd_def wr_def Dense1_ok_def nth_list_update)
  qed
  then obtain s' where s': "for_step 0 n 1 ?body s = Some s'" "Dense1_ok n s'" "bias s' = bias s"
    "\<forall>k<n. weights s' ! k = Some (row ! k)"
    by blast
  have "weights s' = map Some (take n row)"
    using s'(2,4) len by (intro nth_equalityI) (simp_all add: Dense1_ok_def)
  moreover have "Dense1_setWeights s row = Some s'"
    using s'(1) ok by (simp add: Dense1_setWeights_def Dense1_ok_def)
  ultimately show ?thesis
    using s'(2,3) by blast
qed

lemma inner_product_fold:
  fixes init :: "'a::{plus,times}"
  assumes "n \<le> length row" "n \<le> length input"
  shows "inner_product (map Some (take n row)) n input init =
           Some (foldl (\<lambda>acc j. acc + row ! j * input ! j) init [0..<n])"
proof -
  let ?ws = "map Some (take n row)"
  let ?body = "\<lambda>j acc. do { a \<leftarrow> ld ?ws j; b \<leftarrow> rd input j; Some (acc + a * b) }"
  let ?I = "\<lambda>j acc. acc = foldl (\<lambda>acc j. acc + row ! j * input ! j) init [0..<j]"
  have "\<exists>s'. for_step 0 n 1 ?body init = Some s' \<and> ?I n s'"
  proof (rule for_loop_rule[where I = ?I])
    show "?I 0 init" by simp
    fix j t assume "j < n" "?I j t"
    then show "\<exists>t'. ?body j t = Some t' \<and> ?I (Suc j) t'"
      using assms by (simp add: ld_map_Some rd_def)
  qed
  then show ?thesis
    by (simp add: inner_product_def)
qed

text \<open>In exact arithmetic the left-to-right sum is the sum.\<close>

lemma foldl_dot_sum:
  fixes init :: "'a::semiring_0"
  shows "foldl (\<lambda>acc j. acc + f j * g j) init [0..<n] = init + (\<Sum>j<n. f j * g j)"
  by (induction n) (simp_all add: add.assoc)

lemma Dense_ok_sub: "Dense_ok d \<Longrightarrow> i < out_size d \<Longrightarrow> Dense1_ok (in_size d) (subLayers d ! i)"
  by (simp add: Dense_ok_def list_all_length)

lemma Dense_ok_update:
  "Dense_ok d \<Longrightarrow> Dense1_ok (in_size d) s \<Longrightarrow> Dense_ok (d\<lparr>subLayers := (subLayers d)[i := s]\<rparr>)"
  using set_update_subset_insert[of "subLayers d" i s]
  by (auto simp: Dense_ok_def list_all_iff)

lemma Dense_ok_ctor: "Dense_ok (Dense n m)"
  by (simp add: Dense_ok_def Dense_def list_all_length Dense1_ok_def Dense1_def)

lemma Dense_sizes [simp]: "in_size (Dense n m) = n" "out_size (Dense n m) = m"
  by (simp_all add: Dense_def)

lemma Dense_setWeights_ok:
  fixes d :: "'a Dense"
  assumes ok: "Dense_ok d"
    and len: "out_size d \<le> length w" "\<forall>i<out_size d. in_size d \<le> length (w ! i)"
  shows "\<exists>d'. Dense_setWeights d w = Some d' \<and> Dense_ok d' \<and>
           in_size d' = in_size d \<and> out_size d' = out_size d \<and>
           (\<forall>i<out_size d. weights (subLayers d' ! i) = map Some (take (in_size d) (w ! i)))"
proof -
  let ?n = "in_size d" and ?m = "out_size d"
  let ?ok = "\<lambda>t. Dense_ok t \<and> in_size t = ?n \<and> out_size t = ?m"
  let ?Q = "\<lambda>i t. weights (subLayers t ! i) = map Some (take ?n (w ! i))"
  let ?body = "\<lambda>i d. do {
          s \<leftarrow> rd (subLayers d) i;
          row \<leftarrow> rd w i;
          s' \<leftarrow> Dense1_setWeights s row;
          sl \<leftarrow> wr (subLayers d) i s';
          Some (d\<lparr>subLayers := sl\<rparr>)
        }"
  have "\<exists>s'. for_step 0 ?m 1 ?body d = Some s' \<and> ?ok s' \<and> (\<forall>i<?m. ?Q i s')"
  proof (rule for_fill[where ok = ?ok and Q = ?Q])
    show "?ok d" using ok by simp
    fix i and t :: "'a Dense"
    assume i: "i < ?m" and t: "?ok t"
    have il: "i < length (subLayers t)" "i < length w"
      using i t len by (simp_all add: Dense_ok_def)
    have s1: "Dense1_ok ?n (subLayers t ! i)"
      using Dense_ok_sub[of t i] i t by simp
    have "?n \<le> length (w ! i)"
      using len i by simp
    from Dense1_setWeights_ok[OF s1 this] obtain s' where s':
      "Dense1_setWeights (subLayers t ! i) (w ! i) = Some s'" "Dense1_ok ?n s'"
      "weights s' = map Some (take ?n (w ! i))"
      by blast
    let ?t' = "t\<lparr>subLayers := (subLayers t)[i := s']\<rparr>"
    have run: "?body i t = Some ?t'"
      using il s'(1) by (simp add: rd_def wr_def)
    have "Dense_ok ?t'"
      using Dense_ok_update[of t s' i] t s'(2) by simp
    moreover have "?Q i ?t'"
      using il s'(3) by simp
    moreover have "\<forall>k'. ?Q k' t \<longrightarrow> ?Q k' ?t'"
      using il s'(3) by (auto simp: nth_list_update)
    ultimately show "\<exists>t'. ?body i t = Some t' \<and> ?ok t' \<and> ?Q i t' \<and> (\<forall>k'. ?Q k' t \<longrightarrow> ?Q k' t')"
      using run t by simp
  qed
  then show ?thesis
    by (auto simp: Dense_setWeights_def)
qed

lemma Dense_setBias_ok:
  fixes d :: "'a Dense"
  assumes ok: "Dense_ok d" and len: "out_size d \<le> length b"
  shows "\<exists>d'. Dense_setBias d b = Some d' \<and> Dense_ok d' \<and>
           in_size d' = in_size d \<and> out_size d' = out_size d \<and>
           (\<forall>i<out_size d. weights (subLayers d' ! i) = weights (subLayers d ! i) \<and>
                            bias (subLayers d' ! i) = Some (b ! i))"
proof -
  let ?n = "in_size d" and ?m = "out_size d"
  let ?ok = "\<lambda>t. Dense_ok t \<and> in_size t = ?n \<and> out_size t = ?m \<and>
               (\<forall>i<?m. weights (subLayers t ! i) = weights (subLayers d ! i))"
  let ?Q = "\<lambda>i t. bias (subLayers t ! i) = Some (b ! i)"
  let ?body = "\<lambda>i d. do {
          s \<leftarrow> rd (subLayers d) i;
          v \<leftarrow> rd b i;
          sl \<leftarrow> wr (subLayers d) i (Dense1_setBias s v);
          Some (d\<lparr>subLayers := sl\<rparr>)
        }"
  have "\<exists>s'. for_step 0 ?m 1 ?body d = Some s' \<and> ?ok s' \<and> (\<forall>i<?m. ?Q i s')"
  proof (rule for_fill[where ok = ?ok and Q = ?Q])
    show "?ok d" using ok by simp
    fix i and t :: "'a Dense"
    assume i: "i < ?m" and t: "?ok t"
    have il: "i < length (subLayers t)" "i < length b"
      using i t len by (simp_all add: Dense_ok_def)
    have s1: "Dense1_ok ?n (subLayers t ! i)"
      using Dense_ok_sub[of t i] i t by simp
    let ?s' = "Dense1_setBias (subLayers t ! i) (b ! i)"
    let ?t' = "t\<lparr>subLayers := (subLayers t)[i := ?s']\<rparr>"
    have s2: "Dense1_ok ?n ?s'" "weights ?s' = weights (subLayers t ! i)" "bias ?s' = Some (b ! i)"
      using s1 by (simp_all add: Dense1_setBias_def Dense1_ok_def)
    have run: "?body i t = Some ?t'"
      using il by (simp add: rd_def wr_def)
    have "Dense_ok ?t'"
      using Dense_ok_update[of t ?s' i] t s2(1) by simp
    moreover have "\<forall>j<?m. weights (subLayers ?t' ! j) = weights (subLayers d ! j)"
      using il t s2(2) by (auto simp: nth_list_update)
    moreover have "?Q i ?t'"
      using il s2(3) by simp
    moreover have "\<forall>k'. ?Q k' t \<longrightarrow> ?Q k' ?t'"
      using il s2(3) by (auto simp: nth_list_update)
    ultimately show "\<exists>t'. ?body i t = Some t' \<and> ?ok t' \<and> ?Q i t' \<and> (\<forall>k'. ?Q k' t \<longrightarrow> ?Q k' t')"
      using run t by simp
  qed
  then show ?thesis
    by (auto simp: Dense_setBias_def)
qed

lemma Dense1_forward_affine:
  fixes s :: "'a::{zero,plus,times} Dense1"
  assumes "Dense1_ok n s" "weights s = map Some (take n row)" "bias s = Some c"
    and "n \<le> length row" "n \<le> length input"
  shows "Dense1_forward s input =
           Some (foldl (\<lambda>acc j. acc + row ! j * input ! j) 0 [0..<n] + c)"
  using assms inner_product_fold[of n row input 0]
  by (simp add: Dense1_forward_def Dense1_ok_def)

lemma Dense_forward_ok:
  fixes d :: "'a::{zero,plus,times} Dense"
  assumes ok: "Dense_ok d"
    and w: "\<forall>i<out_size d. weights (subLayers d ! i) = map Some (take (in_size d) (w ! i)) \<and>
                            bias (subLayers d ! i) = Some (b ! i) \<and> in_size d \<le> length (w ! i)"
    and len: "in_size d \<le> length input" "out_size d \<le> length out"
  shows "\<exists>out'. Dense_forward d input out = Some out' \<and> length out' = length out \<and>
           (\<forall>i<out_size d. out' ! i = foldl (\<lambda>acc j. acc + w ! i ! j * input ! j) 0 [0..<in_size d] + b ! i) \<and>
           (\<forall>i. out_size d \<le> i \<longrightarrow> out' ! i = out ! i)"
proof -
  let ?n = "in_size d" and ?m = "out_size d"
  let ?ok = "\<lambda>t :: 'a list. length t = length out \<and> (\<forall>i. ?m \<le> i \<longrightarrow> t ! i = out ! i)"
  let ?Q = "\<lambda>i (t :: 'a list). t ! i = foldl (\<lambda>acc j. acc + w ! i ! j * input ! j) 0 [0..<?n] + b ! i"
  let ?body = "\<lambda>i out. do {
          s \<leftarrow> rd (subLayers d) i;
          y \<leftarrow> Dense1_forward s input;
          wr out i y
        }"
  have "\<exists>s'. for_step 0 ?m 1 ?body out = Some s' \<and> ?ok s' \<and> (\<forall>i<?m. ?Q i s')"
  proof (rule for_fill[where ok = ?ok and Q = ?Q])
    show "?ok out" by simp
    fix i and t :: "'a list"
    assume i: "i < ?m" and t: "?ok t"
    have il: "i < length (subLayers d)" "i < length t"
      using i t len ok by (simp_all add: Dense_ok_def)
    have s1: "Dense1_ok ?n (subLayers d ! i)"
      using Dense_ok_sub[OF ok i] .
    have f: "Dense1_forward (subLayers d ! i) input = Some (foldl (\<lambda>acc j. acc + w ! i ! j * input ! j) 0 [0..<?n] + b ! i)"
      using Dense1_forward_affine[OF s1, of "w ! i" "b ! i" input] w i len by simp
    show "\<exists>t'. ?body i t = Some t' \<and> ?ok t' \<and> ?Q i t' \<and> (\<forall>k'. ?Q k' t \<longrightarrow> ?Q k' t')"
      using il f t i by (auto simp: rd_def wr_def nth_list_update)
  qed
  then show ?thesis
    by (auto simp: Dense_forward_def)
qed

text \<open>
  Claim C4. On a dense layer with the shape the constructor gives it, and for buffers large
  enough for every read and write, \<open>setWeights(w)\<close>, \<open>setBias(b)\<close> and \<open>forward(input, out)\<close>
  return, and \<open>forward\<close> writes, for every output unit \<open>i < out_size\<close>, the sum over
  \<open>j < in_size\<close> of the products \<open>w[i][j] * input[j]\<close>, plus \<open>b[i]\<close>: the affine value itself,
  with no activation applied to it. The sum is the one \<open>std::inner_product\<close> computes: the
  products are added one by one from left to right, starting from 0, in the arithmetic of
  \<open>T\<close>, of which no law is assumed (on \<open>float\<close> and \<open>double\<close> each addition and each
  product rounds).
\<close>

theorem Dense_forward_affine:
  fixes d :: "'a::{zero,plus,times} Dense"
  assumes "Dense_ok d"
    and "out_size d \<le> length w" "\<forall>i<out_size d. in_size d \<le> length (w ! i)"
    and "out_size d \<le> length b" "in_size d \<le> length input" "out_size d \<le> length out"
  shows "\<exists>d1 d2 out'.
           Dense_setWeights d w = Some d1 \<and> Dense_setBias d1 b = Some d2 \<and>
           Dense_forward d2 input out = Some out' \<and> length out' = length out \<and>
           (\<forall>i<out_size d. out' ! i = foldl (\<lambda>acc j. acc + w ! i ! j * input ! j) 0 [0..<in_size d] + b ! i)"
proof -
  from Dense_setWeights_ok[OF assms(1,2,3)] obtain d1 where d1:
    "Dense_setWeights d w = Some d1" "Dense_ok d1" "in_size d1 = in_size d" "out_size d1 = out_size d"
    "\<forall>i<out_size d. weights (subLayers d1 ! i) = map Some (take (in_size d) (w ! i))"
    by blast
  have "out_size d1 \<le> length b"
    using d1(4) assms(4) by simp
  from Dense_setBias_ok[OF d1(2) this] obtain d2 where d2:
    "Dense_setBias d1 b = Some d2" "Dense_ok d2" "in_size d2 = in_size d" "out_size d2 = out_size d"
    "\<forall>i<out_size d. weights (subLayers d2 ! i) = weights (subLayers d1 ! i) \<and>
                     bias (subLayers d2 ! i) = Some (b ! i)"
    using d1(3,4) by auto
  have w2: "\<forall>i<out_size d2. weights (subLayers d2 ! i) = map Some (take (in_size d2) (w ! i)) \<and>
              bias (subLayers d2 ! i) = Some (b ! i) \<and> in_size d2 \<le> length (w ! i)"
    using d1(5) d2(3,4,5) assms(3) by simp
  have "in_size d2 \<le> length input" "out_size d2 \<le> length out"
    using d2(3,4) assms(5,6) by simp_all
  from Dense_forward_ok[OF d2(2) w2 this] obtain out' where
    "Dense_forward d2 input out = Some out'" "length out' = length out"
    "\<forall>i<out_size d. out' ! i = foldl (\<lambda>acc j. acc + w ! i ! j * input ! j) 0 [0..<in_size d] + b ! i"
    using d2(3,4) by auto
  then show ?thesis
    using d1(1) d2(1) by blast
qed

text \<open>
  The theorem at a layer with three inputs and one output, over the model of \<open>double\<close>, on
  the weights \<open>1e16, 1, -1e16\<close>, the inputs \<open>1, 1, 1\<close> and the bias 0: the sum from left to
  right is \<open>(1e16 + 1) - 1e16\<close>, where \<open>1e16 + 1\<close> rounds to \<open>1e16\<close>, and \<open>forward\<close> writes 0.
\<close>

theorem Dense_forward_affine_witness:
  "\<exists>d1 d2 out'.
     Dense_setWeights (Dense 3 1)
       [[Finite 10000000000000000, Finite 1, Finite (- 10000000000000000)]] = Some d1 \<and>
     Dense_setBias d1 [Finite 0] = Some d2 \<and>
     Dense_forward d2 [Finite 1, Finite 1, Finite 1] [Finite 7] = Some out' \<and>
     out' ! 0 = Finite 0"
proof -
  let ?d = "Dense 3 1 :: double Dense"
  let ?w = "[[Finite 10000000000000000, Finite 1, Finite (- 10000000000000000)]]"
  let ?x = "[Finite 1, Finite 1, Finite 1]"
  have h: "Dense_ok ?d" "out_size ?d \<le> length ?w" "\<forall>i<out_size ?d. in_size ?d \<le> length (?w ! i)"
    "out_size ?d \<le> length [Finite 0]" "in_size ?d \<le> length ?x"
    "out_size ?d \<le> length [Finite 7]"
    by (simp_all add: Dense_ok_ctor)
  from Dense_forward_affine[OF h] obtain d1 d2 out' where r:
    "Dense_setWeights ?d ?w = Some d1" "Dense_setBias d1 [Finite 0] = Some d2"
    "Dense_forward d2 ?x [Finite 7] = Some out'"
    "\<forall>i<out_size ?d. out' ! i =
       foldl (\<lambda>acc j. acc + ?w ! i ! j * ?x ! j) 0 [0..<in_size ?d] + [Finite 0] ! i"
    by blast
  have "foldl (\<lambda>acc j. acc + ?w ! 0 ! j * ?x ! j) 0 [0..<3] + [Finite 0] ! 0 = Finite 0"
    by code_simp
  then have "out' ! 0 = Finite 0"
    using r(4)[rule_format, of 0] by (simp only: Dense_sizes)
  then show ?thesis
    using r(1,2,3) by blast
qed

lemma LSTMLayer_zero:
  "k < m \<Longrightarrow> i < n \<Longrightarrow> coeff (Wi (LSTMLayer n m :: 'a::zero LSTMLayer)) k i = Some 0"
  "k < m \<Longrightarrow> i < n \<Longrightarrow> coeff (Wf (LSTMLayer n m :: 'a::zero LSTMLayer)) k i = Some 0"
  "k < m \<Longrightarrow> i < n \<Longrightarrow> coeff (Wc (LSTMLayer n m :: 'a::zero LSTMLayer)) k i = Some 0"
  "k < m \<Longrightarrow> i < n \<Longrightarrow> coeff (Wo (LSTMLayer n m :: 'a::zero LSTMLayer)) k i = Some 0"
  "k < m \<Longrightarrow> coeff_lin (bi (LSTMLayer n m :: 'a::zero LSTMLayer)) k = Some 0"
  "k < m \<Longrightarrow> coeff_lin (bf (LSTMLayer n m :: 'a::zero LSTMLayer)) k = Some 0"
  "k < m \<Longrightarrow> coeff_lin (bc (LSTMLayer n m :: 'a::zero LSTMLayer)) k = Some 0"
  "k < m \<Longrightarrow> coeff_lin (bo (LSTMLayer n m :: 'a::zero LSTMLayer)) k = Some 0"
  using colmajor_bound[of k m i n]
  by (simp_all add: LSTMLayer_def Matrix_Zero_def coeff_def coeff_lin_def rd_def)

text \<open>A dense layer of any size holds indeterminate weights and biases after its construction.\<close>

lemma Dense_fresh_indeterminate:
  "i < m \<Longrightarrow> k < n \<Longrightarrow> Dense_getWeight (Dense n m) i k = None"
  "i < m \<Longrightarrow> Dense_getBias (Dense n m) i = None"
  by (simp_all add: Dense_getWeight_def Dense_getBias_def Dense1_getWeight_def Dense1_getBias_def
      Dense_def Dense1_def rd_def ld_def)

text \<open>
  Claim C5. The constructor of \<open>Dense1\<close> allocates \<open>weights\<close> with \<open>new T[in_size]\<close> and gives
  \<open>bias\<close> no initialiser, so after the construction of a dense layer, and before any setter,
  the weights and the bias hold indeterminate values, not zero: \<open>getWeight\<close>, \<open>getBias\<close> and
  \<open>forward\<close> read them, which is undefined behaviour. (The constructors of the LSTM and GRU
  layers set every matrix with \<open>Zero\<close>.)
\<close>

theorem Dense_unconfigured_indeterminate:
  "Dense_getWeight (Dense 1 1 :: int Dense) 0 0 = None \<and>
   Dense_getBias (Dense 1 1 :: int Dense) 0 = None \<and>
   Dense_forward (Dense 1 1) [1 :: int] [0] = None"
  by code_simp

section \<open>Copy construction and copy assignment\<close>

text \<open>
  Claim C7. The copy constructors of the dense, LSTM and GRU layers take only the sizes of
  their source: the copy is the layer the constructor makes for these sizes, whatever the
  weights, biases and state of the source are.
\<close>

theorem copy_constructor_shape_only:
  "Dense_copy d = Dense (in_size d) (out_size d) \<and>
   Dense_copy (d\<lparr>subLayers := sl\<rparr>) = Dense_copy d \<and>
   LSTM_copy l = LSTMLayer (in_size l) (out_size l) \<and>
   LSTM_copy (l\<lparr>Wf := a1, Wi := a2, Wo := a3, Wc := a4, Uf := a5, Ui := a6, Uo := a7, Uc := a8,
                bf := a9, bi := a10, bo := a11, bc := a12, fVec := a13, iVec := a14, oVec := a15,
                ctVec := a16, LSTMLayer.cVec := a17, LSTMLayer.inVec := a18,
                LSTMLayer.ht1 := a19, ct1 := a20\<rparr>) = LSTM_copy l \<and>
   GRU_copy g = GRULayer (in_size g) (out_size g) \<and>
   GRU_copy (g\<lparr>wVec_z := e1, wVec_r := e2, wVec_c := e3, uVec_z := e4, uVec_r := e5,
               uVec_c := e6, bVec_z := e7, bVec_r := e8, bVec_c := e9, GRULayer.ht1 := e10,
               zVec := e11, rVec := e12, GRULayer.cVec := e13, GRULayer.inVec := e14,
               ones := e15\<rparr>) = GRU_copy g"
  by (simp add: Dense_copy_def LSTM_copy_def GRU_copy_def)

text \<open>
  Claim C10. The copy assignment operators of the dense, LSTM and GRU layers call themselves
  on a fresh temporary, without a base case: for every pair of layers the call does not
  return.
\<close>

theorem assign_never_returns:
  "Dense_assign d1 d2 = None \<and> LSTM_assign l1 l2 = None \<and> GRU_assign g1 g2 = None"
proof -
  have "Dense_assign d1 d2 \<noteq> Some y" for y
  proof
    assume "Dense_assign d1 d2 = Some y"
    then show False
      by (rule Dense_assign.raw_induct[where P = "\<lambda>_ _ _. False", rotated])
  qed
  moreover have "LSTM_assign l1 l2 \<noteq> Some y" for y
  proof
    assume "LSTM_assign l1 l2 = Some y"
    then show False
      by (rule LSTM_assign.raw_induct[where P = "\<lambda>_ _ _. False", rotated])
  qed
  moreover have "GRU_assign g1 g2 \<noteq> Some y" for y
  proof
    assume "GRU_assign g1 g2 = Some y"
    then show False
      by (rule GRU_assign.raw_induct[where P = "\<lambda>_ _ _. False", rotated])
  qed
  ultimately show ?thesis
    by (metis not_Some_eq)
qed

section \<open>LSTM state: reset and forward\<close>

lemma for_step_sim:
  assumes inc: "0 < inc" and R: "R s t" and run: "for_step i n inc body s = Some s'"
    and step: "\<And>j u v u'. R u v \<Longrightarrow> body j u = Some u' \<Longrightarrow> \<exists>v'. body' j v = Some v' \<and> R u' v'"
  shows "\<exists>t'. for_step i n inc body' t = Some t' \<and> R s' t'"
  using R run
proof (induction "n - i" arbitrary: i s t rule: less_induct)
  case less
  show ?case
  proof (cases "i < n")
    case True
    from less.prems(2) True obtain u where
      u: "body i s = Some u" "for_step (i + inc) n inc body u = Some s'"
      by (subst (asm) for_step.simps) (auto split: option.splits)
    from step[OF less.prems(1) u(1)] obtain v where v: "body' i t = Some v" "R u v"
      by blast
    have "n - (i + inc) < n - i"
      using True inc by arith
    from less.hyps[OF this v(2) u(2)] obtain t' where
      "for_step (i + inc) n inc body' v = Some t'" "R s' t'"
      by blast
    then show ?thesis
      using True v(1) by (subst for_step.simps) auto
  next
    case False
    then have "s' = s"
      using less.prems(2) by (subst (asm) for_step.simps) simp
    moreover have "for_step i n inc body' t = Some t"
      using False by (subst for_step.simps) simp
    ultimately show ?thesis
      using less.prems(1) by blast
  qed
qed

lemma for_step_preserves:
  assumes "0 < inc" "P s" "for_step i n inc body s = Some s'"
    and "\<And>j u u'. P u \<Longrightarrow> body j u = Some u' \<Longrightarrow> P u'"
  shows "P s'"
  using for_step_sim[where R = "\<lambda>u (v::unit). P u" and body' = "\<lambda>j v. Some v" and t = "()",
      OF assms(1,2,3)] assms(4)
  by blast

lemma coeff_assign_keeps_ok:
  "coeff_assign m r c v = Some m' \<Longrightarrow> Matrix_ok R C m \<Longrightarrow> Matrix_ok R C m'"
  by (auto simp: coeff_assign_def wr_def Matrix_ok_def split: if_splits)

lemma coeff_lin_assign_keeps_ok:
  "coeff_lin_assign m k v = Some m' \<Longrightarrow> Matrix_ok R C m \<Longrightarrow> Matrix_ok R C m'"
  by (auto simp: coeff_lin_assign_def wr_def Matrix_ok_def split: if_splits)

lemma LSTM_setWVals_body_keeps:
  assumes "LSTM_setWVals_body w i k u = Some u'" "LSTM_ok u"
  shows "LSTM_ok u' \<and> in_size u' = in_size u \<and> out_size u' = out_size u \<and>
         LSTMLayer.ht1 u' = LSTMLayer.ht1 u \<and> ct1 u' = ct1 u"
  using assms
  by (auto simp: LSTM_setWVals_body_def LSTM_ok_def bind_eq_Some_conv Let_def
      dest: coeff_assign_keeps_ok)

lemma LSTM_setWVals_body_sim:
  assumes "LSTM_config u = LSTM_config v" "LSTM_setWVals_body w i k u = Some u'"
  shows "\<exists>v'. LSTM_setWVals_body w i k v = Some v' \<and> LSTM_config u' = LSTM_config v'"
  using assms
  by (auto simp: LSTM_setWVals_body_def LSTM_config_def bind_eq_Some_conv Let_def)

lemma LSTM_setWVals_keeps:
  fixes l :: "'a LSTMLayer"
  assumes run: "LSTM_setWVals l w = Some l'" and ok: "LSTM_ok l"
  shows "LSTM_ok l' \<and> in_size l' = in_size l \<and> out_size l' = out_size l \<and>
         LSTMLayer.ht1 l' = LSTMLayer.ht1 l \<and> ct1 l' = ct1 l"
proof -
  let ?P = "\<lambda>t :: 'a LSTMLayer. LSTM_ok t \<and> in_size t = in_size l \<and> out_size t = out_size l \<and>
              LSTMLayer.ht1 t = LSTMLayer.ht1 l \<and> ct1 t = ct1 l"
  have inner: "?P t'" if "?P t" "for_step 0 (out_size l) 1 (LSTM_setWVals_body w i) t = Some t'"
    for i and t t' :: "'a LSTMLayer"
  proof (rule for_step_preserves[where P = ?P, OF _ that])
    show "0 < (1::nat)" by simp
    fix k and u u' :: "'a LSTMLayer"
    assume "?P u" "LSTM_setWVals_body w i k u = Some u'"
    then show "?P u'"
      using LSTM_setWVals_body_keeps[of w i k u u'] by simp
  qed
  have "?P l'"
  proof (rule for_step_preserves[where P = ?P])
    show "0 < (1::nat)" by simp
    show "?P l" using ok by simp
    show "for_step 0 (in_size l) 1 (\<lambda>i. for_step 0 (out_size l) 1 (LSTM_setWVals_body w i)) l = Some l'"
      using run by (simp add: LSTM_setWVals_def)
  qed (rule inner)
  then show ?thesis .
qed

lemma LSTM_setWVals_sim:
  fixes l l0 :: "'a LSTMLayer"
  assumes cfg: "LSTM_config l = LSTM_config l0" and run: "LSTM_setWVals l w = Some l'"
  shows "\<exists>l0'. LSTM_setWVals l0 w = Some l0' \<and> LSTM_config l' = LSTM_config l0'"
proof -
  let ?R = "\<lambda>u v :: 'a LSTMLayer. LSTM_config u = LSTM_config v"
  have sz: "in_size l0 = in_size l" "out_size l0 = out_size l"
    using cfg by (simp_all add: LSTM_config_def)
  have inner: "\<exists>v'. for_step 0 (out_size l) 1 (LSTM_setWVals_body w i) v = Some v' \<and> ?R u' v'"
    if "?R u v" "for_step 0 (out_size l) 1 (LSTM_setWVals_body w i) u = Some u'"
    for i and u v u' :: "'a LSTMLayer"
  proof (rule for_step_sim[where R = ?R, OF _ that])
    show "0 < (1::nat)" by simp
    fix k and a b a' :: "'a LSTMLayer"
    assume "?R a b" "LSTM_setWVals_body w i k a = Some a'"
    then show "\<exists>b'. LSTM_setWVals_body w i k b = Some b' \<and> ?R a' b'"
      by (rule LSTM_setWVals_body_sim)
  qed
  have "\<exists>t'. for_step 0 (in_size l) 1 (\<lambda>i. for_step 0 (out_size l) 1 (LSTM_setWVals_body w i)) l0 = Some t' \<and>
          ?R l' t'"
  proof (rule for_step_sim[where R = ?R])
    show "0 < (1::nat)" by simp
    show "?R l l0" by (rule cfg)
    show "for_step 0 (in_size l) 1 (\<lambda>i. for_step 0 (out_size l) 1 (LSTM_setWVals_body w i)) l = Some l'"
      using run by (simp add: LSTM_setWVals_def)
  qed (rule inner)
  then show ?thesis
    by (simp add: LSTM_setWVals_def sz)
qed

lemma LSTM_setUVals_body_keeps:
  assumes "LSTM_setUVals_body w i k u = Some u'" "LSTM_ok u"
  shows "LSTM_ok u' \<and> in_size u' = in_size u \<and> out_size u' = out_size u \<and>
         LSTMLayer.ht1 u' = LSTMLayer.ht1 u \<and> ct1 u' = ct1 u"
  using assms
  by (auto simp: LSTM_setUVals_body_def LSTM_ok_def bind_eq_Some_conv Let_def
      dest: coeff_assign_keeps_ok)

lemma LSTM_setUVals_body_sim:
  assumes "LSTM_config u = LSTM_config v" "LSTM_setUVals_body w i k u = Some u'"
  shows "\<exists>v'. LSTM_setUVals_body w i k v = Some v' \<and> LSTM_config u' = LSTM_config v'"
  using assms
  by (auto simp: LSTM_setUVals_body_def LSTM_config_def bind_eq_Some_conv Let_def)

lemma LSTM_setUVals_keeps:
  fixes l :: "'a LSTMLayer"
  assumes run: "LSTM_setUVals l w = Some l'" and ok: "LSTM_ok l"
  shows "LSTM_ok l' \<and> in_size l' = in_size l \<and> out_size l' = out_size l \<and>
         LSTMLayer.ht1 l' = LSTMLayer.ht1 l \<and> ct1 l' = ct1 l"
proof -
  let ?P = "\<lambda>t :: 'a LSTMLayer. LSTM_ok t \<and> in_size t = in_size l \<and> out_size t = out_size l \<and>
              LSTMLayer.ht1 t = LSTMLayer.ht1 l \<and> ct1 t = ct1 l"
  have inner: "?P t'" if "?P t" "for_step 0 (out_size l) 1 (LSTM_setUVals_body w i) t = Some t'"
    for i and t t' :: "'a LSTMLayer"
  proof (rule for_step_preserves[where P = ?P, OF _ that])
    show "0 < (1::nat)" by simp
    fix k and u u' :: "'a LSTMLayer"
    assume "?P u" "LSTM_setUVals_body w i k u = Some u'"
    then show "?P u'"
      using LSTM_setUVals_body_keeps[of w i k u u'] by simp
  qed
  have "?P l'"
  proof (rule for_step_preserves[where P = ?P])
    show "0 < (1::nat)" by simp
    show "?P l" using ok by simp
    show "for_step 0 (out_size l) 1 (\<lambda>i. for_step 0 (out_size l) 1 (LSTM_setUVals_body w i)) l = Some l'"
      using run by (simp add: LSTM_setUVals_def)
  qed (rule inner)
  then show ?thesis .
qed

lemma LSTM_setUVals_sim:
  fixes l l0 :: "'a LSTMLayer"
  assumes cfg: "LSTM_config l = LSTM_config l0" and run: "LSTM_setUVals l w = Some l'"
  shows "\<exists>l0'. LSTM_setUVals l0 w = Some l0' \<and> LSTM_config l' = LSTM_config l0'"
proof -
  let ?R = "\<lambda>u v :: 'a LSTMLayer. LSTM_config u = LSTM_config v"
  have sz: "in_size l0 = in_size l" "out_size l0 = out_size l"
    using cfg by (simp_all add: LSTM_config_def)
  have inner: "\<exists>v'. for_step 0 (out_size l) 1 (LSTM_setUVals_body w i) v = Some v' \<and> ?R u' v'"
    if "?R u v" "for_step 0 (out_size l) 1 (LSTM_setUVals_body w i) u = Some u'"
    for i and u v u' :: "'a LSTMLayer"
  proof (rule for_step_sim[where R = ?R, OF _ that])
    show "0 < (1::nat)" by simp
    fix k and a b a' :: "'a LSTMLayer"
    assume "?R a b" "LSTM_setUVals_body w i k a = Some a'"
    then show "\<exists>b'. LSTM_setUVals_body w i k b = Some b' \<and> ?R a' b'"
      by (rule LSTM_setUVals_body_sim)
  qed
  have "\<exists>t'. for_step 0 (out_size l) 1 (\<lambda>i. for_step 0 (out_size l) 1 (LSTM_setUVals_body w i)) l0 = Some t' \<and>
          ?R l' t'"
  proof (rule for_step_sim[where R = ?R])
    show "0 < (1::nat)" by simp
    show "?R l l0" by (rule cfg)
    show "for_step 0 (out_size l) 1 (\<lambda>i. for_step 0 (out_size l) 1 (LSTM_setUVals_body w i)) l = Some l'"
      using run by (simp add: LSTM_setUVals_def)
  qed (rule inner)
  then show ?thesis
    by (simp add: LSTM_setUVals_def sz)
qed

lemma LSTM_setBVals_body_keeps:
  assumes "LSTM_setBVals_body w k u = Some u'" "LSTM_ok u"
  shows "LSTM_ok u' \<and> in_size u' = in_size u \<and> out_size u' = out_size u \<and>
         LSTMLayer.ht1 u' = LSTMLayer.ht1 u \<and> ct1 u' = ct1 u"
  using assms
  by (auto simp: LSTM_setBVals_body_def LSTM_ok_def bind_eq_Some_conv Let_def
      dest: coeff_lin_assign_keeps_ok)

lemma LSTM_setBVals_body_sim:
  assumes "LSTM_config u = LSTM_config v" "LSTM_setBVals_body w k u = Some u'"
  shows "\<exists>v'. LSTM_setBVals_body w k v = Some v' \<and> LSTM_config u' = LSTM_config v'"
  using assms
  by (auto simp: LSTM_setBVals_body_def LSTM_config_def bind_eq_Some_conv Let_def)

lemma LSTM_setBVals_keeps:
  fixes l :: "'a LSTMLayer"
  assumes run: "LSTM_setBVals l w = Some l'" and ok: "LSTM_ok l"
  shows "LSTM_ok l' \<and> in_size l' = in_size l \<and> out_size l' = out_size l \<and>
         LSTMLayer.ht1 l' = LSTMLayer.ht1 l \<and> ct1 l' = ct1 l"
proof -
  let ?P = "\<lambda>t :: 'a LSTMLayer. LSTM_ok t \<and> in_size t = in_size l \<and> out_size t = out_size l \<and>
              LSTMLayer.ht1 t = LSTMLayer.ht1 l \<and> ct1 t = ct1 l"
  have "?P l'"
  proof (rule for_step_preserves[where P = ?P])
    show "0 < (1::nat)" by simp
    show "?P l" using ok by simp
    show "for_step 0 (out_size l) 1 (LSTM_setBVals_body w) l = Some l'"
      using run by (simp add: LSTM_setBVals_def)
    fix k and u u' :: "'a LSTMLayer"
    assume "?P u" "LSTM_setBVals_body w k u = Some u'"
    then show "?P u'"
      using LSTM_setBVals_body_keeps[of w k u u'] by simp
  qed
  then show ?thesis .
qed

lemma LSTM_setBVals_sim:
  fixes l l0 :: "'a LSTMLayer"
  assumes cfg: "LSTM_config l = LSTM_config l0" and run: "LSTM_setBVals l w = Some l'"
  shows "\<exists>l0'. LSTM_setBVals l0 w = Some l0' \<and> LSTM_config l' = LSTM_config l0'"
proof -
  let ?R = "\<lambda>u v :: 'a LSTMLayer. LSTM_config u = LSTM_config v"
  have sz: "in_size l0 = in_size l" "out_size l0 = out_size l"
    using cfg by (simp_all add: LSTM_config_def)
  have "\<exists>t'. for_step 0 (out_size l) 1 (LSTM_setBVals_body w) l0 = Some t' \<and> ?R l' t'"
  proof (rule for_step_sim[where R = ?R])
    show "0 < (1::nat)" by simp
    show "?R l l0" by (rule cfg)
    show "for_step 0 (out_size l) 1 (LSTM_setBVals_body w) l = Some l'"
      using run by (simp add: LSTM_setBVals_def)
    fix k and a b a' :: "'a LSTMLayer"
    assume "?R a b" "LSTM_setBVals_body w k a = Some a'"
    then show "\<exists>b'. LSTM_setBVals_body w k b = Some b' \<and> ?R a' b'"
      by (rule LSTM_setBVals_body_sim)
  qed
  then show ?thesis
    by (simp add: LSTM_setBVals_def sz)
qed

lemma fill_ok:
  assumes "length xs = m"
  shows "fill xs 0 m v = Some (replicate m v)"
proof -
  let ?ok = "\<lambda>t :: 'a list. length t = m"
  let ?Q = "\<lambda>k (t :: 'a list). t ! k = v"
  have "\<exists>s'. for_step 0 m 1 (\<lambda>k xs. wr xs k v) xs = Some s' \<and> ?ok s' \<and> (\<forall>k<m. ?Q k s')"
  proof (rule for_fill[where ok = ?ok and Q = ?Q])
    show "?ok xs" using assms by simp
    fix k and t :: "'a list"
    assume "k < m" "?ok t"
    then show "\<exists>t'. wr t k v = Some t' \<and> ?ok t' \<and> ?Q k t' \<and> (\<forall>k'. ?Q k' t \<longrightarrow> ?Q k' t')"
      by (auto simp: wr_def nth_list_update)
  qed
  then obtain s' where s': "for_step 0 m 1 (\<lambda>k xs. wr xs k v) xs = Some s'" "length s' = m"
    "\<forall>k<m. s' ! k = v"
    by blast
  have "s' = replicate m v"
    using s'(2,3) by (intro nth_equalityI) simp_all
  then show ?thesis
    using s'(1) by (simp add: fill_def)
qed

lemma Matrix_ok_zero_data:
  "Matrix_ok m 1 a \<Longrightarrow> a\<lparr>data := replicate m 0\<rparr> = Matrix_Zero m 1"
  by (cases a) (simp add: Matrix_ok_def Matrix_Zero_def)

lemma LSTM_reset_ok:
  fixes l :: "'a::zero LSTMLayer"
  assumes "LSTM_ok l"
  shows "\<exists>lr. LSTM_reset l = Some lr \<and> LSTM_ok lr \<and> LSTM_config lr = LSTM_config l \<and>
           LSTMLayer.ht1 lr = Matrix_Zero (out_size l) 1 \<and> ct1 lr = Matrix_Zero (out_size l) 1"
proof -
  let ?m = "out_size l"
  have h: "Matrix_ok ?m 1 (LSTMLayer.ht1 l)" and c: "Matrix_ok ?m 1 (ct1 l)"
    using assms by (simp_all add: LSTM_ok_def)
  have fh: "fill (data (LSTMLayer.ht1 l)) 0 ?m 0 = Some (replicate ?m 0)"
    using h by (intro fill_ok) (simp add: Matrix_ok_def)
  have fc: "fill (data (ct1 l)) 0 ?m 0 = Some (replicate ?m 0)"
    using c by (intro fill_ok) (simp add: Matrix_ok_def)
  let ?lr = "l\<lparr>LSTMLayer.ht1 := Matrix_Zero ?m 1, ct1 := Matrix_Zero ?m 1\<rparr>"
  have "LSTM_reset l = Some ?lr"
    by (simp add: LSTM_reset_def fh fc Matrix_ok_zero_data[OF h] Matrix_ok_zero_data[OF c])
  moreover have "LSTM_ok ?lr"
    using assms by (simp add: LSTM_ok_def Matrix_Zero_ok)
  moreover have "LSTM_config ?lr = LSTM_config l"
    by (simp add: LSTM_config_def)
  ultimately show ?thesis
    by simp
qed

lemma LSTM_step_length:
  "length (fst (LSTM_step sg th l x)) = out_size l" "length (snd (LSTM_step sg th l x)) = out_size l"
  by (simp_all add: LSTM_step_def Let_def)

lemma LSTM_step_cong:
  assumes "LSTM_config l = LSTM_config l'" "LSTMLayer.ht1 l = LSTMLayer.ht1 l'" "ct1 l = ct1 l'"
  shows "LSTM_step sg th l x = LSTM_step sg th l' x"
  using assms by (simp add: LSTM_step_def LSTM_config_def)

lemma LSTM_forward_keeps:
  assumes "LSTM_forward sg th l x = Some (l', y)"
  shows "LSTM_ok l' \<and> LSTM_config l' = LSTM_config l"
proof -
  obtain h c where hc: "LSTM_step sg th l x = (h, c)"
    by (cases "LSTM_step sg th l x")
  have len: "length h = out_size l" "length c = out_size l"
    using LSTM_step_length[of sg th l x] hc by simp_all
  have ok: "LSTM_ok l"
    and l': "l' = l\<lparr>LSTMLayer.ht1 := (LSTMLayer.ht1 l)\<lparr>data := h\<rparr>, ct1 := (ct1 l)\<lparr>data := c\<rparr>\<rparr>"
    using assms hc by (auto simp: LSTM_forward_def split: if_splits)
  have "Matrix_ok (out_size l) 1 ((LSTMLayer.ht1 l)\<lparr>data := h\<rparr>)"
    "Matrix_ok (out_size l) 1 ((ct1 l)\<lparr>data := c\<rparr>)"
    using ok len by (simp_all add: LSTM_ok_def Matrix_ok_def)
  then have "LSTM_ok l'"
    using ok by (simp add: l' LSTM_ok_def)
  moreover have "LSTM_config l' = LSTM_config l"
    by (simp add: l' LSTM_config_def)
  ultimately show ?thesis by simp
qed

lemma LSTM_forward_cong:
  assumes "LSTM_config l = LSTM_config l'" "LSTMLayer.ht1 l = LSTMLayer.ht1 l'" "ct1 l = ct1 l'"
  shows "map_option snd (LSTM_forward sg th l x) = map_option snd (LSTM_forward sg th l' x)"
proof -
  have "LSTM_ok l = LSTM_ok l'"
    using assms by (simp add: LSTM_ok_def LSTM_config_def)
  moreover have "in_size l = in_size l'"
    using assms by (simp add: LSTM_config_def)
  ultimately show ?thesis
    using LSTM_step_cong[OF assms, of sg th x]
    by (simp add: LSTM_forward_def split: prod.splits)
qed

lemma LSTM_forward_returns:
  "LSTM_ok l \<Longrightarrow> length x = in_size l \<Longrightarrow> LSTM_forward sg th l x \<noteq> None"
  by (simp add: LSTM_forward_def split: prod.splits)

lemma LSTM_do_keeps:
  assumes "LSTM_do sg th l c = Some l'" "LSTM_ok l"
  shows "LSTM_ok l' \<and> in_size l' = in_size l \<and> out_size l' = out_size l"
proof (cases c)
  case (SetWVals w)
  then show ?thesis using assms LSTM_setWVals_keeps[of l w l'] by simp
next
  case (SetUVals u)
  then show ?thesis using assms LSTM_setUVals_keeps[of l u l'] by simp
next
  case (SetBVals b)
  then show ?thesis using assms LSTM_setBVals_keeps[of l b l'] by simp
next
  case (Forward x)
  then obtain y where "LSTM_forward sg th l x = Some (l', y)"
    using assms by auto
  from LSTM_forward_keeps[OF this] show ?thesis
    by (simp add: LSTM_config_def)
next
  case Reset
  then show ?thesis
    using assms LSTM_reset_ok[OF assms(2)] by (auto simp: LSTM_config_def)
qed

lemma LSTM_history_keeps:
  "LSTM_history sg th l cs = Some l' \<Longrightarrow> LSTM_ok l \<Longrightarrow>
     LSTM_ok l' \<and> in_size l' = in_size l \<and> out_size l' = out_size l"
proof (induction cs arbitrary: l)
  case Nil
  then show ?case by simp
next
  case (Cons c cs)
  from Cons.prems(1) obtain l1 where l1: "LSTM_do sg th l c = Some l1"
    "LSTM_history sg th l1 cs = Some l'"
    by (auto split: option.splits)
  from LSTM_do_keeps[OF l1(1) Cons.prems(2)] Cons.IH[OF l1(2)] show ?case
    by simp
qed

lemma LSTM_history_setters:
  assumes "LSTM_history sg th l cs = Some l'" "LSTM_ok l" "LSTM_ok l0"
    and "LSTM_config l = LSTM_config l0"
  shows "\<exists>l0'. LSTM_history sg th l0 (filter is_setter cs) = Some l0' \<and>
           LSTM_config l' = LSTM_config l0' \<and>
           LSTMLayer.ht1 l0' = LSTMLayer.ht1 l0 \<and> ct1 l0' = ct1 l0"
  using assms
proof (induction cs arbitrary: l l0)
  case Nil
  then show ?case by simp
next
  case (Cons c cs)
  from Cons.prems(1) obtain l1 where l1: "LSTM_do sg th l c = Some l1"
    "LSTM_history sg th l1 cs = Some l'"
    by (auto split: option.splits)
  have ok1: "LSTM_ok l1"
    using LSTM_do_keeps[OF l1(1) Cons.prems(2)] by simp
  show ?case
  proof (cases "is_setter c")
    case True
    have "\<exists>l2. LSTM_do sg th l0 c = Some l2 \<and> LSTM_config l1 = LSTM_config l2 \<and> LSTM_ok l2 \<and>
            LSTMLayer.ht1 l2 = LSTMLayer.ht1 l0 \<and> ct1 l2 = ct1 l0"
    proof (cases c)
      case (SetWVals w)
      with l1(1) LSTM_setWVals_sim[OF Cons.prems(4), of w l1] obtain l2 where
        "LSTM_setWVals l0 w = Some l2" "LSTM_config l1 = LSTM_config l2"
        by auto
      then show ?thesis
        using SetWVals LSTM_setWVals_keeps[of l0 w l2] Cons.prems(3) by simp
    next
      case (SetUVals u)
      with l1(1) LSTM_setUVals_sim[OF Cons.prems(4), of u l1] obtain l2 where
        "LSTM_setUVals l0 u = Some l2" "LSTM_config l1 = LSTM_config l2"
        by auto
      then show ?thesis
        using SetUVals LSTM_setUVals_keeps[of l0 u l2] Cons.prems(3) by simp
    next
      case (SetBVals b)
      with l1(1) LSTM_setBVals_sim[OF Cons.prems(4), of b l1] obtain l2 where
        "LSTM_setBVals l0 b = Some l2" "LSTM_config l1 = LSTM_config l2"
        by auto
      then show ?thesis
        using SetBVals LSTM_setBVals_keeps[of l0 b l2] Cons.prems(3) by simp
    next
      case (Forward x)
      then show ?thesis using True by simp
    next
      case Reset
      then show ?thesis using True by simp
    qed
    then obtain l2 where l2: "LSTM_do sg th l0 c = Some l2" "LSTM_config l1 = LSTM_config l2"
      "LSTM_ok l2" "LSTMLayer.ht1 l2 = LSTMLayer.ht1 l0" "ct1 l2 = ct1 l0"
      by blast
    from Cons.IH[OF l1(2) ok1 l2(3) l2(2)] obtain l0' where
      "LSTM_history sg th l2 (filter is_setter cs) = Some l0'" "LSTM_config l' = LSTM_config l0'"
      "LSTMLayer.ht1 l0' = LSTMLayer.ht1 l2" "ct1 l0' = ct1 l2"
      by blast
    then show ?thesis
      using True l2(1,4,5) by simp
  next
    case False
    have "LSTM_config l1 = LSTM_config l"
    proof (cases c)
      case (Forward x)
      then obtain y where "LSTM_forward sg th l x = Some (l1, y)"
        using l1(1) by auto
      from LSTM_forward_keeps[OF this] show ?thesis by simp
    next
      case Reset
      then show ?thesis
        using l1(1) LSTM_reset_ok[OF Cons.prems(2)] by auto
    qed (use False in simp_all)
    then have "LSTM_config l1 = LSTM_config l0"
      using Cons.prems(4) by simp
    from Cons.IH[OF l1(2) ok1 Cons.prems(3) this] show ?thesis
      using False by simp
  qed
qed

text \<open>
  Claim C3. Let an LSTM layer be constructed with sizes \<open>n\<close> and \<open>m\<close> and go through any
  history of calls of its setters, of \<open>forward\<close> and of \<open>reset\<close>. Then \<open>reset()\<close> returns and
  leaves the hidden state \<open>ht1\<close> and the cell state \<open>ct1\<close> exactly zero, as the constructor
  does; the setter calls of the history alone configure a just-constructed layer; and for
  every input \<open>x\<close>, \<open>forward(x)\<close> after \<open>reset()\<close> returns the output that \<open>forward(x)\<close> returns
  on that just-constructed, identically configured layer (and it does return one when \<open>x\<close> has
  \<open>n\<close> entries). The forward pass is the one modelled from the specification, for any two
  functions in the place of \<open>sigmoid\<close> and \<open>tanh\<close>.
\<close>

theorem LSTM_reset_state_pure:
  fixes sg th :: "'a::semiring_0 \<Rightarrow> 'a"
  assumes "LSTM_history sg th (LSTMLayer n m) cs = Some l"
  shows "\<exists>lr l0.
           LSTM_reset l = Some lr \<and>
           LSTMLayer.ht1 lr = Matrix_Zero m 1 \<and> ct1 lr = Matrix_Zero m 1 \<and>
           LSTM_history sg th (LSTMLayer n m) (filter is_setter cs) = Some l0 \<and>
           (length x = n \<longrightarrow> LSTM_forward sg th lr x \<noteq> None) \<and>
           map_option snd (LSTM_forward sg th lr x) = map_option snd (LSTM_forward sg th l0 x)"
proof -
  let ?f = "LSTMLayer n m :: 'a LSTMLayer"
  have okf: "LSTM_ok ?f"
    by (rule LSTMLayer_ok)
  from LSTM_history_keeps[OF assms okf] have okl: "LSTM_ok l" "in_size l = n" "out_size l = m"
    by simp_all
  from LSTM_reset_ok[OF okl(1)] obtain lr where lr: "LSTM_reset l = Some lr" "LSTM_ok lr"
    "LSTM_config lr = LSTM_config l" "LSTMLayer.ht1 lr = Matrix_Zero m 1" "ct1 lr = Matrix_Zero m 1"
    using okl(3) by auto
  from LSTM_history_setters[OF assms okf okf refl] obtain l0 where l0:
    "LSTM_history sg th ?f (filter is_setter cs) = Some l0" "LSTM_config l = LSTM_config l0"
    "LSTMLayer.ht1 l0 = LSTMLayer.ht1 ?f" "ct1 l0 = ct1 ?f"
    by blast
  have st: "LSTMLayer.ht1 lr = LSTMLayer.ht1 l0" "ct1 lr = ct1 l0"
    using lr(4,5) l0(3,4) by (simp_all add: LSTMLayer_def)
  have cfg: "LSTM_config lr = LSTM_config l0"
    using lr(3) l0(2) by simp
  have "in_size lr = n"
    using cfg lr(3) okl(2) by (simp add: LSTM_config_def)
  then have "length x = n \<longrightarrow> LSTM_forward sg th lr x \<noteq> None"
    using LSTM_forward_returns[OF lr(2), of x sg th] by simp
  then show ?thesis
    using lr(1,4,5) l0(1) LSTM_forward_cong[OF cfg st, of sg th x] by blast
qed

text \<open>
  The theorem at a layer with one input and one unit, loaded and run on two samples, so that
  its hidden state is not zero when \<open>reset()\<close> is called.
\<close>

theorem LSTM_reset_state_pure_witness:
  "\<exists>l lr l0.
     LSTM_history (\<lambda>v. v + 1) (\<lambda>v. 2 * v) (LSTMLayer 1 1)
       [SetWVals [[1, 2, 3, 4 :: int]], SetUVals [[1, 1, 1, 1]], SetBVals [1, 0, 0, 1],
        Forward [2], Forward [3]] = Some l \<and>
     data (LSTMLayer.ht1 l) \<noteq> [0] \<and>
     LSTM_reset l = Some lr \<and>
     LSTMLayer.ht1 lr = Matrix_Zero 1 1 \<and> ct1 lr = Matrix_Zero 1 1 \<and>
     LSTM_history (\<lambda>v. v + 1) (\<lambda>v. 2 * v) (LSTMLayer 1 1)
       [SetWVals [[1, 2, 3, 4 :: int]], SetUVals [[1, 1, 1, 1]], SetBVals [1, 0, 0, 1]] = Some l0 \<and>
     LSTM_forward (\<lambda>v. v + 1) (\<lambda>v. 2 * v) lr [5] \<noteq> None \<and>
     map_option snd (LSTM_forward (\<lambda>v. v + 1) (\<lambda>v. 2 * v) lr [5]) =
       map_option snd (LSTM_forward (\<lambda>v. v + 1) (\<lambda>v. 2 * v) l0 [5])"
proof -
  let ?sg = "\<lambda>v :: int. v + 1" and ?th = "\<lambda>v :: int. 2 * v"
  let ?cs = "[SetWVals [[1, 2, 3, 4 :: int]], SetUVals [[1, 1, 1, 1]], SetBVals [1, 0, 0, 1],
        Forward [2], Forward [3]]"
  have "case LSTM_history ?sg ?th (LSTMLayer 1 1) ?cs of
          None \<Rightarrow> False | Some l \<Rightarrow> data (LSTMLayer.ht1 l) \<noteq> [0]"
    by code_simp
  then obtain l where l: "LSTM_history ?sg ?th (LSTMLayer 1 1) ?cs = Some l"
    "data (LSTMLayer.ht1 l) \<noteq> [0]"
    by (auto split: option.splits)
  from LSTM_reset_state_pure[OF l(1), of "[5]"] obtain lr l0 where
    "LSTM_reset l = Some lr" "LSTMLayer.ht1 lr = Matrix_Zero 1 1" "ct1 lr = Matrix_Zero 1 1"
    "LSTM_history ?sg ?th (LSTMLayer 1 1) (filter is_setter ?cs) = Some l0"
    "LSTM_forward ?sg ?th lr [5] \<noteq> None"
    "map_option snd (LSTM_forward ?sg ?th lr [5]) = map_option snd (LSTM_forward ?sg ?th l0 [5])"
    by auto
  then show ?thesis
    using l by auto
qed

section \<open>Softmax\<close>

lemma store_aligned_nth:
  assumes "i + length v \<le> length xs"
  shows "\<exists>ys. store_aligned xs i v = Some ys \<and> length ys = length xs \<and>
           (\<forall>k<length xs. ys ! k =
              (if k < i then xs ! k else if k < i + length v then v ! (k - i) else xs ! k))"
  using assms by (auto simp: store_aligned_def nth_append)

lemma stride_step:
  fixes i inc vs :: nat
  assumes "inc dvd i" "inc dvd vs" "i < vs"
  shows "i + inc \<le> vs"
proof -
  obtain p where p: "i = inc * p" using assms(1) by (auto elim: dvdE)
  obtain q where q: "vs = inc * q" using assms(2) by (auto elim: dvdE)
  have "p < q" using assms(3) p q by (metis mult_less_cancel1)
  then have "inc * (p + 1) \<le> inc * q" by (intro mult_le_mono2) simp
  then show ?thesis using p q by simp
qed

lemma vec_size_div:
  fixes inc dm :: nat
  assumes "0 < inc"
  shows "(dm - dm mod inc) div inc = dm div inc"
  using assms by (simp add: minus_mod_eq_mult_div)

text \<open>
  The scalar loop of the exponentials, from \<open>a\<close> to \<open>dm\<close>: it adds the exponentials to the
  accumulator one by one, from left to right.
\<close>

lemma exp_scalar_loop:
  fixes ex :: "'a::plus \<Rightarrow> 'a"
  assumes "a \<le> dm" "dm \<le> length input" "dm \<le> length start"
  shows "\<exists>o'. for_step a dm 1
            (\<lambda>i (out, exp_sum). do {
               x \<leftarrow> rd input i;
               out \<leftarrow> wr out i (ex x);
               y \<leftarrow> rd out i;
               Some (out, exp_sum + y)
             }) (start, acc) = Some (o', foldl (\<lambda>s j. s + ex (input ! j)) acc [a..<dm]) \<and>
           length o' = length start \<and>
           (\<forall>k. a \<le> k \<and> k < dm \<longrightarrow> o' ! k = ex (input ! k)) \<and>
           (\<forall>k<length start. \<not> (a \<le> k \<and> k < dm) \<longrightarrow> o' ! k = start ! k)"
proof -
  let ?body = "\<lambda>i (out, exp_sum). do {
               x \<leftarrow> rd input i;
               out \<leftarrow> wr out i (ex x);
               y \<leftarrow> rd out i;
               Some (out, exp_sum + y)
             }"
  let ?f = "\<lambda>s j. s + ex (input ! j)"
  let ?I = "\<lambda>j (t :: 'a list \<times> 'a). a \<le> j \<and> j \<le> dm \<and> length (fst t) = length start \<and>
              (\<forall>k. a \<le> k \<and> k < j \<longrightarrow> fst t ! k = ex (input ! k)) \<and>
              (\<forall>k<length start. \<not> (a \<le> k \<and> k < j) \<longrightarrow> fst t ! k = start ! k) \<and>
              snd t = foldl ?f acc [a..<j]"
  have "\<exists>j s'. for_step a dm 1 ?body (start, acc) = Some s' \<and> dm \<le> j \<and> ?I j s'"
  proof (rule for_step_rule)
    show "0 < (1::nat)" by simp
    show "?I a (start, acc)" using assms by auto
    fix j and t :: "'a list \<times> 'a"
    assume j: "j < dm" and I: "?I j t"
    obtain ob sb where t: "t = (ob, sb)" by (cases t)
    have run: "?body j t = Some (ob[j := ex (input ! j)], sb + ex (input ! j))"
      using j I assms(2,3) by (simp add: t rd_def wr_def)
    have "?I (j + 1) (ob[j := ex (input ! j)], sb + ex (input ! j))"
      using j I assms(3) by (auto simp: t nth_list_update less_Suc_eq)
    then show "\<exists>t'. ?body j t = Some t' \<and> ?I (j + 1) t'"
      using run by blast
  qed
  then obtain j s' where r: "for_step a dm 1 ?body (start, acc) = Some s'" "dm \<le> j" "?I j s'"
    by blast
  then have "j = dm" by simp
  then show ?thesis
    using r by (cases s') auto
qed

text \<open>
  The loop of the exponentials over the full batches: it adds to the accumulator the
  horizontal sum of each batch, batch after batch.
\<close>

lemma exp_vector_loop:
  fixes exv :: "'a::{zero,plus} \<Rightarrow> 'a" and hadd :: "'a list \<Rightarrow> 'a"
  assumes "0 < inc" "inc dvd vs" "vs \<le> length input" "vs \<le> length out"
  shows "\<exists>o'. for_step 0 vs inc
            (\<lambda>i (out, exp_sum). do {
               x_vec \<leftarrow> load_aligned input i inc;
               let y_vec = map exv x_vec;
               let exp_sum = exp_sum + hadd y_vec;
               out \<leftarrow> store_aligned out i y_vec;
               Some (out, exp_sum)
             }) (out, 0) =
           Some (o', foldl (\<lambda>s b. s + hadd (map exv (take inc (drop (b * inc) input)))) 0
                       [0..<vs div inc]) \<and>
           length o' = length out \<and> (\<forall>k<vs. o' ! k = exv (input ! k)) \<and>
           (\<forall>k. vs \<le> k \<and> k < length out \<longrightarrow> o' ! k = out ! k)"
proof -
  let ?body = "\<lambda>i (out, exp_sum). do {
               x_vec \<leftarrow> load_aligned input i inc;
               let y_vec = map exv x_vec;
               let exp_sum = exp_sum + hadd y_vec;
               out \<leftarrow> store_aligned out i y_vec;
               Some (out, exp_sum)
             }"
  let ?g = "\<lambda>s b. s + hadd (map exv (take inc (drop (b * inc) input)))"
  let ?I = "\<lambda>j (t :: 'a list \<times> 'a). inc dvd j \<and> j \<le> vs \<and> length (fst t) = length out \<and>
              (\<forall>k<j. fst t ! k = exv (input ! k)) \<and>
              (\<forall>k. j \<le> k \<and> k < length out \<longrightarrow> fst t ! k = out ! k) \<and>
              snd t = foldl ?g 0 [0..<j div inc]"
  have "\<exists>j s'. for_step 0 vs inc ?body (out, 0) = Some s' \<and> vs \<le> j \<and> ?I j s'"
  proof (rule for_step_rule)
    show "0 < inc" by (rule assms(1))
    show "?I 0 (out, 0)" by simp
    fix j and t :: "'a list \<times> 'a"
    assume j: "j < vs" and I: "?I j t"
    obtain ob sb where t: "t = (ob, sb)" by (cases t)
    have le: "j + inc \<le> vs"
      using stride_step[of inc j vs] I j assms(2) by simp
    let ?y = "map exv (take inc (drop j input))"
    have ly: "length ?y = inc"
      using le assms(3) by simp
    have ny: "?y ! k = exv (input ! (j + k))" if "k < inc" for k
      using that le assms(3) by simp
    have ld: "load_aligned input j inc = Some (take inc (drop j input))"
      using le assms(3) by (simp add: load_aligned_def)
    have "j + length ?y \<le> length ob"
      using ly le assms(4) I by (simp add: t)
    from store_aligned_nth[OF this] obtain ys where ys: "store_aligned ob j ?y = Some ys"
      "length ys = length ob"
      "\<forall>k<length ob. ys ! k =
         (if k < j then ob ! k else if k < j + length ?y then ?y ! (k - j) else ob ! k)"
      by blast
    have run: "?body j t = Some (ys, sb + hadd ?y)"
      by (simp add: t ld ys(1) Let_def)
    have lo: "length ob = length out"
      using I by (simp add: t)
    have a1: "\<forall>k<j + inc. ys ! k = exv (input ! k)"
    proof (intro allI impI)
      fix k assume k: "k < j + inc"
      then have kl: "k < length ob"
        using le assms(4) lo by simp
      show "ys ! k = exv (input ! k)"
      proof (cases "k < j")
        case True
        then show ?thesis using ys(3) kl I by (simp add: t)
      next
        case False
        then have "ys ! k = ?y ! (k - j)"
          using ys(3) kl k ly by simp
        also have "\<dots> = exv (input ! (j + (k - j)))"
          using ny[of "k - j"] k False by simp
        finally show ?thesis using False by simp
      qed
    qed
    have a2: "\<forall>k. j + inc \<le> k \<and> k < length out \<longrightarrow> ys ! k = out ! k"
      using ys(3) lo ly I by (simp add: t)
    have d1: "(j + inc) div inc = Suc (j div inc)"
      using assms(1) by simp
    have d2: "j div inc * inc = j"
      using I by simp
    have a3: "sb + hadd ?y = foldl ?g 0 [0..<(j + inc) div inc]"
      using I by (simp add: t d1 d2)
    have "?I (j + inc) (ys, sb + hadd ?y)"
      using I le a1 a2 a3 ys(2) lo by simp
    then show "\<exists>t'. ?body j t = Some t' \<and> ?I (j + inc) t'"
      using run by blast
  qed
  then obtain j s' where r: "for_step 0 vs inc ?body (out, 0) = Some s'" "vs \<le> j" "?I j s'"
    by blast
  then have "j = vs" by simp
  then show ?thesis
    using r by (cases s') auto
qed

lemma div_scalar_loop:
  fixes s :: "'a::inverse"
  assumes "a \<le> dm" "dm \<le> length orig"
    and "length start = length orig" "\<forall>k<a. start ! k = orig ! k / s"
    and "\<forall>k. a \<le> k \<and> k < length orig \<longrightarrow> start ! k = orig ! k"
  shows "\<exists>o'. for_step a dm 1 (\<lambda>i out. do { y \<leftarrow> rd out i; wr out i (y / s) }) start = Some o' \<and>
           length o' = length orig \<and> (\<forall>k<dm. o' ! k = orig ! k / s) \<and>
           (\<forall>k. dm \<le> k \<and> k < length orig \<longrightarrow> o' ! k = orig ! k)"
proof -
  let ?body = "\<lambda>i out. do { y \<leftarrow> rd out i; wr out i (y / s) }"
  let ?I = "\<lambda>j (t :: 'a list). j \<le> dm \<and> length t = length orig \<and>
              (\<forall>k<j. t ! k = orig ! k / s) \<and>
              (\<forall>k. j \<le> k \<and> k < length orig \<longrightarrow> t ! k = orig ! k)"
  have "\<exists>j s'. for_step a dm 1 ?body start = Some s' \<and> dm \<le> j \<and> ?I j s'"
  proof (rule for_step_rule)
    show "0 < (1::nat)" by simp
    show "?I a start" using assms by simp
    fix j and t :: "'a list"
    assume j: "j < dm" and I: "?I j t"
    have run: "?body j t = Some (t[j := orig ! j / s])"
      using j I assms(2) by (simp add: rd_def wr_def)
    have "?I (j + 1) (t[j := orig ! j / s])"
      using j I assms(2) by (auto simp: nth_list_update less_Suc_eq)
    then show "\<exists>t'. ?body j t = Some t' \<and> ?I (j + 1) t'"
      using run by blast
  qed
  then obtain j s' where r: "for_step a dm 1 ?body start = Some s'" "dm \<le> j" "?I j s'"
    by blast
  then have "j = dm" by simp
  then show ?thesis
    using r by auto
qed

lemma div_vector_loop:
  fixes s :: "'a::inverse"
  assumes "0 < inc" "inc dvd vs" "vs \<le> length orig"
  shows "\<exists>o'. for_step 0 vs inc
            (\<lambda>i out. do {
               x_vec \<leftarrow> load_aligned out i inc;
               let y_vec = map (\<lambda>x. x / s) x_vec;
               store_aligned out i y_vec
             }) orig = Some o' \<and>
           length o' = length orig \<and> (\<forall>k<vs. o' ! k = orig ! k / s) \<and>
           (\<forall>k. vs \<le> k \<and> k < length orig \<longrightarrow> o' ! k = orig ! k)"
proof -
  let ?body = "\<lambda>i out. do {
               x_vec \<leftarrow> load_aligned out i inc;
               let y_vec = map (\<lambda>x. x / s) x_vec;
               store_aligned out i y_vec
             }"
  let ?I = "\<lambda>j (t :: 'a list). inc dvd j \<and> j \<le> vs \<and> length t = length orig \<and>
              (\<forall>k<j. t ! k = orig ! k / s) \<and>
              (\<forall>k. j \<le> k \<and> k < length orig \<longrightarrow> t ! k = orig ! k)"
  have "\<exists>j s'. for_step 0 vs inc ?body orig = Some s' \<and> vs \<le> j \<and> ?I j s'"
  proof (rule for_step_rule)
    show "0 < inc" by (rule assms(1))
    show "?I 0 orig" by simp
    fix j and t :: "'a list"
    assume j: "j < vs" and I: "?I j t"
    have le: "j + inc \<le> vs"
      using stride_step[of inc j vs] I j assms(2) by simp
    have lt: "length t = length orig"
      using I by simp
    let ?y = "map (\<lambda>x. x / s) (take inc (drop j t))"
    have ly: "length ?y = inc"
      using le assms(3) lt by simp
    have ny: "?y ! k = orig ! (j + k) / s" if "k < inc" for k
      using that le assms(3) lt I by simp
    have ld: "load_aligned t j inc = Some (take inc (drop j t))"
      using le assms(3) lt by (simp add: load_aligned_def)
    have "j + length ?y \<le> length t"
      using ly le assms(3) lt by simp
    from store_aligned_nth[OF this] obtain ys where ys: "store_aligned t j ?y = Some ys"
      "length ys = length t"
      "\<forall>k<length t. ys ! k =
         (if k < j then t ! k else if k < j + length ?y then ?y ! (k - j) else t ! k)"
      by blast
    have run: "?body j t = Some ys"
      by (simp add: ld ys(1) Let_def)
    have a1: "\<forall>k<j + inc. ys ! k = orig ! k / s"
    proof (intro allI impI)
      fix k assume k: "k < j + inc"
      then have kl: "k < length t"
        using le assms(3) lt by simp
      show "ys ! k = orig ! k / s"
      proof (cases "k < j")
        case True
        then show ?thesis using ys(3) kl I by simp
      next
        case False
        then have "ys ! k = ?y ! (k - j)"
          using ys(3) kl k ly by simp
        also have "\<dots> = orig ! (j + (k - j)) / s"
          using ny[of "k - j"] k False by simp
        finally show ?thesis using False by simp
      qed
    qed
    have a2: "\<forall>k. j + inc \<le> k \<and> k < length orig \<longrightarrow> ys ! k = orig ! k"
      using ys(3) lt ly I by simp
    have "?I (j + inc) ys"
      using I le a1 a2 ys(2) lt by simp
    then show "\<exists>t'. ?body j t = Some t' \<and> ?I (j + inc) t'"
      using run by blast
  qed
  then obtain j s' where r: "for_step 0 vs inc ?body orig = Some s'" "vs \<le> j" "?I j s'"
    by blast
  then have "j = vs" by simp
  then show ?thesis
    using r by auto
qed

lemma softmax_stl_exp_loop_ok:
  fixes ex :: "'a::{zero,plus} \<Rightarrow> 'a"
  assumes "dm \<le> length input" "dm \<le> length out"
  shows "\<exists>e. softmax_stl_exp_loop ex input out dm = Some (e, stl_exp_sum ex input dm) \<and>
           length e = length out \<and> (\<forall>k<dm. e ! k = ex (input ! k)) \<and>
           (\<forall>k. dm \<le> k \<and> k < length out \<longrightarrow> e ! k = out ! k)"
proof -
  have z: "0 \<le> dm" by simp
  from exp_scalar_loop[OF z assms, where ex = ex and acc = 0] show ?thesis
    unfolding softmax_stl_exp_loop_def stl_exp_sum_def
    by (elim exE conjE, intro exI conjI) (assumption, assumption, simp, simp)
qed

lemma softmax_stl_ok:
  fixes ex :: "'a::{zero,plus,inverse} \<Rightarrow> 'a"
  assumes "dm \<le> length input" "dm \<le> length out"
  shows "\<exists>e r. softmax_stl_exp_loop ex input out dm = Some (e, stl_exp_sum ex input dm) \<and>
           softmax_stl ex input out dm = Some r \<and> length r = length out \<and>
           (\<forall>k<dm. e ! k = ex (input ! k)) \<and>
           (\<forall>k<dm. r ! k = ex (input ! k) / stl_exp_sum ex input dm) \<and>
           (\<forall>k. dm \<le> k \<and> k < length out \<longrightarrow> r ! k = out ! k)"
proof -
  let ?S = "stl_exp_sum ex input dm"
  from softmax_stl_exp_loop_ok[OF assms, of ex] obtain e where e:
    "softmax_stl_exp_loop ex input out dm = Some (e, ?S)"
    "length e = length out" "\<forall>k<dm. e ! k = ex (input ! k)"
    "\<forall>k. dm \<le> k \<and> k < length out \<longrightarrow> e ! k = out ! k"
    by blast
  from div_scalar_loop[where a = 0 and dm = dm and orig = e and start = e and s = ?S]
    assms e(2) obtain r where r:
    "for_step 0 dm 1 (\<lambda>i out. do { y \<leftarrow> rd out i; wr out i (y / ?S) }) e = Some r"
    "length r = length e" "\<forall>k<dm. r ! k = e ! k / ?S"
    "\<forall>k. dm \<le> k \<and> k < length e \<longrightarrow> r ! k = e ! k"
    by auto
  have "softmax_stl ex input out dm = Some r"
    using e(1) r(1) by (simp add: softmax_stl_def)
  then show ?thesis
    using e r(2,3,4) by auto
qed

lemma softmax_xsimd_exp_loops_ok:
  fixes ex exv :: "'a::{zero,plus} \<Rightarrow> 'a" and hadd :: "'a list \<Rightarrow> 'a"
  assumes "0 < inc" "dm \<le> length input" "dm \<le> length out"
  shows "\<exists>e. softmax_xsimd_exp_loops inc hadd exv ex input out dm =
               Some (e, xsimd_exp_sum inc hadd exv ex input dm) \<and>
           length e = length out \<and>
           (\<forall>k<dm. e ! k = (if k < dm - dm mod inc then exv (input ! k) else ex (input ! k))) \<and>
           (\<forall>k. dm \<le> k \<and> k < length out \<longrightarrow> e ! k = out ! k)"
proof -
  let ?vs = "dm - dm mod inc"
  let ?B = "foldl (\<lambda>s b. s + hadd (map exv (take inc (drop (b * inc) input)))) 0
              [0..<?vs div inc]"
  have vs: "inc dvd ?vs" "?vs \<le> dm"
    by (simp_all add: dvd_minus_mod)
  have vi: "?vs \<le> length input" and vo: "?vs \<le> length out"
    using vs(2) assms(2,3) by simp_all
  from exp_vector_loop[OF assms(1) vs(1) vi vo, where hadd = hadd and exv = exv] obtain o1 where o1:
    "for_step 0 ?vs inc
       (\<lambda>i (out, exp_sum). do {
          x_vec \<leftarrow> load_aligned input i inc;
          let y_vec = map exv x_vec;
          let exp_sum = exp_sum + hadd y_vec;
          out \<leftarrow> store_aligned out i y_vec;
          Some (out, exp_sum)
        }) (out, 0) = Some (o1, ?B)"
    "length o1 = length out" "\<forall>k<?vs. o1 ! k = exv (input ! k)"
    "\<forall>k. ?vs \<le> k \<and> k < length out \<longrightarrow> o1 ! k = out ! k"
    by blast
  have l1: "dm \<le> length o1"
    using assms(3) o1(2) by simp
  from exp_scalar_loop[OF vs(2) assms(2) l1, where ex = ex and acc = ?B] obtain o2 where o2:
    "for_step ?vs dm 1
       (\<lambda>i (out, exp_sum). do {
          x \<leftarrow> rd input i;
          out \<leftarrow> wr out i (ex x);
          y \<leftarrow> rd out i;
          Some (out, exp_sum + y)
        }) (o1, ?B) = Some (o2, foldl (\<lambda>s j. s + ex (input ! j)) ?B [?vs..<dm])"
    "length o2 = length o1" "\<forall>k. ?vs \<le> k \<and> k < dm \<longrightarrow> o2 ! k = ex (input ! k)"
    "\<forall>k<length o1. \<not> (?vs \<le> k \<and> k < dm) \<longrightarrow> o2 ! k = o1 ! k"
    by blast
  have sum: "foldl (\<lambda>s j. s + ex (input ! j)) ?B [?vs..<dm] =
             xsimd_exp_sum inc hadd exv ex input dm"
    using assms(1) by (simp add: xsimd_exp_sum_def vec_size_div)
  have run: "softmax_xsimd_exp_loops inc hadd exv ex input out dm =
             Some (o2, xsimd_exp_sum inc hadd exv ex input dm)"
    using o1(1) o2(1) sum by (simp add: softmax_xsimd_exp_loops_def Let_def)
  have a1: "\<forall>k<dm. o2 ! k = (if k < ?vs then exv (input ! k) else ex (input ! k))"
  proof (intro allI impI)
    fix k assume k: "k < dm"
    show "o2 ! k = (if k < ?vs then exv (input ! k) else ex (input ! k))"
    proof (cases "k < ?vs")
      case True
      then have "o2 ! k = o1 ! k"
        using o2(4) k l1 by simp
      then show ?thesis
        using o1(3) True by simp
    next
      case False
      then show ?thesis
        using o2(3) k by simp
    qed
  qed
  have a2: "\<forall>k. dm \<le> k \<and> k < length out \<longrightarrow> o2 ! k = out ! k"
  proof (intro allI impI)
    fix k assume k: "dm \<le> k \<and> k < length out"
    then have "o2 ! k = o1 ! k"
      using o2(4) o1(2) by simp
    then show "o2 ! k = out ! k"
      using o1(4) k vs(2) by simp
  qed
  show ?thesis
    using run o2(2) o1(2) a1 a2 by simp
qed

lemma softmax_xsimd_ok:
  fixes ex exv :: "'a::{zero,plus,inverse} \<Rightarrow> 'a"
  assumes "0 < inc" "dm \<le> length input" "dm \<le> length out"
  shows "\<exists>e r. softmax_xsimd_exp_loops inc hadd exv ex input out dm =
               Some (e, xsimd_exp_sum inc hadd exv ex input dm) \<and>
           softmax_xsimd inc hadd exv ex input out dm = Some r \<and> length r = length out \<and>
           (\<forall>k<dm. e ! k = (if k < dm - dm mod inc then exv (input ! k) else ex (input ! k))) \<and>
           (\<forall>k<dm. r ! k = e ! k / xsimd_exp_sum inc hadd exv ex input dm) \<and>
           (\<forall>k. dm \<le> k \<and> k < length out \<longrightarrow> r ! k = out ! k)"
proof -
  let ?S = "xsimd_exp_sum inc hadd exv ex input dm"
  let ?vs = "dm - dm mod inc"
  have vs: "inc dvd ?vs" "?vs \<le> dm"
    by (simp_all add: dvd_minus_mod)
  from softmax_xsimd_exp_loops_ok[OF assms, where hadd = hadd and exv = exv and ex = ex] obtain o2 where o2:
    "softmax_xsimd_exp_loops inc hadd exv ex input out dm = Some (o2, ?S)"
    "length o2 = length out"
    "\<forall>k<dm. o2 ! k = (if k < ?vs then exv (input ! k) else ex (input ! k))"
    "\<forall>k. dm \<le> k \<and> k < length out \<longrightarrow> o2 ! k = out ! k"
    by blast
  have l2: "?vs \<le> length o2" "dm \<le> length o2"
    using vs(2) assms(3) o2(2) by simp_all
  from div_vector_loop[OF assms(1) vs(1) l2(1), where s = ?S] obtain o3 where o3:
    "for_step 0 ?vs inc
       (\<lambda>i out. do {
          x_vec \<leftarrow> load_aligned out i inc;
          let y_vec = map (\<lambda>x. x / ?S) x_vec;
          store_aligned out i y_vec
        }) o2 = Some o3"
    "length o3 = length o2" "\<forall>k<?vs. o3 ! k = o2 ! k / ?S"
    "\<forall>k. ?vs \<le> k \<and> k < length o2 \<longrightarrow> o3 ! k = o2 ! k"
    by blast
  from div_scalar_loop[OF vs(2) l2(2) o3(2,3,4)] obtain r where r:
    "for_step ?vs dm 1 (\<lambda>i out. do { y \<leftarrow> rd out i; wr out i (y / ?S) }) o3 = Some r"
    "length r = length o2" "\<forall>k<dm. r ! k = o2 ! k / ?S"
    "\<forall>k. dm \<le> k \<and> k < length o2 \<longrightarrow> r ! k = o2 ! k"
    by blast
  have "softmax_xsimd inc hadd exv ex input out dm = Some r"
    using assms(1) o2(1) o3(1) r(1) by (simp add: softmax_xsimd_def Let_def)
  then show ?thesis
    using o2 r(2,3,4) by auto
qed

text \<open>
  Where addition is associative and commutative with 0 as its unit, the horizontal sum
  is the sum of the lanes and \<open>xsimd::exp\<close> is \<open>std::exp\<close> on each lane, the two backends
  divide by the same sum.
\<close>

lemma foldl_add_sum:
  fixes f :: "nat \<Rightarrow> 'a::comm_monoid_add"
  shows "foldl (\<lambda>s j. s + f j) acc [a..<b] = acc + (\<Sum>j = a..<b. f j)"
  by (induction b) (simp_all add: add.assoc)

lemma sum_list_take_drop:
  fixes f :: "'b \<Rightarrow> 'a::comm_monoid_add"
  assumes "j + n \<le> length xs"
  shows "sum_list (map f (take n (drop j xs))) = (\<Sum>k = j..<j + n. f (xs ! k))"
proof -
  have "sum_list (map f (take n (drop j xs))) = (\<Sum>k = 0..<n. map f (take n (drop j xs)) ! k)"
    using assms by (simp add: sum_list_sum_nth)
  also have "\<dots> = (\<Sum>k = 0..<n. f (xs ! (j + k)))"
    using assms by (intro sum.cong) simp_all
  also have "\<dots> = (\<Sum>k = j..<j + n. f (xs ! k))"
    using sum.shift_bounds_nat_ivl[of "\<lambda>k. f (xs ! k)" 0 j n] by (simp add: add.commute)
  finally show ?thesis .
qed

lemma foldl_batches_sum:
  fixes ex :: "'a::comm_monoid_add \<Rightarrow> 'a"
  assumes "q * inc \<le> length input"
  shows "foldl (\<lambda>s b. s + sum_list (map ex (take inc (drop (b * inc) input)))) 0 [0..<q] =
         (\<Sum>k = 0..<q * inc. ex (input ! k))"
  using assms
proof (induction q)
  case 0
  then show ?case by simp
next
  case (Suc q)
  then have le: "q * inc + inc \<le> length input"
    by (simp add: add.commute)
  then have IH: "foldl (\<lambda>s b. s + sum_list (map ex (take inc (drop (b * inc) input)))) 0 [0..<q] =
         (\<Sum>k = 0..<q * inc. ex (input ! k))"
    using Suc.IH by simp
  have "(\<Sum>k = 0..<q * inc. ex (input ! k)) + (\<Sum>k = q * inc..<q * inc + inc. ex (input ! k)) =
        (\<Sum>k = 0..<q * inc + inc. ex (input ! k))"
    by (rule sum.atLeastLessThan_concat) simp_all
  then show ?case
    using IH sum_list_take_drop[OF le, of ex] by (simp add: add.commute)
qed

lemma exp_sums_agree_exact:
  fixes ex :: "'a::comm_monoid_add \<Rightarrow> 'a"
  assumes "0 < inc" "n \<le> length input"
  shows "xsimd_exp_sum inc sum_list ex ex input n = stl_exp_sum ex input n"
proof -
  let ?vs = "n - n mod inc"
  have vs: "n div inc * inc = ?vs" "?vs \<le> n"
    by (simp_all add: minus_mod_eq_div_mult)
  have le: "n div inc * inc \<le> length input"
    using vs assms(2) by simp
  have "xsimd_exp_sum inc sum_list ex ex input n =
        (\<Sum>k = 0..<?vs. ex (input ! k)) + (\<Sum>k = ?vs..<n. ex (input ! k))"
    using foldl_batches_sum[OF le, of ex] vs(1)
    by (simp add: xsimd_exp_sum_def foldl_add_sum)
  also have "\<dots> = (\<Sum>k = 0..<n. ex (input ! k))"
    using vs(2) by (intro sum.atLeastLessThan_concat) simp_all
  finally show ?thesis
    by (simp add: stl_exp_sum_def foldl_add_sum)
qed

lemma softmax_results_equal:
  fixes ex exv :: "'a::{zero,plus,inverse} \<Rightarrow> 'a"
  assumes "length r = length out" "length r' = length out"
    and "\<forall>k<dm. r ! k = ex (input ! k) / s"
    and "\<forall>k<dm. r' ! k = (if k < vs then exv (input ! k) else ex (input ! k)) / s'"
    and "\<forall>k. dm \<le> k \<and> k < length out \<longrightarrow> r ! k = out ! k"
    and "\<forall>k. dm \<le> k \<and> k < length out \<longrightarrow> r' ! k = out ! k"
    and "\<forall>k<dm. exv (input ! k) = ex (input ! k)" "s' = s"
  shows "r' = r"
proof (rule nth_equalityI)
  show "length r' = length r"
    using assms(1,2) by simp
  fix k assume "k < length r'"
  then have k: "k < length out"
    using assms(2) by simp
  show "r' ! k = r ! k"
  proof (cases "k < dm")
    case True
    then show ?thesis
      using assms(3,4,7,8) by simp
  next
    case False
    then show ?thesis
      using assms(5,6) k by simp
  qed
qed

text \<open>
  Claim C6. For every batch width \<open>inc > 0\<close>, every length \<open>dm\<close>, a multiple of the width or
  not, and buffers of at least \<open>dm\<close> cells, both backends return. Each computes the
  exponentials and accumulates their sum in one pass: the exponential loop of the STL
  backend returns the exponentials of the inputs together with their sum added from left to
  right, starting from 0; the exponential loops of the xsimd backend return them together
  with the sum of the horizontal sums of the full batches, batch after batch, to which the
  exponentials of the remainder are added one by one. Nothing is subtracted from the
  inputs. Each backend then divides every exponential by its own sum:
  \<open>out[i] = exp(x[i]) / exp_sum\<close> for every \<open>i < dm\<close>. The two backends return the same buffer
  whenever \<open>xsimd::exp\<close> and \<open>std::exp\<close> agree on the inputs and the two sums are equal. No law
  of the arithmetic of \<open>T\<close> is assumed, and nothing of \<open>xsimd::hadd\<close> and \<open>xsimd::exp\<close>.
\<close>

theorem softmax_backends:
  fixes ex exv :: "'a::{zero,plus,inverse} \<Rightarrow> 'a" and hadd :: "'a list \<Rightarrow> 'a"
  assumes "0 < inc" "dm \<le> length input" "dm \<le> length out"
  shows "\<exists>e r e' r'.
           softmax_stl_exp_loop ex input out dm = Some (e, stl_exp_sum ex input dm) \<and>
           softmax_stl ex input out dm = Some r \<and>
           softmax_xsimd_exp_loops inc hadd exv ex input out dm =
             Some (e', xsimd_exp_sum inc hadd exv ex input dm) \<and>
           softmax_xsimd inc hadd exv ex input out dm = Some r' \<and>
           length r = length out \<and> length r' = length out \<and>
           (\<forall>i<dm. e ! i = ex (input ! i) \<and>
                   r ! i = ex (input ! i) / stl_exp_sum ex input dm) \<and>
           (\<forall>i<dm. e' ! i = (if i < dm - dm mod inc then exv (input ! i) else ex (input ! i)) \<and>
                   r' ! i = e' ! i / xsimd_exp_sum inc hadd exv ex input dm) \<and>
           ((\<forall>i<dm. exv (input ! i) = ex (input ! i)) \<and>
            xsimd_exp_sum inc hadd exv ex input dm = stl_exp_sum ex input dm \<longrightarrow> r' = r)"
proof -
  let ?S = "stl_exp_sum ex input dm" and ?S' = "xsimd_exp_sum inc hadd exv ex input dm"
  let ?vs = "dm - dm mod inc"
  from softmax_stl_ok[OF assms(2,3), of ex] obtain e r where r:
    "softmax_stl_exp_loop ex input out dm = Some (e, ?S)"
    "softmax_stl ex input out dm = Some r" "length r = length out"
    "\<forall>k<dm. e ! k = ex (input ! k)"
    "\<forall>k<dm. r ! k = ex (input ! k) / ?S"
    "\<forall>k. dm \<le> k \<and> k < length out \<longrightarrow> r ! k = out ! k"
    by blast
  from softmax_xsimd_ok[OF assms, where hadd = hadd and exv = exv and ex = ex]
  obtain e' r' where r':
    "softmax_xsimd_exp_loops inc hadd exv ex input out dm = Some (e', ?S')"
    "softmax_xsimd inc hadd exv ex input out dm = Some r'" "length r' = length out"
    "\<forall>k<dm. e' ! k = (if k < ?vs then exv (input ! k) else ex (input ! k))"
    "\<forall>k<dm. r' ! k = e' ! k / ?S'"
    "\<forall>k. dm \<le> k \<and> k < length out \<longrightarrow> r' ! k = out ! k"
    by blast
  have q: "\<forall>k<dm. r' ! k = (if k < ?vs then exv (input ! k) else ex (input ! k)) / ?S'"
    using r'(4,5) by simp
  have eq: "r' = r" if "\<forall>i<dm. exv (input ! i) = ex (input ! i)" "?S' = ?S"
    using softmax_results_equal[OF r(3) r'(3) r(5) q r(6) r'(6) that] .
  have c1: "\<forall>i<dm. e ! i = ex (input ! i) \<and> r ! i = ex (input ! i) / ?S"
    using r(4,5) by simp
  have c2: "\<forall>i<dm. e' ! i = (if i < ?vs then exv (input ! i) else ex (input ! i)) \<and>
                   r' ! i = e' ! i / ?S'"
    using r'(4,5) by simp
  have c3: "(\<forall>i<dm. exv (input ! i) = ex (input ! i)) \<and> ?S' = ?S \<longrightarrow> r' = r"
    using eq by blast
  show ?thesis
    using r(1,2,3) r'(1,2,3) c1 c2 c3 by blast
qed

text \<open>
  The theorem on \<open>double\<close>, at width 4 and length 5, one full batch and a remainder of one
  element, on the inputs \<open>37, 0, 0, 0, 0\<close>, with the horizontal sum that adds lane after
  lane. Both sums are \<open>exp(37)\<close>, since \<open>exp(37) + 1\<close> rounds to \<open>exp(37)\<close>; the two backends
  return the same buffer, whose first entry is 1.
\<close>

theorem softmax_backends_witness:
  "\<exists>e e' r.
     softmax_stl_exp_loop exp_at_37_0 (Finite 37 # replicate 4 (Finite 0))
       (replicate 5 (Finite 0)) 5 = Some (e, Finite 11719142372802612) \<and>
     softmax_stl exp_at_37_0 (Finite 37 # replicate 4 (Finite 0)) (replicate 5 (Finite 0)) 5 =
       Some r \<and>
     softmax_xsimd_exp_loops 4 hadd_lanes exp_at_37_0 exp_at_37_0
       (Finite 37 # replicate 4 (Finite 0)) (replicate 5 (Finite 0)) 5 =
       Some (e', Finite 11719142372802612) \<and>
     softmax_xsimd 4 hadd_lanes exp_at_37_0 exp_at_37_0
       (Finite 37 # replicate 4 (Finite 0)) (replicate 5 (Finite 0)) 5 = Some r \<and>
     e ! 0 = Finite 11719142372802612 \<and> e' ! 4 = Finite 1 \<and> r ! 0 = Finite 1 \<and>
     r ! 4 = Finite (6922830684512341 / 81129638414606681695789005144064)"
proof -
  let ?x = "Finite 37 # replicate 4 (Finite 0)" and ?o = "replicate 5 (Finite 0) :: double list"
  let ?S = "stl_exp_sum exp_at_37_0 ?x 5"
  let ?S' = "xsimd_exp_sum 4 hadd_lanes exp_at_37_0 exp_at_37_0 ?x 5"
  have h: "0 < (4::nat)" "5 \<le> length ?x" "5 \<le> length ?o"
    by simp_all
  from softmax_backends[OF h, where hadd = hadd_lanes and exv = exp_at_37_0
      and ex = exp_at_37_0]
  obtain e r e' r' where r:
    "softmax_stl_exp_loop exp_at_37_0 ?x ?o 5 = Some (e, ?S)"
    "softmax_stl exp_at_37_0 ?x ?o 5 = Some r"
    "softmax_xsimd_exp_loops 4 hadd_lanes exp_at_37_0 exp_at_37_0 ?x ?o 5 = Some (e', ?S')"
    "softmax_xsimd 4 hadd_lanes exp_at_37_0 exp_at_37_0 ?x ?o 5 = Some r'"
    "\<forall>i<5. e ! i = exp_at_37_0 (?x ! i) \<and> r ! i = exp_at_37_0 (?x ! i) / ?S"
    "\<forall>i<5. e' ! i = (if i < 5 - 5 mod 4 then exp_at_37_0 (?x ! i) else exp_at_37_0 (?x ! i)) \<and>
            r' ! i = e' ! i / ?S'"
    "(\<forall>i<5. exp_at_37_0 (?x ! i) = exp_at_37_0 (?x ! i)) \<and> ?S' = ?S \<longrightarrow> r' = r"
    by blast
  have s: "?S = Finite 11719142372802612"
    by code_simp
  have s': "?S' = Finite 11719142372802612"
    by code_simp
  have same: "r' = r"
    using r(7) s s' by simp
  have v: "exp_at_37_0 (?x ! 0) = Finite 11719142372802612" "exp_at_37_0 (?x ! 4) = Finite 1"
    "exp_at_37_0 (?x ! 0) / ?S = Finite 1"
    "exp_at_37_0 (?x ! 4) / ?S = Finite (6922830684512341 / 81129638414606681695789005144064)"
    by code_simp+
  have i0: "e ! 0 = exp_at_37_0 (?x ! 0)" "r ! 0 = exp_at_37_0 (?x ! 0) / ?S"
    using r(5)[rule_format, of 0] by simp_all
  have i4: "r ! 4 = exp_at_37_0 (?x ! 4) / ?S"
    using r(5)[rule_format, of 4] by simp
  have j4: "e' ! 4 = exp_at_37_0 (?x ! 4)"
    using r(6)[rule_format, of 4] by simp
  have "e ! 0 = Finite 11719142372802612" "e' ! 4 = Finite 1" "r ! 0 = Finite 1"
    "r ! 4 = Finite (6922830684512341 / 81129638414606681695789005144064)"
    using v i0 i4 j4 by (simp_all only:)
  moreover have "softmax_stl_exp_loop exp_at_37_0 ?x ?o 5 = Some (e, Finite 11719142372802612)"
    using r(1) s by (simp only:)
  moreover have "softmax_xsimd_exp_loops 4 hadd_lanes exp_at_37_0 exp_at_37_0 ?x ?o 5 =
      Some (e', Finite 11719142372802612)"
    using r(3) s' by (simp only:)
  moreover have "softmax_xsimd 4 hadd_lanes exp_at_37_0 exp_at_37_0 ?x ?o 5 = Some r"
    using r(4) same by (simp only:)
  ultimately show ?thesis
    using r(2) by blast
qed

text \<open>
  The claim as it is written fails on \<open>double\<close>. At width 4 and length 8, two full batches,
  on the inputs \<open>37, 0, 0, 0, 0, 0, 0, 0\<close>, with the same exponential for both backends:
  the STL backend adds 1 to \<open>exp(37)\<close> seven times, each sum rounds back to \<open>exp(37)\<close>, and
  \<open>out[0]\<close> is 1; the xsimd backend adds the sum 4 of the second batch to the sum of the
  first, and \<open>out[0]\<close> is less than 1, with the horizontal sum that adds lane after lane and
  with the one that adds by pairs. With the second one the two backends differ at width 4
  and length 5 too.
\<close>

theorem softmax_backends_differ:
  "map_option hd (softmax_stl exp_at_37_0 (Finite 37 # replicate 7 (Finite 0))
     (replicate 8 (Finite 0)) 8) = Some (Finite 1) \<and>
   map_option hd (softmax_xsimd 4 hadd_lanes exp_at_37_0 exp_at_37_0
     (Finite 37 # replicate 7 (Finite 0)) (replicate 8 (Finite 0)) 8) =
     Some (Finite (9007199254740989 / 9007199254740992)) \<and>
   map_option hd (softmax_xsimd 4 hadd_pairs exp_at_37_0 exp_at_37_0
     (Finite 37 # replicate 7 (Finite 0)) (replicate 8 (Finite 0)) 8) =
     Some (Finite (9007199254740987 / 9007199254740992)) \<and>
   map_option hd (softmax_stl exp_at_37_0 (Finite 37 # replicate 4 (Finite 0))
     (replicate 5 (Finite 0)) 5) = Some (Finite 1) \<and>
   map_option hd (softmax_xsimd 4 hadd_pairs exp_at_37_0 exp_at_37_0
     (Finite 37 # replicate 4 (Finite 0)) (replicate 5 (Finite 0)) 5) =
     Some (Finite (9007199254740989 / 9007199254740992))"
  by code_simp

section \<open>The test runner\<close>

lemma model_loop:
  fixes fwd :: "'m \<Rightarrow> 'a::zero list \<Rightarrow> 'a \<times> 'm"
  shows "\<exists>m'. for_step 0 (length xData) 1
            (\<lambda>n (model, yData). do {
               x \<leftarrow> rd xData n;
               let (y, model) = fwd model [x];
               yData \<leftarrow> wr yData n y;
               Some (model, yData)
             }) (m0, replicate (length xData) 0) = Some (m', model_output fwd m0 xData)"
proof -
  let ?N = "length xData"
  let ?body = "\<lambda>n (model, yData). do {
               x \<leftarrow> rd xData n;
               let (y, model) = fwd model [x];
               yData \<leftarrow> wr yData n y;
               Some (model, yData)
             }"
  let ?I = "\<lambda>n (t :: 'm \<times> 'a list). length (snd t) = ?N \<and>
              model_output fwd m0 xData = take n (snd t) @ model_output fwd (fst t) (drop n xData)"
  have "\<exists>s'. for_step 0 ?N 1 ?body (m0, replicate ?N 0) = Some s' \<and> ?I ?N s'"
  proof (rule for_loop_rule[where I = ?I])
    show "?I 0 (m0, replicate ?N 0)" by simp
    fix n and t :: "'m \<times> 'a list"
    assume n: "n < ?N" and I: "?I n t"
    obtain m yd where t: "t = (m, yd)" by (cases t)
    obtain y m' where f: "fwd m [xData ! n] = (y, m')" by (cases "fwd m [xData ! n]")
    have run: "?body n t = Some (m', yd[n := y])"
      using n I by (simp add: t f rd_def wr_def)
    have d: "drop n xData = xData ! n # drop (Suc n) xData"
      using n by (simp add: Cons_nth_drop_Suc)
    have "take (Suc n) (yd[n := y]) = take n yd @ [y]"
      using n I by (simp add: t take_Suc_conv_app_nth)
    then have "?I (Suc n) (m', yd[n := y])"
      using I by (simp add: t d f)
    then show "\<exists>t'. ?body n t = Some t' \<and> ?I (Suc n) t'"
      using run by blast
  qed
  then obtain s' where s': "for_step 0 ?N 1 ?body (m0, replicate ?N 0) = Some s'" "?I ?N s'"
    by blast
  then have "snd s' = model_output fwd m0 xData"
    by simp
  then show ?thesis
    using s'(1) by (cases s') auto
qed

lemma model_output_length: "length (model_output fwd m xs) = length xs"
  by (induction xs arbitrary: m) (auto split: prod.splits)

text \<open>
  The second loop counts the samples for which \<open>err > threshold\<close> is true, whatever the
  comparison of the element type is.
\<close>

lemma count_loop:
  fixes thr :: "'a::{zero,minus,abs,ord}"
  assumes "N \<le> length yData" "N \<le> length yRefData"
  shows "\<exists>e. for_step 0 N 1
            (\<lambda>n (nErrs, max_error). do {
               y \<leftarrow> rd yData n;
               yRef \<leftarrow> rd yRefData n;
               let err = \<bar>y - yRef\<bar>;
               Some (if err > thr then (nErrs + 1, std_max err max_error)
                     else (nErrs, max_error))
             }) (0, 0) =
           Some (length (filter (\<lambda>n. \<bar>yData ! n - yRefData ! n\<bar> > thr) [0..<N]), e)"
proof -
  let ?body = "\<lambda>n (nErrs, max_error). do {
               y \<leftarrow> rd yData n;
               yRef \<leftarrow> rd yRefData n;
               let err = \<bar>y - yRef\<bar>;
               Some (if err > thr then (nErrs + 1, std_max err max_error)
                     else (nErrs, max_error))
             }"
  let ?I = "\<lambda>n (t :: nat \<times> 'a).
              fst t = length (filter (\<lambda>n. \<bar>yData ! n - yRefData ! n\<bar> > thr) [0..<n])"
  have "\<exists>s'. for_step 0 N 1 ?body (0, 0) = Some s' \<and> ?I N s'"
  proof (rule for_loop_rule[where I = ?I])
    show "?I 0 (0, 0)" by simp
    fix n and t :: "nat \<times> 'a"
    assume n: "n < N" and I: "?I n t"
    obtain c e where t: "t = (c, e)" by (cases t)
    show "\<exists>t'. ?body n t = Some t' \<and> ?I (Suc n) t'"
      using n I assms by (simp add: t rd_def Let_def)
  qed
  then show ?thesis
    by (metis prod.collapse)
qed

text \<open>
  On \<open>double\<close>, a difference that does not exceed the threshold is at most the threshold
  unless one of the two is a NaN.
\<close>

lemma double_not_less:
  fixes x y :: double
  assumes "x \<noteq> NaN" "y \<noteq> NaN"
  shows "\<not> y < x \<longleftrightarrow> x \<le> y"
  using assms by (cases x; cases y) auto

text \<open>
  Claim C8. When the reference file has at least as many samples as the input file,
  \<open>runTest\<close> returns 0 or 1, and it returns 0 if and only if for no sample \<open>n\<close> of the input
  sequence the absolute difference between the model output and the reference output
  exceeds the threshold of the test, that is, \<open>err > threshold\<close> is false for every sample;
  a difference that is a NaN does not exceed the threshold. When it returns 1, the error
  count it prints is the number of samples whose difference exceeds the threshold. The
  table configures the threshold \<open>1.0e-6\<close> for the LSTM test and \<open>5.0e-6\<close> for the GRU test.
  No law of the arithmetic or of the comparison of the element type is assumed.
\<close>

theorem runTest_verdict:
  fixes env :: "('m, 'a::{zero,minus,abs,ord}) Env"
  assumes "length (test_input env test) \<le> length (test_reference env test)"
  shows "\<exists>cout r.
           runTest env test = Some (cout, r) \<and> (r = 0 \<or> r = 1) \<and>
           (r = 0 \<longleftrightarrow>
              (\<forall>n<length (test_input env test).
                 \<not> \<bar>test_output env test ! n - test_reference env test ! n\<bar> > threshold test)) \<and>
           (r = 1 \<longrightarrow>
              FAIL (card {n. n < length (test_input env test) \<and>
                     \<bar>test_output env test ! n - test_reference env test ! n\<bar> > threshold test})
                \<in> set cout) \<and>
           map_option threshold (map_of (tests lit) ''lstm'') = Some (lit (1 / 10 ^ 6)) \<and>
           map_option threshold (map_of (tests lit) ''gru'') = Some (lit (5 / 10 ^ 6))"
proof -
  let ?x = "test_input env test" and ?ref = "test_reference env test"
  let ?y = "test_output env test"
  let ?m0 = "model_reset env (parseJson env (model_file test))"
  let ?P = "\<lambda>n. \<bar>?y ! n - ?ref ! n\<bar> > threshold test"
  let ?c = "length (filter ?P [0..<length ?x])"
  from model_loop[of ?x "model_forward env" ?m0] obtain m' where l1:
    "for_step 0 (length ?x) 1
       (\<lambda>n (model, yData). do {
          x \<leftarrow> rd ?x n;
          let (y, model) = model_forward env model [x];
          yData \<leftarrow> wr yData n y;
          Some (model, yData)
        }) (?m0, replicate (length ?x) 0) = Some (m', ?y)"
    by (auto simp: test_output_def)
  have ly: "length ?x \<le> length ?y"
    by (simp add: test_output_def model_output_length)
  from count_loop[OF ly assms, of "threshold test"] obtain e where l2:
    "for_step 0 (length ?x) 1
       (\<lambda>n (nErrs, max_error). do {
          y \<leftarrow> rd ?y n;
          yRef \<leftarrow> rd ?ref n;
          let err = \<bar>y - yRef\<bar>;
          Some (if err > threshold test then (nErrs + 1, std_max err max_error)
                else (nErrs, max_error))
        }) (0, 0) = Some (?c, e)"
    by blast
  let ?cout = "if ?c > 0 then [TESTING (name test), FAIL ?c, MaximumError e]
               else [TESTING (name test), SUCCESS]"
  let ?r = "if ?c > 0 then 1 else 0 :: int"
  have run: "runTest env test = Some (?cout, ?r)"
    using l1 l2 by (simp add: runTest_def test_input_def test_reference_def Let_def)
  have card: "?c = card {n. n < length ?x \<and> ?P n}"
  proof -
    have "?c = card ({n. ?P n} \<inter> set [0..<length ?x])"
      by (simp add: distinct_length_filter)
    also have "{n. ?P n} \<inter> set [0..<length ?x] = {n. n < length ?x \<and> ?P n}"
      by auto
    finally show ?thesis .
  qed
  have zero: "?c = 0 \<longleftrightarrow> (\<forall>n<length ?x. \<not> ?P n)"
    by (auto simp: filter_empty_conv)
  have th: "map_option threshold (map_of (tests lit) ''lstm'') = Some (lit (1 / 10 ^ 6))"
    "map_option threshold (map_of (tests lit) ''gru'') = Some (lit (5 / 10 ^ 6))"
    by (simp_all add: tests_def)
  have "(?r = 0 \<or> ?r = 1) \<and> (?r = 0 \<longleftrightarrow> ?c = 0) \<and>
        (?r = 1 \<longrightarrow> FAIL ?c \<in> set ?cout)"
    by simp
  then have "(?r = 0 \<or> ?r = 1) \<and>
        (?r = 0 \<longleftrightarrow> (\<forall>n<length ?x. \<not> ?P n)) \<and>
        (?r = 1 \<longrightarrow> FAIL (card {n. n < length ?x \<and> ?P n}) \<in> set ?cout)"
    using zero card by simp
  then show ?thesis
    using run th by blast
qed

text \<open>
  The theorem on \<open>double\<close>, at the LSTM test with a model that returns the running sum of
  its inputs, on the inputs \<open>1, 2, 3\<close> and the references \<open>1, nan, 6.5\<close>: the outputs are
  \<open>1, 3, 6\<close>, the second difference is a NaN and is not counted, the third is 0.5; the
  return value is 1 and the count printed is 1.
\<close>

theorem runTest_verdict_witness:
  "\<exists>cout. runTest sum_env lstm_test = Some (cout, 1) \<and> FAIL 1 \<in> set cout \<and>
     test_output sum_env lstm_test = [Finite 1, Finite 3, Finite 6] \<and>
     threshold lstm_test = dbl (1 / 10 ^ 6)"
proof -
  let ?x = "test_input sum_env lstm_test" and ?ref = "test_reference sum_env lstm_test"
  let ?y = "test_output sum_env lstm_test"
  let ?P = "\<lambda>n. \<bar>?y ! n - ?ref ! n\<bar> > threshold lstm_test"
  have len: "length ?x = 3" "length ?ref = 3"
    by code_simp+
  have y: "?y = [Finite 1, Finite 3, Finite 6]"
    by code_simp
  have p: "\<not> ?P 0" "\<not> ?P 1" "?P 2"
    by code_simp+
  have h: "length ?x \<le> length ?ref"
    by (simp only: len)
  from runTest_verdict[OF h, where lit = dbl] obtain cout r where r:
    "runTest sum_env lstm_test = Some (cout, r)" "r = 0 \<or> r = 1"
    "r = 0 \<longleftrightarrow> (\<forall>n<length ?x. \<not> ?P n)"
    "r = 1 \<longrightarrow> FAIL (card {n. n < length ?x \<and> ?P n}) \<in> set cout"
    "map_option threshold (map_of (tests dbl) ''lstm'') = Some (dbl (1 / 10 ^ 6))"
    by blast
  have "(2::nat) < length ?x"
    by (simp only: len)
  then have "\<not> (\<forall>n<length ?x. \<not> ?P n)"
    using p(3) by blast
  then have r1: "r = 1"
    using r(2,3) by blast
  have "{n. n < length ?x \<and> ?P n} = {2}"
  proof (rule set_eqI)
    fix n :: nat
    have "n < 3 \<longleftrightarrow> n = 0 \<or> n = 1 \<or> n = 2"
      by auto
    then show "n \<in> {n. n < length ?x \<and> ?P n} \<longleftrightarrow> n \<in> {2}"
      using p len(1) by auto
  qed
  then have "card {n. n < length ?x \<and> ?P n} = 1"
    by simp
  then have f: "FAIL 1 \<in> set cout"
    using r(4) r1 by simp
  have t: "threshold lstm_test = dbl (1 / 10 ^ 6)"
    using r(5) by (simp add: lstm_test_def tests_def)
  show ?thesis
    using r(1) r1 f y t by blast
qed

text \<open>
  The claim as it is written fails on \<open>double\<close>. At the LSTM test with a model whose output
  is NaN, on one input sample: the absolute difference between the model output and the
  reference output is a NaN, which is not at most the threshold, and \<open>runTest\<close> prints
  \<open>SUCCESS\<close> and returns 0.
\<close>

theorem runTest_passes_on_NaN:
  "runTest nan_env lstm_test = Some ([TESTING ''LSTM'', SUCCESS], 0) \<and>
   length (test_input nan_env lstm_test) = 1 \<and>
   test_output nan_env lstm_test ! 0 = NaN \<and>
   \<not> \<bar>test_output nan_env lstm_test ! 0 - test_reference nan_env lstm_test ! 0\<bar>
        \<le> threshold lstm_test"
  by code_simp

end
